theory Spec2Isabelle
  imports Complex_Main "HOL-Library.Word"
begin

section \<open>Data model (scancmdr.h)\<close>

text \<open>
  The C types are modelled as follows. \<open>uint32_t\<close> is \<open>32 word\<close> and \<open>int64_t\<close> is
  \<open>64 word\<close> (read with \<open>sint\<close>), \<open>uint16_t\<close> is \<open>16 word\<close>. The \<open>int\<close> fields of
  \<open>struct Coord\<close> and the \<open>int\<close> channel of a command are mathematical integers: signed
  overflow is undefined in C and is not part of the model. A \<open>double\<close> is a value of the
  type \<open>double\<close> of the section on doubles below: a real number that the binary64 format
  represents, an infinity or a NaN. The doubly linked list \<open>ScanProt\<close> is the list of its nodes from \<open>pFirst\<close> to \<open>pLast\<close>.
\<close>

type_synonym u16 = "16 word"
type_synonym u32 = "32 word"
type_synonym i64 = "64 word"

record Coord =
  X :: int
  Y :: int

record gCoord =
  gX :: i64
  gY :: i64

datatype Trigger = T_NONE | T_IN | T_OUT

record CmdLine =
  DSPCmd :: char
  ScanCmd :: char
  Cycle :: u32
  Channel :: int
  Value :: i64

type_synonym ScanProt = "CmdLine list"

definition CYCLES_PER_MS :: u32 where "CYCLES_PER_MS = 100"
definition TRIG_LEN :: u32 where "TRIG_LEN = 10"
definition TIME_OFFSET :: u32 where "TIME_OFFSET = 10"
definition PROT_PERIOD :: u32 where "PROT_PERIOD = 50"
definition START :: char where "START = CHR ''S''"
definition END :: char where "END = CHR ''E''"
definition NUL :: char where "NUL = CHR 0x00"

text \<open>The anonymous enum of channels; \<open>X\<close> and \<open>Y\<close> are renamed, the record fields have the names.\<close>

definition ch_X :: int where "ch_X = 4"
definition ch_Y :: int where "ch_Y = 3"
definition TRIG :: int where "TRIG = 7"
definition LOOP :: int where "LOOP = 9"

text \<open>\<open>enum TrigCfg\<close> and \<open>enum TrigIn\<close> are C integers.\<close>

definition TL_DL :: int where "TL_DL = 0"
definition TH_DL :: int where "TH_DL = 2"
definition TL_DH :: int where "TL_DH = 4"
definition TH_DH :: int where "TH_DH = 6"
definition RISING :: int where "RISING = 1"
definition FALLING :: int where "FALLING = 2"

section \<open>Scan command functions\<close>

text \<open>
  Every append function allocates its node with \<open>calloc\<close>. The first argument of the model
  says whether that allocation succeeded; when it did not, the function returns \<open>-1\<close> and
  leaves the protocol as it was. The result is the return code and the protocol afterwards.
\<close>

definition createProtocol :: ScanProt where
  "createProtocol = []"

definition reassignPointers :: "ScanProt \<Rightarrow> CmdLine \<Rightarrow> ScanProt" where
  "reassignPointers pParentList pChildNode = pParentList @ [pChildNode]"

text \<open>The node as \<open>calloc\<close> returns it: every field zero.\<close>

definition calloc_CmdLine :: CmdLine where
  "calloc_CmdLine = \<lparr>DSPCmd = NUL, ScanCmd = NUL, Cycle = 0, Channel = 0, Value = 0\<rparr>"

definition appendMove :: "bool \<Rightarrow> ScanProt \<Rightarrow> int \<Rightarrow> u32 \<Rightarrow> i64 \<Rightarrow> int \<times> ScanProt" where
  "appendMove alloc pProtocol channel cycle position =
     (if \<not> alloc then (-1, pProtocol)
      else (0, reassignPointers pProtocol
                 (calloc_CmdLine\<lparr>DSPCmd := CHR ''A'', ScanCmd := CHR ''V'', Cycle := cycle,
                                  Channel := channel, Value := position\<rparr>)))"

definition appendLoop :: "bool \<Rightarrow> ScanProt \<Rightarrow> char \<Rightarrow> u32 \<Rightarrow> i64 \<Rightarrow> int \<times> ScanProt" where
  "appendLoop alloc pProtocol StartOrEnd cycle repetitions =
     (if \<not> alloc then (-1, pProtocol)
      else
        (let pCmdLine = calloc_CmdLine\<lparr>DSPCmd := CHR ''A''\<rparr>;
             pCmdLine =
               (if StartOrEnd = CHR ''S'' then pCmdLine\<lparr>ScanCmd := START, Value := repetitions\<rparr>
                else if StartOrEnd = CHR ''E'' then pCmdLine\<lparr>ScanCmd := END, Value := repetitions\<rparr>
                else pCmdLine);
             pCmdLine = pCmdLine\<lparr>Cycle := cycle, Channel := LOOP\<rparr>
         in (0, reassignPointers pProtocol pCmdLine)))"

definition appendTrigOut :: "bool \<Rightarrow> ScanProt \<Rightarrow> u32 \<Rightarrow> int \<Rightarrow> int \<times> ScanProt" where
  "appendTrigOut alloc pProtocol cycle trigger =
     (if \<not> alloc then (-1, pProtocol)
      else (0, reassignPointers pProtocol
                 (calloc_CmdLine\<lparr>DSPCmd := CHR ''A'', ScanCmd := CHR ''V'', Cycle := cycle,
                                  Channel := TRIG, Value := word_of_int trigger\<rparr>)))"

definition appendRel :: "bool \<Rightarrow> ScanProt \<Rightarrow> u32 \<Rightarrow> int \<Rightarrow> i64 \<Rightarrow> int \<times> ScanProt" where
  "appendRel alloc pProtocol cycle channel deltaValue =
     (if \<not> alloc then (-1, pProtocol)
      else (0, reassignPointers pProtocol
                 (calloc_CmdLine\<lparr>DSPCmd := CHR ''A'', ScanCmd := CHR ''R'', Cycle := cycle,
                                  Channel := channel, Value := deltaValue\<rparr>)))"

definition appendTrigIn :: "bool \<Rightarrow> ScanProt \<Rightarrow> u32 \<Rightarrow> int \<Rightarrow> int \<times> ScanProt" where
  "appendTrigIn alloc pProtocol cycle risingFalling =
     (if \<not> alloc then (-1, pProtocol)
      else
        (let pCmdLine = calloc_CmdLine\<lparr>DSPCmd := CHR ''A''\<rparr>;
             pCmdLine =
               (if risingFalling = 1 then pCmdLine\<lparr>ScanCmd := CHR ''U''\<rparr>
                else if risingFalling = 2 then pCmdLine\<lparr>ScanCmd := CHR ''D''\<rparr>
                else pCmdLine\<lparr>ScanCmd := CHR ''U''\<rparr>);
             pCmdLine = pCmdLine\<lparr>Cycle := cycle, Channel := TRIG, Value := 0\<rparr>
         in (0, reassignPointers pProtocol pCmdLine)))"

section \<open>Doubles\<close>

text \<open>
  C's \<open>round\<close> rounds halfway cases away from zero; the cast of a double to an integer type
  drops the fraction. Both are written on the real number that the double is.
\<close>

definition c_round :: "real \<Rightarrow> int" where
  "c_round x = (if 0 \<le> x then \<lfloor>x + 1 / 2\<rfloor> else \<lceil>x - 1 / 2\<rceil>)"

definition c_trunc :: "real \<Rightarrow> int" where
  "c_trunc x = (if 0 \<le> x then \<lfloor>x\<rfloor> else \<lceil>x\<rceil>)"

text \<open>
  A \<open>double\<close> is an IEEE 754 binary64 number: a finite value, which is a real number with
  53 significant bits, an infinity, or a NaN. The two zeros are one value; the program
  divides only by results of \<open>fabs\<close>, where the zero is the positive one. Every arithmetic
  operation gives the exact result rounded to the nearest double, a tie to the one with the
  even significand (\<open>rne\<close>): \<open>to_double r\<close> scales \<open>r\<close> by the power of two \<open>u\<close> that is the
  distance of the doubles around \<open>r\<close> (\<open>2^-1074\<close> in the subnormal range), rounds to an
  integer and scales back; a result beyond \<open>DBL_MAX\<close> is an infinity.
\<close>

datatype double = Finite real | PInf | NInf | NaN

definition rne :: "real \<Rightarrow> int" where
  "rne y = (let f = \<lfloor>y\<rfloor>; d = y - real_of_int f
            in if d < 1 / 2 then f else if 1 / 2 < d then f + 1
               else if even f then f else f + 1)"

definition pow2 :: "int \<Rightarrow> real" where
  "pow2 e = (if 0 \<le> e then 2 ^ nat e else 1 / 2 ^ nat (- e))"

definition DBL_MAX :: real where
  "DBL_MAX = (2 ^ 53 - 1) * 2 ^ 971"

definition to_double :: "real \<Rightarrow> double" where
  "to_double r =
     (if r = 0 then Finite 0
      else
        (let e = max \<lfloor>log 2 \<bar>r\<bar>\<rfloor> (- 1022);
             u = pow2 (e - 52);
             v = real_of_int (rne (r / u)) * u
         in if DBL_MAX < v then PInf else if v < - DBL_MAX then NInf else Finite v))"

fun dneg :: "double \<Rightarrow> double" where
  "dneg (Finite x) = Finite (- x)"
| "dneg PInf = NInf"
| "dneg NInf = PInf"
| "dneg NaN = NaN"

fun fabs :: "double \<Rightarrow> double" where
  "fabs (Finite x) = Finite \<bar>x\<bar>"
| "fabs PInf = PInf"
| "fabs NInf = PInf"
| "fabs NaN = NaN"

fun dadd :: "double \<Rightarrow> double \<Rightarrow> double" where
  "dadd (Finite x) (Finite y) = to_double (x + y)"
| "dadd (Finite x) PInf = PInf"
| "dadd (Finite x) NInf = NInf"
| "dadd PInf (Finite y) = PInf"
| "dadd PInf PInf = PInf"
| "dadd NInf (Finite y) = NInf"
| "dadd NInf NInf = NInf"
| "dadd PInf NInf = NaN"
| "dadd NInf PInf = NaN"
| "dadd NaN b = NaN"
| "dadd a NaN = NaN"

definition dsub :: "double \<Rightarrow> double \<Rightarrow> double" where
  "dsub a b = dadd a (dneg b)"

fun dmul :: "double \<Rightarrow> double \<Rightarrow> double" where
  "dmul (Finite x) (Finite y) = to_double (x * y)"
| "dmul (Finite x) PInf = (if x = 0 then NaN else if 0 < x then PInf else NInf)"
| "dmul (Finite x) NInf = (if x = 0 then NaN else if 0 < x then NInf else PInf)"
| "dmul PInf (Finite y) = (if y = 0 then NaN else if 0 < y then PInf else NInf)"
| "dmul NInf (Finite y) = (if y = 0 then NaN else if 0 < y then NInf else PInf)"
| "dmul PInf PInf = PInf"
| "dmul PInf NInf = NInf"
| "dmul NInf PInf = NInf"
| "dmul NInf NInf = PInf"
| "dmul NaN b = NaN"
| "dmul a NaN = NaN"

fun ddiv :: "double \<Rightarrow> double \<Rightarrow> double" where
  "ddiv (Finite x) (Finite y) =
     (if y = 0 then (if x = 0 then NaN else if 0 < x then PInf else NInf)
      else to_double (x / y))"
| "ddiv (Finite x) PInf = Finite 0"
| "ddiv (Finite x) NInf = Finite 0"
| "ddiv PInf (Finite y) = (if 0 \<le> y then PInf else NInf)"
| "ddiv NInf (Finite y) = (if 0 \<le> y then NInf else PInf)"
| "ddiv PInf PInf = NaN"
| "ddiv PInf NInf = NaN"
| "ddiv NInf PInf = NaN"
| "ddiv NInf NInf = NaN"
| "ddiv NaN b = NaN"
| "ddiv a NaN = NaN"

text \<open>\<open>a != b\<close> on doubles: a NaN differs from every double, itself included.\<close>

definition dne :: "double \<Rightarrow> double \<Rightarrow> bool" where
  "dne a b = (a = NaN \<or> b = NaN \<or> a \<noteq> b)"

text \<open>\<open>round\<close> on doubles; the rounded value of a double is a double.\<close>

fun dround :: "double \<Rightarrow> double" where
  "dround (Finite x) = Finite (real_of_int (c_round x))"
| "dround PInf = PInf"
| "dround NInf = NInf"
| "dround NaN = NaN"

text \<open>The conversion of an integer to \<open>double\<close>; it is exact up to \<open>2^53\<close>.\<close>

definition d_of_int :: "int \<Rightarrow> double" where
  "d_of_int k = to_double (real_of_int k)"

text \<open>
  The casts \<open>(int)\<close> and \<open>(int64_t)\<close> of a double. Where the truncated value does not fit the
  integer type, and for an infinity and a NaN, C leaves the result undefined; the model
  has the value that the conversion instruction of x86-64 returns then, the most negative
  integer of the type.
\<close>

definition INT_MIN :: int where "INT_MIN = - (2 ^ 31)"
definition INT64_MIN :: i64 where "INT64_MIN = 0x8000000000000000"

fun to_int :: "double \<Rightarrow> int" where
  "to_int (Finite x) =
     (if - (2 ^ 31) \<le> c_trunc x \<and> c_trunc x < 2 ^ 31 then c_trunc x else INT_MIN)"
| "to_int PInf = INT_MIN"
| "to_int NInf = INT_MIN"
| "to_int NaN = INT_MIN"

fun to_int64 :: "double \<Rightarrow> i64" where
  "to_int64 (Finite x) =
     (if - (2 ^ 63) \<le> c_trunc x \<and> c_trunc x < 2 ^ 63 then word_of_int (c_trunc x)
      else INT64_MIN)"
| "to_int64 PInf = INT64_MIN"
| "to_int64 NInf = INT64_MIN"
| "to_int64 NaN = INT64_MIN"

text \<open>
  \<open>cos\<close> and \<open>sin\<close> are functions of the C library, whose accuracy the C standard leaves to
  the implementation. They are a parameter of every function that calls them. \<open>libm_rn\<close>
  is the library whose two functions return the correctly rounded result.
\<close>

record libm =
  c_cos :: "double \<Rightarrow> double"
  c_sin :: "double \<Rightarrow> double"

definition libm_rn :: libm where
  "libm_rn =
     \<lparr>c_cos = (\<lambda>a. case a of Finite x \<Rightarrow> to_double (cos x) | _ \<Rightarrow> NaN),
      c_sin = (\<lambda>a. case a of Finite x \<Rightarrow> to_double (sin x) | _ \<Rightarrow> NaN)\<rparr>"

section \<open>Helper functions\<close>

text \<open>
  \<open>convertCoord\<close>: \<open>rotTransform\<close> is a \<open>long double\<close>, so the assignment keeps the real part
  of \<open>ScaleFactor * cexp(RotAngle*I)\<close>. Its arithmetic is \<open>long double\<close> arithmetic on
  integer values, written on real numbers: it is exact as long as the scale factor and the
  products are below \<open>2^53\<close>. Every generator calls it with the angle 0.
\<close>

definition convertCoord :: "Coord \<Rightarrow> i64 \<Rightarrow> Coord \<Rightarrow> real \<Rightarrow> gCoord" where
  "convertCoord pixelCoord ScaleFactor CenterOffset RotAngle =
     (let cCoord = Complex (real_of_int (X pixelCoord)) (real_of_int (Y pixelCoord));
          offset = Complex (real_of_int (X CenterOffset)) (real_of_int (Y CenterOffset));
          rotTransform = Re (complex_of_int (sint ScaleFactor) * cis RotAngle);
          cCoord = complex_of_real rotTransform * (cCoord - offset)
      in \<lparr>gX = word_of_int (c_trunc (-1 * Re cCoord)),
          gY = word_of_int (c_trunc (-1 * Im cCoord))\<rparr>)"

text \<open>Division of C integers truncates towards zero.\<close>

definition c_div :: "int \<Rightarrow> int \<Rightarrow> int" where
  "c_div a b = sgn a * sgn b * (\<bar>a\<bar> div \<bar>b\<bar>)"

text \<open>
  \<open>rotateCoord\<close> in double arithmetic: each product, the difference and the sum are rounded
  to a double, and \<open>round\<close> is applied to the rounded result.
\<close>

definition rotateCoord :: "libm \<Rightarrow> Coord \<Rightarrow> Coord \<Rightarrow> double \<Rightarrow> Coord" where
  "rotateCoord lm pixelCoord axisCenter RotAngle =
     (let normCoord = \<lparr>X = X pixelCoord - X axisCenter, Y = Y pixelCoord - Y axisCenter\<rparr>;
          XX = d_of_int (X normCoord);
          YY = d_of_int (Y normCoord);
          rXX = dsub (dmul XX (c_cos lm RotAngle)) (dmul YY (c_sin lm RotAngle));
          rYY = dadd (dmul XX (c_sin lm RotAngle)) (dmul YY (c_cos lm RotAngle))
      in \<lparr>X = to_int (dround rXX), Y = to_int (dround rYY)\<rparr>)"

text \<open>
  \<open>getCentroid\<close> divides two integers; a division by zero ends the program, which is the
  result \<open>None\<close>. \<open>round\<close> of the integer quotient is the quotient.
\<close>

definition getCentroid :: "u16 \<Rightarrow> Coord list \<Rightarrow> Coord option" where
  "getCentroid NumPoints CoordArr =
     (let coordSum =
            foldl (\<lambda>coordSum i. \<lparr>X = X coordSum + X (CoordArr ! i),
                                  Y = Y coordSum + Y (CoordArr ! i)\<rparr>)
              \<lparr>X = 0, Y = 0\<rparr> [0..<unat NumPoints]
      in if NumPoints = 0 then None
         else Some \<lparr>X = c_round (real_of_int (c_div (X coordSum) (uint NumPoints))),
                    Y = c_round (real_of_int (c_div (Y coordSum) (uint NumPoints)))\<rparr>)"

section \<open>Coordinate and pattern files\<close>

text \<open>
  A file of integers separated by white space is the list of its integers, which is what
  \<open>fscanf\<close> with \<open>%d\<close> conversions reads from it; a file that cannot be opened is \<open>None\<close>, and
  the functions below then pass a null pointer to \<open>ftell\<close> or \<open>fscanf\<close>, which ends the
  program (the result \<open>None\<close>).

  \<open>scanPairs ts n xcoord ycoord\<close> gives the values of \<open>xcoord\<close> and \<open>ycoord\<close> after each of
  \<open>n\<close> calls of \<open>fscanf(fp, "%d\t%d\n", &xcoord, &ycoord)\<close>: a call that finds no integer
  leaves the variable as it was.
\<close>

fun scanPairs :: "int list \<Rightarrow> nat \<Rightarrow> int \<Rightarrow> int \<Rightarrow> (int \<times> int) list" where
  "scanPairs ts 0 xcoord ycoord = []"
| "scanPairs [] (Suc n) xcoord ycoord = (xcoord, ycoord) # scanPairs [] n xcoord ycoord"
| "scanPairs [a] (Suc n) xcoord ycoord = (a, ycoord) # scanPairs [] n a ycoord"
| "scanPairs (a # b # ts) (Suc n) xcoord ycoord = (a, b) # scanPairs ts n a b"

definition getCoords :: "int list option \<Rightarrow> u16 \<Rightarrow> Coord list option" where
  "getCoords CoordFile NumPoints =
     (case CoordFile of
        None \<Rightarrow> None
      | Some fp \<Rightarrow>
          Some (map (\<lambda>(xcoord, ycoord). \<lparr>X = xcoord, Y = ycoord\<rparr>)
                  (scanPairs fp (unat NumPoints) 0 0)))"

text \<open>
  \<open>getPattern\<close> calls \<open>fscanf(fp, "%d\n", &nPoints)\<close> once and then, in each of the
  \<open>NumPoints\<close> passes of its loop, \<open>fscanf(fp, "%d\t%d\n", &xcoord, &ycoord)\<close>.
  \<open>getPattern_reads fp n\<close> gives the values of \<open>xcoord\<close> and \<open>ycoord\<close> after the call of each
  of \<open>n\<close> passes; the loop stores at the index of the pass the coordinate it computes from
  them.
\<close>

definition getPattern_reads :: "int list \<Rightarrow> nat \<Rightarrow> (int \<times> int) list" where
  "getPattern_reads fp n = scanPairs (drop 1 fp) n 0 0"

definition getPattern :: "int list option \<Rightarrow> u16 \<Rightarrow> Coord \<Rightarrow> Coord \<Rightarrow> Coord list option" where
  "getPattern PatternFile NumPoints StartPos Spacing =
     (case PatternFile of
        None \<Rightarrow> None
      | Some fp \<Rightarrow>
          Some (map (\<lambda>(xcoord, ycoord).
                       \<lparr>X = X StartPos + (xcoord - 1) * X Spacing,
                        Y = Y StartPos - (ycoord - 1) * Y Spacing\<rparr>)
                  (getPattern_reads fp (unat NumPoints))))"

text \<open>
  \<open>getNumPoints\<close> reads three integers and returns the first; on a file without an integer
  it returns an uninitialised variable (\<open>None\<close>).
\<close>

definition getNumPoints :: "int list option \<Rightarrow> int option" where
  "getNumPoints PatternFile =
     (case PatternFile of
        None \<Rightarrow> None
      | Some fp \<Rightarrow> (case fp of [] \<Rightarrow> None | NumPoints # _ \<Rightarrow> Some NumPoints))"

section \<open>Scale factor\<close>

text \<open>
  \<open>calcScaling\<close> after its reading loop: \<open>pts ! n\<close> holds \<open>galvoXArr[n]\<close>, \<open>galvoYArr[n]\<close>,
  \<open>pixelXArr[n]\<close> and \<open>pixelYArr[n]\<close>. The state of the loop over the pairs is the array
  \<open>scaleArr\<close> and the counter \<open>N\<close>. A quotient with the divisor zero is an infinity or a
  NaN, as it is for doubles. The result is \<open>None\<close> where C leaves the run undefined: with
  fewer than two points \<open>Nmax\<close> is 0 and \<open>scaleArr[0]\<close> is read outside the array; from 32769
  points on \<open>Nmax\<close> overflows an \<open>int\<close>.
\<close>

type_synonym calPoint = "double \<times> double \<times> double \<times> double"

definition galvoX :: "calPoint \<Rightarrow> double" where "galvoX q = fst q"
definition galvoY :: "calPoint \<Rightarrow> double" where "galvoY q = fst (snd q)"
definition pixelX :: "calPoint \<Rightarrow> double" where "pixelX q = fst (snd (snd q))"
definition pixelY :: "calPoint \<Rightarrow> double" where "pixelY q = snd (snd (snd q))"

definition storeRatio ::
  "double \<Rightarrow> double \<Rightarrow> double \<Rightarrow> double \<Rightarrow> double list \<times> nat \<Rightarrow> double list \<times> nat" where
  "storeRatio g1 g2 p1 p2 st =
     (case st of
        (scaleArr, N) \<Rightarrow>
          if dne g1 g2
          then (scaleArr[N := ddiv (fabs (dsub g1 g2)) (fabs (dsub p1 p2))], N + 1)
          else (scaleArr, N))"

definition pairRatios :: "calPoint list \<Rightarrow> nat \<Rightarrow> double list \<times> nat \<Rightarrow> nat
    \<Rightarrow> double list \<times> nat" where
  "pairRatios pts i st j =
     (if i \<noteq> j then
        (let st = storeRatio (galvoX (pts ! i)) (galvoX (pts ! j))
                    (pixelX (pts ! i)) (pixelX (pts ! j)) st
         in storeRatio (galvoY (pts ! i)) (galvoY (pts ! j))
              (pixelY (pts ! i)) (pixelY (pts ! j)) st)
      else st)"

definition calcScaling :: "u16 \<Rightarrow> calPoint list \<Rightarrow> i64 option" where
  "calcScaling NumPoints pts =
     (let n = unat NumPoints;
          Nmax = 2 * n * (n - 1)
      in if Nmax = 0 \<or> 2 ^ 31 \<le> Nmax then None
         else
           (case foldl (\<lambda>st i. foldl (pairRatios pts i) st [i + 1..<n])
                   (replicate Nmax (Finite 0), 0) [0..<n] of
              (scaleArr, N) \<Rightarrow>
                (let scalefactor =
                       foldl (\<lambda>scalefactor k.
                                if dne (scaleArr ! k) (Finite 0)
                                then ddiv (dadd scalefactor (scaleArr ! k)) (Finite 2)
                                else scalefactor)
                         (scaleArr ! 0) [1..<Nmax]
                 in Some (to_int64 (dround scalefactor)))))"

section \<open>Time conversions\<close>

text \<open>
  The block of each generator that coerces the inter-stimulus interval and the episode
  period and converts milliseconds to cycles, with the four values it leaves in
  \<open>Baseline\<close>, \<open>TimeOn\<close>, \<open>ISI\<close> and \<open>EpisodePeriod\<close>.
\<close>

record Times =
  tBaseline :: u32
  tTimeOn :: u32
  tISI :: u32
  tEpisodePeriod :: u32

text \<open>\<open>buildSpot\<close>\<close>

definition spotTimes :: "u32 \<Rightarrow> u32 \<Rightarrow> u16 \<Rightarrow> u32 \<Rightarrow> u32 \<Rightarrow> Times" where
  "spotTimes Baseline TimeOn NumPulses ISI EpisodePeriod =
     (let ISI = (if ISI < TimeOn then TimeOn else ISI);
          EpisodePeriod =
            (if EpisodePeriod < Baseline + ucast NumPulses * ISI
             then Baseline + ucast NumPulses * ISI else EpisodePeriod);
          Baseline = Baseline * CYCLES_PER_MS;
          TimeOn = TimeOn * CYCLES_PER_MS;
          ISI = ISI * CYCLES_PER_MS;
          EpisodePeriod = EpisodePeriod * CYCLES_PER_MS
      in \<lparr>tBaseline = Baseline, tTimeOn = TimeOn, tISI = ISI, tEpisodePeriod = EpisodePeriod\<rparr>)"

text \<open>\<open>buildGrid\<close>, \<open>buildTarget\<close> and \<open>buildPattern\<close>\<close>

definition gridTimes :: "u32 \<Rightarrow> u32 \<Rightarrow> u16 \<Rightarrow> u32 \<Rightarrow> u32 \<Rightarrow> u32 \<Rightarrow> Times" where
  "gridTimes Baseline TimeOn NumPulses ISI Iterations EpisodePeriod =
     (let ISI = (if ISI < TimeOn then TimeOn else ISI);
          EpisodePeriod =
            (if EpisodePeriod < Baseline + ucast NumPulses * ISI
             then Baseline + ucast NumPulses * ISI else EpisodePeriod);
          Baseline = Baseline * CYCLES_PER_MS;
          TimeOn = TimeOn * CYCLES_PER_MS;
          ISI = ISI * CYCLES_PER_MS;
          EpisodePeriod = EpisodePeriod * CYCLES_PER_MS * Iterations
      in \<lparr>tBaseline = Baseline, tTimeOn = TimeOn, tISI = ISI, tEpisodePeriod = EpisodePeriod\<rparr>)"

text \<open>\<open>buildRapidGrid\<close>\<close>

definition rapidGridTimes :: "u32 \<Rightarrow> u32 \<Rightarrow> u32 \<Rightarrow> u32 \<Rightarrow> Coord \<Rightarrow> Times" where
  "rapidGridTimes Baseline TimeOn ISI EpisodePeriod Dims =
     (let ISI = (if ISI < TimeOn then TimeOn else ISI);
          EpisodePeriod =
            (if EpisodePeriod < Baseline + word_of_int (X Dims * Y Dims) * ISI
             then Baseline + word_of_int (X Dims * Y Dims) * ISI else EpisodePeriod);
          Baseline = Baseline * CYCLES_PER_MS;
          TimeOn = TimeOn * CYCLES_PER_MS;
          ISI = ISI * CYCLES_PER_MS;
          EpisodePeriod = EpisodePeriod * CYCLES_PER_MS
      in \<lparr>tBaseline = Baseline, tTimeOn = TimeOn, tISI = ISI, tEpisodePeriod = EpisodePeriod\<rparr>)"

text \<open>\<open>buildRapidTarget\<close>\<close>

definition rapidTargetTimes :: "u32 \<Rightarrow> u32 \<Rightarrow> u32 \<Rightarrow> u32 \<Rightarrow> u16 \<Rightarrow> Times" where
  "rapidTargetTimes Baseline TimeOn ISI EpisodePeriod NumPoints =
     (let ISI = (if ISI < TimeOn then TimeOn else ISI);
          EpisodePeriod =
            (if EpisodePeriod < Baseline + ucast NumPoints * ISI
             then Baseline + ucast NumPoints * ISI else EpisodePeriod);
          Baseline = Baseline * CYCLES_PER_MS;
          TimeOn = TimeOn * CYCLES_PER_MS;
          ISI = ISI * CYCLES_PER_MS;
          EpisodePeriod = EpisodePeriod * CYCLES_PER_MS
      in \<lparr>tBaseline = Baseline, tTimeOn = TimeOn, tISI = ISI, tEpisodePeriod = EpisodePeriod\<rparr>)"

section \<open>Protocol building functions\<close>

text \<open>
  Each generator is modelled by the protocol it hands to \<open>ProtToString\<close>. The generators
  ignore the return codes of the append functions; the model covers the runs in which
  every node is allocated. A generator that rotates has the C library \<open>lm\<close> of its \<open>cos\<close>
  and \<open>sin\<close> as its first argument.
\<close>

text \<open>The \<open>switch\<close> on the trigger that every generator has, at the cycle \<open>t\<close> it is given.\<close>

definition triggerSwitch :: "Trigger \<Rightarrow> u32 \<Rightarrow> ScanProt \<Rightarrow> ScanProt" where
  "triggerSwitch Trig t p =
     (case Trig of
        T_NONE \<Rightarrow> p
      | T_IN \<Rightarrow> snd (appendTrigIn True p t RISING)
      | T_OUT \<Rightarrow>
          (let p = snd (appendTrigOut True p t TH_DL)
           in snd (appendTrigOut True p (t + TRIG_LEN) TL_DL)))"

subsection \<open>Single spot\<close>

definition buildSpot_prot ::
  "u32 \<Rightarrow> u32 \<Rightarrow> u16 \<Rightarrow> u32 \<Rightarrow> u32 \<Rightarrow> u16 \<Rightarrow> Coord \<Rightarrow> i64 \<Rightarrow> Coord \<Rightarrow> Trigger \<Rightarrow> ScanProt" where
  "buildSpot_prot Baseline TimeOn NumPulses ISI EpisodePeriod Reps Pos ScaleFactor CenterOffset Trig =
     (let t = spotTimes Baseline TimeOn NumPulses ISI EpisodePeriod;
          Baseline = tBaseline t; TimeOn = tTimeOn t; ISI = tISI t;
          EpisodePeriod = tEpisodePeriod t;
          Time0 = 0;
          EndTime = Time0 + (EpisodePeriod * ucast Reps) + PROT_PERIOD;
          PulseStart = Time0 + Baseline;
          galvoCoord = convertCoord Pos ScaleFactor CenterOffset 0;
          p = createProtocol;
          p = snd (appendMove True p ch_X Time0 (gX galvoCoord));
          p = snd (appendMove True p ch_Y Time0 (gY galvoCoord));
          p = snd (appendLoop True p START Time0 (ucast Reps));
          p = triggerSwitch Trig Time0 p;
          p = (if NumPulses = 1 then
                 (let p = snd (appendTrigOut True p (Time0 + Baseline) TL_DH)
                  in snd (appendTrigOut True p (Time0 + Baseline + TimeOn) TL_DL))
               else
                 (let p = snd (appendLoop True p START PulseStart (ucast NumPulses));
                      p = snd (appendTrigOut True p PulseStart TL_DH);
                      p = snd (appendTrigOut True p (PulseStart + TimeOn) TL_DL)
                  in snd (appendLoop True p END (PulseStart + ISI) (ucast NumPulses))));
          p = snd (appendLoop True p END EndTime (ucast Reps))
      in p)"

subsection \<open>Grid\<close>

definition buildGrid_prot ::
  "libm \<Rightarrow> u32 \<Rightarrow> u32 \<Rightarrow> u16 \<Rightarrow> u32 \<Rightarrow> u32 \<Rightarrow> u32 \<Rightarrow> u16 \<Rightarrow> Coord \<Rightarrow> Coord \<Rightarrow> Coord \<Rightarrow> i64 \<Rightarrow> Coord
     \<Rightarrow> Trigger \<Rightarrow> double \<Rightarrow> ScanProt option" where
  "buildGrid_prot lm Baseline TimeOn NumPulses ISI Iterations EpisodePeriod Reps Dims StartPos Spacing
       ScaleFactor CenterOffset Trig RotAngle =
     (let t = gridTimes Baseline TimeOn NumPulses ISI Iterations EpisodePeriod;
          Baseline = tBaseline t; TimeOn = tTimeOn t; ISI = tISI t;
          EpisodePeriod = tEpisodePeriod t;
          Time0 = 0;
          EpisodeStart = Time0 + TIME_OFFSET;
          PulseStart = EpisodeStart + Baseline;
          XMoveTime = EpisodeStart + EpisodePeriod;
          YMoveTime = EpisodeStart + (word_of_int (X Dims) * EpisodePeriod);
          EndTime = EpisodeStart + word_of_int (X Dims * Y Dims) * EpisodePeriod + PROT_PERIOD;
          gridBounds1 = \<lparr>X = X StartPos + X Spacing * (X Dims - 1), Y = Y StartPos\<rparr>;
          gridBounds2 = \<lparr>X = X gridBounds1, Y = Y StartPos - Y Spacing * (Y Dims - 1)\<rparr>;
          gridBounds3 = \<lparr>X = X StartPos, Y = Y gridBounds2\<rparr>;
          gridBounds = [StartPos, gridBounds1, gridBounds2, gridBounds3]
      in case (if \<not> dne RotAngle (Finite 0) then Some StartPos
               else map_option
                      (\<lambda>gridCenter.
                         (let rStartPos = rotateCoord lm StartPos gridCenter RotAngle
                          in \<lparr>X = X rStartPos + X gridCenter, Y = Y rStartPos + Y gridCenter\<rparr>))
                      (getCentroid 4 gridBounds)) of
           None \<Rightarrow> None
         | Some rStartPos \<Rightarrow>
        (let gStartPos = convertCoord rStartPos ScaleFactor CenterOffset 0;
             gSpacing = \<lparr>gX = word_of_int (X Spacing) * ScaleFactor,
                         gY = word_of_int (Y Spacing) * ScaleFactor\<rparr>;
             deltaX1 = dmul (d_of_int (X Spacing)) (c_cos lm RotAngle);
             deltaX2 = dmul (d_of_int (Y Spacing)) (c_sin lm RotAngle);
             deltaY1 = dmul (d_of_int (X Spacing)) (c_sin lm RotAngle);
             deltaY2 = dmul (d_of_int (Y Spacing)) (c_cos lm RotAngle);
             gDeltaX1 = to_int64 (dmul (dround deltaX1) (d_of_int (sint ScaleFactor)));
             gDeltaX2 = to_int64 (dmul (dround deltaX2) (d_of_int (sint ScaleFactor)));
             gDeltaY1 = to_int64 (dmul (dround deltaY1) (d_of_int (sint ScaleFactor)));
             gDeltaY2 = to_int64 (dmul (dround deltaY2) (d_of_int (sint ScaleFactor)));
             p = createProtocol;
             p = snd (appendLoop True p START Time0 (ucast Reps));
             p = snd (appendMove True p ch_X Time0 (gX gStartPos));
             p = snd (appendMove True p ch_Y Time0 (gY gStartPos));
             p = snd (appendLoop True p START EpisodeStart (word_of_int (Y Dims)));
             p = snd (appendLoop True p START EpisodeStart (word_of_int (X Dims)));
             p = (if Iterations > 1
                  then snd (appendLoop True p START EpisodeStart (ucast Iterations)) else p);
             p = triggerSwitch Trig EpisodeStart p;
             p = (if NumPulses = 1 then
                    (let p = snd (appendTrigOut True p PulseStart TL_DH)
                     in snd (appendTrigOut True p (PulseStart + TimeOn) TL_DL))
                  else
                    (let p = snd (appendLoop True p START PulseStart (ucast NumPulses));
                         p = snd (appendTrigOut True p PulseStart TL_DH);
                         p = snd (appendTrigOut True p (PulseStart + TimeOn) TL_DL)
                     in snd (appendLoop True p END (PulseStart + ISI) (ucast NumPulses))));
             p = (if Iterations > 1
                  then snd (appendLoop True p END (EpisodeStart + EpisodePeriod) (ucast Iterations))
                  else p);
             p = (if \<not> dne RotAngle (Finite 0) then
                    (let p = snd (appendRel True p XMoveTime ch_X (-1 * gX gSpacing));
                         p = snd (appendLoop True p END XMoveTime (word_of_int (X Dims)));
                         p = snd (appendRel True p YMoveTime ch_Y (gY gSpacing));
                         p = snd (appendRel True p YMoveTime ch_X (gX gSpacing * word_of_int (X Dims)))
                     in snd (appendLoop True p END YMoveTime (word_of_int (Y Dims))))
                  else
                    (let p = snd (appendRel True p XMoveTime ch_X (-1 * gDeltaX1));
                         p = snd (appendRel True p XMoveTime ch_Y (-1 * gDeltaX2));
                         p = snd (appendLoop True p END XMoveTime (word_of_int (X Dims)));
                         p = snd (appendRel True p YMoveTime ch_X (-1 * gDeltaY1));
                         p = snd (appendRel True p YMoveTime ch_Y gDeltaY2);
                         p = snd (appendRel True p YMoveTime ch_X (gDeltaX1 * word_of_int (X Dims)));
                         p = snd (appendRel True p YMoveTime ch_Y (gDeltaX2 * word_of_int (X Dims)))
                     in snd (appendLoop True p END YMoveTime (word_of_int (Y Dims)))));
             p = snd (appendLoop True p END EndTime (ucast Reps))
         in Some p))"

subsection \<open>Target\<close>

text \<open>
  The rotation of the points about their centroid and their conversion to galvo
  coordinates, which \<open>buildTarget\<close>, \<open>buildRapidTarget\<close> and \<open>buildPattern\<close> do alike before
  they create the protocol.
\<close>

definition galvoCoords ::
  "libm \<Rightarrow> u16 \<Rightarrow> Coord list \<Rightarrow> i64 \<Rightarrow> Coord \<Rightarrow> double \<Rightarrow> gCoord list option" where
  "galvoCoords lm NumPoints pCoordArr ScaleFactor CenterOffset RotAngle =
     (case (if dne RotAngle (Finite 0)
            then map_option
                   (\<lambda>centroid. map (\<lambda>i. rotateCoord lm (pCoordArr ! i) centroid RotAngle)
                                 [0..<unat NumPoints])
                   (getCentroid NumPoints pCoordArr)
            else Some pCoordArr) of
        None \<Rightarrow> None
      | Some pCoordArr \<Rightarrow>
          Some (map (\<lambda>j. convertCoord (pCoordArr ! j) ScaleFactor CenterOffset 0)
                  [0..<unat NumPoints]))"

text \<open>
  The body of the loop over the points of \<open>buildTarget\<close> and of \<open>buildPattern\<close>, for the
  index \<open>k\<close>; the two loops are the same text.
\<close>

definition targetEpisode ::
  "Times \<Rightarrow> u16 \<Rightarrow> u32 \<Rightarrow> Trigger \<Rightarrow> gCoord list \<Rightarrow> ScanProt \<Rightarrow> nat \<Rightarrow> ScanProt" where
  "targetEpisode t NumPulses Iterations Trig gCoordArr p k =
     (let Baseline = tBaseline t; TimeOn = tTimeOn t; ISI = tISI t;
          EpisodePeriod = tEpisodePeriod t;
          EpisodeStart = 0 + TIME_OFFSET;
          NextEpisode = EpisodeStart + (of_nat k * EpisodePeriod);
          NextPulse = NextEpisode + Baseline;
          p = snd (appendMove True p ch_X NextEpisode (gX (gCoordArr ! k)));
          p = snd (appendMove True p ch_Y NextEpisode (gY (gCoordArr ! k)));
          p = (if Iterations > 1
               then snd (appendLoop True p START NextEpisode (ucast Iterations)) else p);
          p = triggerSwitch Trig NextEpisode p;
          p = (if NumPulses = 1 then
                 (let p = snd (appendTrigOut True p NextPulse TL_DH)
                  in snd (appendTrigOut True p (NextPulse + TimeOn) TL_DL))
               else
                 (let p = snd (appendLoop True p START NextPulse (ucast NumPulses));
                      p = snd (appendTrigOut True p NextPulse TL_DH);
                      p = snd (appendTrigOut True p (NextPulse + TimeOn) TL_DL)
                  in snd (appendLoop True p END (NextPulse + (ucast NumPulses * ISI))
                            (ucast NumPulses))));
          p = (if Iterations > 1
               then snd (appendLoop True p END (NextEpisode + EpisodePeriod) (ucast Iterations))
               else p)
      in p)"

definition buildTarget_prot ::
  "libm \<Rightarrow> int list option \<Rightarrow> u32 \<Rightarrow> u32 \<Rightarrow> u16 \<Rightarrow> u32 \<Rightarrow> u32 \<Rightarrow> u32 \<Rightarrow> u16 \<Rightarrow> u16 \<Rightarrow> i64
     \<Rightarrow> Coord \<Rightarrow> Trigger \<Rightarrow> double \<Rightarrow> ScanProt option" where
  "buildTarget_prot lm TargetFile Baseline TimeOn NumPulses ISI Iterations EpisodePeriod Reps NumPoints
       ScaleFactor CenterOffset Trig RotAngle =
     (let t = gridTimes Baseline TimeOn NumPulses ISI Iterations EpisodePeriod;
          EpisodePeriod = tEpisodePeriod t;
          Time0 = 0;
          EndTime = EpisodePeriod * ucast NumPoints
      in case getCoords TargetFile NumPoints of
           None \<Rightarrow> None
         | Some pCoordArr \<Rightarrow>
        (case galvoCoords lm NumPoints pCoordArr ScaleFactor CenterOffset RotAngle of
           None \<Rightarrow> None
         | Some gCoordArr \<Rightarrow>
        (let p = createProtocol;
             p = snd (appendLoop True p START Time0 (ucast Reps));
             p = foldl (targetEpisode t NumPulses Iterations Trig gCoordArr) p [0..<unat NumPoints];
             p = snd (appendLoop True p END EndTime (ucast Reps))
         in Some p)))"

subsection \<open>Rapid grid\<close>

definition buildRapidGrid_prot ::
  "u32 \<Rightarrow> u32 \<Rightarrow> u32 \<Rightarrow> u32 \<Rightarrow> u16 \<Rightarrow> Coord \<Rightarrow> Coord \<Rightarrow> Coord \<Rightarrow> i64 \<Rightarrow> Coord \<Rightarrow> Trigger \<Rightarrow> double
     \<Rightarrow> ScanProt" where
  "buildRapidGrid_prot Baseline TimeOn ISI EpisodePeriod Reps Dims StartPos Spacing ScaleFactor
       CenterOffset Trig RotAngle =
     (let t = rapidGridTimes Baseline TimeOn ISI EpisodePeriod Dims;
          Baseline = tBaseline t; TimeOn = tTimeOn t; ISI = tISI t;
          EpisodePeriod = tEpisodePeriod t;
          Time0 = 0;
          EpisodeStart = Time0 + TIME_OFFSET;
          PulseStart = EpisodeStart + Baseline;
          XMoveTime = EpisodeStart + ISI;
          YMoveTime = EpisodeStart + (word_of_int (X Dims) * ISI);
          EndTime = EpisodeStart + EpisodePeriod + PROT_PERIOD;
          gStartPos = convertCoord StartPos ScaleFactor CenterOffset 0;
          gSpacing = \<lparr>gX = word_of_int (-1 * X Spacing) * ScaleFactor,
                      gY = word_of_int (-1 * Y Spacing) * ScaleFactor\<rparr>;
          p = createProtocol;
          p = snd (appendLoop True p START Time0 (ucast Reps));
          p = snd (appendMove True p ch_X Time0 (gX gStartPos));
          p = snd (appendMove True p ch_Y Time0 (gY gStartPos));
          p = triggerSwitch Trig EpisodeStart p;
          p = snd (appendLoop True p START EpisodeStart (word_of_int (Y Dims)));
          p = snd (appendLoop True p START EpisodeStart (word_of_int (X Dims)));
          p = snd (appendTrigOut True p PulseStart TL_DH);
          p = snd (appendTrigOut True p (PulseStart + TimeOn) TL_DL);
          p = snd (appendRel True p XMoveTime ch_X (-1 * gX gSpacing));
          p = snd (appendLoop True p END XMoveTime (word_of_int (X Dims)));
          p = snd (appendRel True p YMoveTime ch_Y (gY gSpacing));
          p = snd (appendRel True p YMoveTime ch_X (gX gSpacing * word_of_int (X Dims)));
          p = snd (appendLoop True p END YMoveTime (word_of_int (Y Dims)));
          p = snd (appendLoop True p END EndTime (ucast Reps))
      in p)"

subsection \<open>Rapid target\<close>

definition rapidTargetPulse :: "Times \<Rightarrow> gCoord list \<Rightarrow> ScanProt \<Rightarrow> nat \<Rightarrow> ScanProt" where
  "rapidTargetPulse t gCoordArr p m =
     (let Baseline = tBaseline t; TimeOn = tTimeOn t; ISI = tISI t;
          EpisodeStart = 0 + TIME_OFFSET;
          PulseStart = EpisodeStart + Baseline;
          NextPulse = PulseStart + of_nat m * ISI;
          p = snd (appendMove True p ch_X NextPulse (gX (gCoordArr ! m)));
          p = snd (appendMove True p ch_Y NextPulse (gY (gCoordArr ! m)));
          p = snd (appendTrigOut True p NextPulse TL_DH);
          p = snd (appendTrigOut True p (NextPulse + TimeOn) TL_DL)
      in p)"

definition buildRapidTarget_prot ::
  "libm \<Rightarrow> int list option \<Rightarrow> u32 \<Rightarrow> u32 \<Rightarrow> u32 \<Rightarrow> u32 \<Rightarrow> u16 \<Rightarrow> u16 \<Rightarrow> i64 \<Rightarrow> Coord \<Rightarrow> Trigger
     \<Rightarrow> double \<Rightarrow> ScanProt option" where
  "buildRapidTarget_prot lm TargetFile Baseline TimeOn ISI EpisodePeriod Reps NumPoints ScaleFactor
       CenterOffset Trig RotAngle =
     (let t = rapidTargetTimes Baseline TimeOn ISI EpisodePeriod NumPoints;
          EpisodePeriod = tEpisodePeriod t;
          Time0 = 0;
          EpisodeStart = Time0 + TIME_OFFSET;
          EndTime = EpisodePeriod
      in case getCoords TargetFile NumPoints of
           None \<Rightarrow> None
         | Some pCoordArr \<Rightarrow>
        (case galvoCoords lm NumPoints pCoordArr ScaleFactor CenterOffset RotAngle of
           None \<Rightarrow> None
         | Some gCoordArr \<Rightarrow>
        (let p = createProtocol;
             p = snd (appendLoop True p START Time0 (ucast Reps));
             p = triggerSwitch Trig EpisodeStart p;
             p = foldl (rapidTargetPulse t gCoordArr) p [0..<unat NumPoints];
             p = snd (appendLoop True p END EndTime (ucast Reps))
         in Some p)))"

subsection \<open>Pattern\<close>

definition buildPattern_prot ::
  "libm \<Rightarrow> int list option \<Rightarrow> u32 \<Rightarrow> u32 \<Rightarrow> u16 \<Rightarrow> u32 \<Rightarrow> u32 \<Rightarrow> u32 \<Rightarrow> u16 \<Rightarrow> Coord \<Rightarrow> Coord \<Rightarrow> i64
     \<Rightarrow> Coord \<Rightarrow> Trigger \<Rightarrow> double \<Rightarrow> ScanProt option" where
  "buildPattern_prot lm PatternFile Baseline TimeOn NumPulses ISI Iterations EpisodePeriod Reps StartPos
       Spacing ScaleFactor CenterOffset Trig RotAngle =
     (case getNumPoints PatternFile of
        None \<Rightarrow> None
      | Some n \<Rightarrow>
     (let NumPoints = (word_of_int n :: u16);
          t = gridTimes Baseline TimeOn NumPulses ISI Iterations EpisodePeriod;
          EpisodePeriod = tEpisodePeriod t;
          Time0 = 0;
          EndTime = EpisodePeriod * ucast NumPoints
      in case getPattern PatternFile NumPoints StartPos Spacing of
           None \<Rightarrow> None
         | Some pCoordArr \<Rightarrow>
        (case galvoCoords lm NumPoints pCoordArr ScaleFactor CenterOffset RotAngle of
           None \<Rightarrow> None
         | Some gCoordArr \<Rightarrow>
        (let p = createProtocol;
             p = snd (appendLoop True p START Time0 (ucast Reps));
             p = foldl (targetEpisode t NumPulses Iterations Trig gCoordArr) p [0..<unat NumPoints];
             p = snd (appendLoop True p END EndTime (ucast Reps))
         in Some p))))"

section \<open>Serializer\<close>

text \<open>
  \<open>sprintf\<close> with \<open>FORMAT\<close>, which is \<open>"%c%c,%u,%i,%lld\n"\<close> for the widths of the fields.
  \<open>dec\<close> prints an unsigned and \<open>sdec\<close> a signed integer in decimal.
\<close>

definition digit :: "nat \<Rightarrow> char" where
  "digit d = ''0123456789'' ! d"

fun dec :: "nat \<Rightarrow> string" where
  "dec n = (if n < 10 then [digit n] else dec (n div 10) @ [digit (n mod 10)])"

declare dec.simps [simp del]

definition sdec :: "int \<Rightarrow> string" where
  "sdec i = (if i < 0 then CHR ''-'' # dec (nat (- i)) else dec (nat i))"

definition sprintf_FORMAT :: "CmdLine \<Rightarrow> string" where
  "sprintf_FORMAT c =
     [DSPCmd c, ScanCmd c] @ '','' @ dec (unat (Cycle c)) @ '','' @ sdec (Channel c) @ '',''
       @ sdec (sint (Value c)) @ [CHR 0x0A]"

text \<open>
  A buffer holds a C string: the characters before the first NUL. \<open>strcat\<close> appends the
  string of its second buffer to the string of the first.
\<close>

definition c_str :: "string \<Rightarrow> string" where
  "c_str buf = takeWhile (\<lambda>ch. ch \<noteq> NUL) buf"

definition strcat :: "string \<Rightarrow> string \<Rightarrow> string" where
  "strcat dst src = c_str dst @ c_str src"

text \<open>
  \<open>ProtToString\<close> returns \<open>NULL\<close> (\<open>None\<close>) when an allocation fails; the first argument says
  whether its allocations succeed.
\<close>

definition ProtToString :: "bool \<Rightarrow> ScanProt \<Rightarrow> string option" where
  "ProtToString alloc protocol =
     (if \<not> alloc then None
      else
        (let StrProtocol = [CHR ''C'', CHR 0x0A];
             StrProtocol =
               foldl (\<lambda>StrProtocol pLoop. strcat StrProtocol (sprintf_FORMAT pLoop))
                 StrProtocol protocol
         in Some (c_str StrProtocol)))"

text \<open>
  The exported generators return the rendered protocol; \<open>None\<close> stands for a run that ends
  before the string is returned.
\<close>

definition buildSpot ::
  "u32 \<Rightarrow> u32 \<Rightarrow> u16 \<Rightarrow> u32 \<Rightarrow> u32 \<Rightarrow> u16 \<Rightarrow> Coord \<Rightarrow> i64 \<Rightarrow> Coord \<Rightarrow> Trigger \<Rightarrow> string option" where
  "buildSpot Baseline TimeOn NumPulses ISI EpisodePeriod Reps Pos ScaleFactor CenterOffset Trig =
     ProtToString True
       (buildSpot_prot Baseline TimeOn NumPulses ISI EpisodePeriod Reps Pos ScaleFactor
          CenterOffset Trig)"

definition buildGrid ::
  "libm \<Rightarrow> u32 \<Rightarrow> u32 \<Rightarrow> u16 \<Rightarrow> u32 \<Rightarrow> u32 \<Rightarrow> u32 \<Rightarrow> u16 \<Rightarrow> Coord \<Rightarrow> Coord \<Rightarrow> Coord \<Rightarrow> i64 \<Rightarrow> Coord
     \<Rightarrow> Trigger \<Rightarrow> double \<Rightarrow> string option" where
  "buildGrid lm Baseline TimeOn NumPulses ISI Iterations EpisodePeriod Reps Dims StartPos Spacing
       ScaleFactor CenterOffset Trig RotAngle =
     Option.bind
       (buildGrid_prot lm Baseline TimeOn NumPulses ISI Iterations EpisodePeriod Reps Dims StartPos
          Spacing ScaleFactor CenterOffset Trig RotAngle)
       (ProtToString True)"

definition buildTarget ::
  "libm \<Rightarrow> int list option \<Rightarrow> u32 \<Rightarrow> u32 \<Rightarrow> u16 \<Rightarrow> u32 \<Rightarrow> u32 \<Rightarrow> u32 \<Rightarrow> u16 \<Rightarrow> u16 \<Rightarrow> i64
     \<Rightarrow> Coord \<Rightarrow> Trigger \<Rightarrow> double \<Rightarrow> string option" where
  "buildTarget lm TargetFile Baseline TimeOn NumPulses ISI Iterations EpisodePeriod Reps NumPoints
       ScaleFactor CenterOffset Trig RotAngle =
     Option.bind
       (buildTarget_prot lm TargetFile Baseline TimeOn NumPulses ISI Iterations EpisodePeriod Reps
          NumPoints ScaleFactor CenterOffset Trig RotAngle)
       (ProtToString True)"

definition buildRapidGrid ::
  "u32 \<Rightarrow> u32 \<Rightarrow> u32 \<Rightarrow> u32 \<Rightarrow> u16 \<Rightarrow> Coord \<Rightarrow> Coord \<Rightarrow> Coord \<Rightarrow> i64 \<Rightarrow> Coord \<Rightarrow> Trigger \<Rightarrow> double
     \<Rightarrow> string option" where
  "buildRapidGrid Baseline TimeOn ISI EpisodePeriod Reps Dims StartPos Spacing ScaleFactor
       CenterOffset Trig RotAngle =
     ProtToString True
       (buildRapidGrid_prot Baseline TimeOn ISI EpisodePeriod Reps Dims StartPos Spacing
          ScaleFactor CenterOffset Trig RotAngle)"

definition buildRapidTarget ::
  "libm \<Rightarrow> int list option \<Rightarrow> u32 \<Rightarrow> u32 \<Rightarrow> u32 \<Rightarrow> u32 \<Rightarrow> u16 \<Rightarrow> u16 \<Rightarrow> i64 \<Rightarrow> Coord \<Rightarrow> Trigger
     \<Rightarrow> double \<Rightarrow> string option" where
  "buildRapidTarget lm TargetFile Baseline TimeOn ISI EpisodePeriod Reps NumPoints ScaleFactor
       CenterOffset Trig RotAngle =
     Option.bind
       (buildRapidTarget_prot lm TargetFile Baseline TimeOn ISI EpisodePeriod Reps NumPoints
          ScaleFactor CenterOffset Trig RotAngle)
       (ProtToString True)"

definition buildPattern ::
  "libm \<Rightarrow> int list option \<Rightarrow> u32 \<Rightarrow> u32 \<Rightarrow> u16 \<Rightarrow> u32 \<Rightarrow> u32 \<Rightarrow> u32 \<Rightarrow> u16 \<Rightarrow> Coord \<Rightarrow> Coord \<Rightarrow> i64
     \<Rightarrow> Coord \<Rightarrow> Trigger \<Rightarrow> double \<Rightarrow> string option" where
  "buildPattern lm PatternFile Baseline TimeOn NumPulses ISI Iterations EpisodePeriod Reps StartPos
       Spacing ScaleFactor CenterOffset Trig RotAngle =
     Option.bind
       (buildPattern_prot lm PatternFile Baseline TimeOn NumPulses ISI Iterations EpisodePeriod Reps
          StartPos Spacing ScaleFactor CenterOffset Trig RotAngle)
       (ProtToString True)"

section \<open>Commands as the append functions build them\<close>

definition mkMove :: "int \<Rightarrow> u32 \<Rightarrow> i64 \<Rightarrow> CmdLine" where
  "mkMove channel cycle position =
     \<lparr>DSPCmd = CHR ''A'', ScanCmd = CHR ''V'', Cycle = cycle, Channel = channel, Value = position\<rparr>"

definition mkRel :: "u32 \<Rightarrow> int \<Rightarrow> i64 \<Rightarrow> CmdLine" where
  "mkRel cycle channel deltaValue =
     \<lparr>DSPCmd = CHR ''A'', ScanCmd = CHR ''R'', Cycle = cycle, Channel = channel, Value = deltaValue\<rparr>"

definition mkLoop :: "char \<Rightarrow> u32 \<Rightarrow> i64 \<Rightarrow> CmdLine" where
  "mkLoop se cycle repetitions =
     \<lparr>DSPCmd = CHR ''A'', ScanCmd = se, Cycle = cycle, Channel = 9, Value = repetitions\<rparr>"

definition mkTrigOut :: "u32 \<Rightarrow> int \<Rightarrow> CmdLine" where
  "mkTrigOut cycle trigger =
     \<lparr>DSPCmd = CHR ''A'', ScanCmd = CHR ''V'', Cycle = cycle, Channel = 7, Value = word_of_int trigger\<rparr>"

definition mkTrigIn :: "u32 \<Rightarrow> char \<Rightarrow> CmdLine" where
  "mkTrigIn cycle ud =
     \<lparr>DSPCmd = CHR ''A'', ScanCmd = ud, Cycle = cycle, Channel = 7, Value = 0\<rparr>"

definition trigCmds :: "Trigger \<Rightarrow> u32 \<Rightarrow> CmdLine list" where
  "trigCmds Trig t =
     (case Trig of
        T_NONE \<Rightarrow> []
      | T_IN \<Rightarrow> [mkTrigIn t (CHR ''U'')]
      | T_OUT \<Rightarrow> [mkTrigOut t 2, mkTrigOut (t + 10) 0])"

section \<open>Properties of protocols\<close>

text \<open>
  A trigger-bearing command waits for a trigger input (scan characters U and D) or sets the
  digital outputs of channel 7 (scan character V on the trigger channel).
\<close>

definition trigBearing :: "CmdLine \<Rightarrow> bool" where
  "trigBearing c \<longleftrightarrow>
     Channel c = TRIG \<and> (ScanCmd c = CHR ''U'' \<or> ScanCmd c = CHR ''D'' \<or> ScanCmd c = CHR ''V'')"

text \<open>
  The characters of a command are valid when neither is NUL, the end of a C string.
\<close>

definition validChars :: "CmdLine \<Rightarrow> bool" where
  "validChars c \<longleftrightarrow> DSPCmd c \<noteq> NUL \<and> ScanCmd c \<noteq> NUL"

text \<open>
  The loops of a protocol, read from its first command to its last: a start command (scan
  character S) opens a loop and an end command (scan character E) closes the loop opened
  last. \<open>loopScan\<close> takes the start commands still open and returns those left open at the
  end with the pairs of start and end command, in the order of the end commands; an end
  command with no open start gives \<open>None\<close>. \<open>loopPairs\<close> is defined when every start has
  its end and every end its start.
\<close>

fun loopScan ::
  "CmdLine list \<Rightarrow> CmdLine list \<Rightarrow> (CmdLine list \<times> (CmdLine \<times> CmdLine) list) option" where
  "loopScan stk [] = Some (stk, [])"
| "loopScan stk (c # cs) =
     (if ScanCmd c = START then loopScan (c # stk) cs
      else if ScanCmd c = END then
        (case stk of
           [] \<Rightarrow> None
         | s # stk' \<Rightarrow> map_option (\<lambda>(r, ps). (r, (s, c) # ps)) (loopScan stk' cs))
      else loopScan stk cs)"

definition loopPairs :: "ScanProt \<Rightarrow> (CmdLine \<times> CmdLine) list option" where
  "loopPairs p = (case loopScan [] p of Some ([], ps) \<Rightarrow> Some ps | _ \<Rightarrow> None)"

text \<open>
  The loops of a protocol are matched when the scan pairs every loop command and there
  are as many start as end commands.
\<close>

definition loopsMatched :: "ScanProt \<Rightarrow> bool" where
  "loopsMatched p \<longleftrightarrow>
     loopPairs p \<noteq> None
     \<and> length (filter (\<lambda>c. ScanCmd c = START) p) = length (filter (\<lambda>c. ScanCmd c = END) p)"

text \<open>
  \<open>in_int k\<close>: the integer \<open>k\<close> is a value of the C type \<open>int\<close>. \<open>patternInRange\<close>: the
  start position, the spacing, the grid indices and every difference, product and sum of
  the pass of \<open>getPattern\<close> that computes a coordinate from them are values of \<open>int\<close>, so that
  the pass does not overflow.
\<close>

definition INT_MAX :: int where "INT_MAX = 2 ^ 31 - 1"

definition in_int :: "int \<Rightarrow> bool" where
  "in_int k = (INT_MIN \<le> k \<and> k \<le> INT_MAX)"

definition patternInRange :: "Coord \<Rightarrow> Coord \<Rightarrow> int \<times> int \<Rightarrow> bool" where
  "patternInRange StartPos Spacing = (\<lambda>(xcoord, ycoord).
       in_int (X StartPos) \<and> in_int (Y StartPos) \<and> in_int (X Spacing) \<and> in_int (Y Spacing)
     \<and> in_int xcoord \<and> in_int ycoord \<and> in_int (xcoord - 1) \<and> in_int (ycoord - 1)
     \<and> in_int ((xcoord - 1) * X Spacing) \<and> in_int ((ycoord - 1) * Y Spacing)
     \<and> in_int (X StartPos + (xcoord - 1) * X Spacing)
     \<and> in_int (Y StartPos - (ycoord - 1) * Y Spacing))"

text \<open>
  The algorithm of \<open>calcScaling\<close> as the specification words it, for comparison with the
  code: the ratio of every pair of points whose pixel coordinates differ on the axis, and
  a running average seeded with the first ratio into which every later non-zero ratio is
  averaged. The pairs are taken in the order of the loops of the code and the arithmetic
  is that of doubles.
\<close>

definition indexPairs :: "nat \<Rightarrow> (nat \<times> nat) list" where
  "indexPairs n = concat (map (\<lambda>i. map (Pair i) [i + 1..<n]) [0..<n])"

definition runningAverage :: "double list \<Rightarrow> double" where
  "runningAverage rs =
     (case rs of
        [] \<Rightarrow> Finite 0
      | r # rs \<Rightarrow>
          foldl (\<lambda>s x. if dne x (Finite 0) then ddiv (dadd s x) (Finite 2) else s) r rs)"

definition specRatios :: "calPoint list \<Rightarrow> double list" where
  "specRatios pts =
     concat (map (\<lambda>(i, j).
        (if dne (pixelX (pts ! i)) (pixelX (pts ! j))
         then [ddiv (fabs (dsub (galvoX (pts ! i)) (galvoX (pts ! j))))
                 (fabs (dsub (pixelX (pts ! i)) (pixelX (pts ! j))))]
         else []) @
        (if dne (pixelY (pts ! i)) (pixelY (pts ! j))
         then [ddiv (fabs (dsub (galvoY (pts ! i)) (galvoY (pts ! j))))
                 (fabs (dsub (pixelY (pts ! i)) (pixelY (pts ! j))))]
         else []))
       (indexPairs (length pts)))"

definition calcScaling_spec :: "calPoint list \<Rightarrow> i64" where
  "calcScaling_spec pts = to_int64 (dround (runningAverage (specRatios pts)))"

text \<open>
  The ratios that \<open>calcScaling\<close> stores for the pair of points \<open>i\<close> and \<open>j\<close>, and for all
  pairs in the order of its loops.
\<close>

definition pairRatioList :: "calPoint list \<Rightarrow> nat \<times> nat \<Rightarrow> double list" where
  "pairRatioList pts = (\<lambda>(i, j).
        (if dne (galvoX (pts ! i)) (galvoX (pts ! j))
         then [ddiv (fabs (dsub (galvoX (pts ! i)) (galvoX (pts ! j))))
                 (fabs (dsub (pixelX (pts ! i)) (pixelX (pts ! j))))]
         else []) @
        (if dne (galvoY (pts ! i)) (galvoY (pts ! j))
         then [ddiv (fabs (dsub (galvoY (pts ! i)) (galvoY (pts ! j))))
                 (fabs (dsub (pixelY (pts ! i)) (pixelY (pts ! j))))]
         else []))"

definition galvoRatios :: "calPoint list \<Rightarrow> double list" where
  "galvoRatios pts = concat (map (pairRatioList pts) (indexPairs (length pts)))"

text \<open>
  A pair of points is not degenerate when the two points, where they differ in a galvo
  coordinate, differ in the pixel coordinate of the same axis: \<open>calcScaling\<close> then does not
  divide by zero. \<open>padded rs M\<close> is the array \<open>scaleArr\<close> of \<open>M\<close> entries that holds the ratios
  \<open>rs\<close> in front of its zeros.
\<close>

definition nondegenerate :: "calPoint list \<Rightarrow> nat \<times> nat \<Rightarrow> bool" where
  "nondegenerate pts = (\<lambda>(i, j).
     (dne (galvoX (pts ! i)) (galvoX (pts ! j)) \<longrightarrow> dne (pixelX (pts ! i)) (pixelX (pts ! j)))
   \<and> (dne (galvoY (pts ! i)) (galvoY (pts ! j)) \<longrightarrow> dne (pixelY (pts ! i)) (pixelY (pts ! j))))"

definition padded :: "double list \<Rightarrow> nat \<Rightarrow> double list" where
  "padded rs M = rs @ replicate (M - length rs) (Finite 0)"

section \<open>The commands of each generator\<close>

text \<open>
  The lists of commands that the generators append, and the pairs of loop commands in
  them; the facts below show that the generators build these lists.
\<close>

definition pulseCmds :: "u16 \<Rightarrow> u32 \<Rightarrow> u32 \<Rightarrow> u32 \<Rightarrow> CmdLine list" where
  "pulseCmds NumPulses PulseStart TimeOn loopEnd =
     (if NumPulses = 1 then [mkTrigOut PulseStart 4, mkTrigOut (PulseStart + TimeOn) 0]
      else [mkLoop (CHR ''S'') PulseStart (ucast NumPulses), mkTrigOut PulseStart 4,
            mkTrigOut (PulseStart + TimeOn) 0, mkLoop (CHR ''E'') loopEnd (ucast NumPulses)])"

definition targetCmds ::
  "Times \<Rightarrow> u16 \<Rightarrow> u32 \<Rightarrow> Trigger \<Rightarrow> gCoord list \<Rightarrow> nat \<Rightarrow> CmdLine list" where
  "targetCmds t NumPulses Iterations Trig gCoordArr k =
     (let NextEpisode = 10 + of_nat k * tEpisodePeriod t;
          NextPulse = NextEpisode + tBaseline t
      in [mkMove 4 NextEpisode (gX (gCoordArr ! k)), mkMove 3 NextEpisode (gY (gCoordArr ! k))]
         @ (if Iterations > 1 then [mkLoop (CHR ''S'') NextEpisode (ucast Iterations)] else [])
         @ trigCmds Trig NextEpisode
         @ pulseCmds NumPulses NextPulse (tTimeOn t) (NextPulse + ucast NumPulses * tISI t)
         @ (if Iterations > 1
            then [mkLoop (CHR ''E'') (NextEpisode + tEpisodePeriod t) (ucast Iterations)] else []))"

definition targetPairs :: "Times \<Rightarrow> u16 \<Rightarrow> u32 \<Rightarrow> nat \<Rightarrow> (CmdLine \<times> CmdLine) list" where
  "targetPairs t NumPulses Iterations k =
     (let NextEpisode = 10 + of_nat k * tEpisodePeriod t;
          NextPulse = NextEpisode + tBaseline t
      in (if NumPulses = 1 then []
          else [(mkLoop (CHR ''S'') NextPulse (ucast NumPulses),
                 mkLoop (CHR ''E'') (NextPulse + ucast NumPulses * tISI t) (ucast NumPulses))])
         @ (if Iterations > 1
            then [(mkLoop (CHR ''S'') NextEpisode (ucast Iterations),
                   mkLoop (CHR ''E'') (NextEpisode + tEpisodePeriod t) (ucast Iterations))]
            else []))"

definition rapidTargetCmds :: "Times \<Rightarrow> gCoord list \<Rightarrow> nat \<Rightarrow> CmdLine list" where
  "rapidTargetCmds t gCoordArr m =
     (let NextPulse = 10 + tBaseline t + of_nat m * tISI t
      in [mkMove 4 NextPulse (gX (gCoordArr ! m)), mkMove 3 NextPulse (gY (gCoordArr ! m)),
          mkTrigOut NextPulse 4, mkTrigOut (NextPulse + tTimeOn t) 0])"

text \<open>
  The commands of \<open>buildGrid\<close> after the pulses; \<open>v\<close> holds the values of the relative
  moves, three without rotation and six with it.
\<close>

definition gridTail :: "Times \<Rightarrow> Coord \<Rightarrow> i64 list \<Rightarrow> CmdLine list" where
  "gridTail t Dims v =
     (let XMoveTime = 10 + tEpisodePeriod t;
          YMoveTime = 10 + word_of_int (X Dims) * tEpisodePeriod t
      in if length v = 3 then
           [mkRel XMoveTime 4 (v ! 0),
            mkLoop (CHR ''E'') XMoveTime (word_of_int (X Dims)),
            mkRel YMoveTime 3 (v ! 1),
            mkRel YMoveTime 4 (v ! 2),
            mkLoop (CHR ''E'') YMoveTime (word_of_int (Y Dims))]
         else
           [mkRel XMoveTime 4 (v ! 0),
            mkRel XMoveTime 3 (v ! 1),
            mkLoop (CHR ''E'') XMoveTime (word_of_int (X Dims)),
            mkRel YMoveTime 4 (v ! 2),
            mkRel YMoveTime 3 (v ! 3),
            mkRel YMoveTime 4 (v ! 4),
            mkRel YMoveTime 3 (v ! 5),
            mkLoop (CHR ''E'') YMoveTime (word_of_int (Y Dims))])"

definition gridShape ::
  "Times \<Rightarrow> u16 \<Rightarrow> u32 \<Rightarrow> u16 \<Rightarrow> Coord \<Rightarrow> Trigger \<Rightarrow> gCoord \<Rightarrow> i64 list \<Rightarrow> CmdLine list" where
  "gridShape t NumPulses Iterations Reps Dims Trig g v =
     [mkLoop (CHR ''S'') 0 (ucast Reps), mkMove 4 0 (gX g), mkMove 3 0 (gY g),
      mkLoop (CHR ''S'') 10 (word_of_int (Y Dims)),
      mkLoop (CHR ''S'') 10 (word_of_int (X Dims))]
     @ (if Iterations > 1 then [mkLoop (CHR ''S'') 10 (ucast Iterations)] else [])
     @ trigCmds Trig 10
     @ pulseCmds NumPulses (10 + tBaseline t) (tTimeOn t) (10 + tBaseline t + tISI t)
     @ (if Iterations > 1
        then [mkLoop (CHR ''E'') (10 + tEpisodePeriod t) (ucast Iterations)] else [])
     @ gridTail t Dims v
     @ [mkLoop (CHR ''E'') (10 + word_of_int (X Dims * Y Dims) * tEpisodePeriod t + 50)
          (ucast Reps)]"

definition gridPairs ::
  "Times \<Rightarrow> u16 \<Rightarrow> u32 \<Rightarrow> u16 \<Rightarrow> Coord \<Rightarrow> (CmdLine \<times> CmdLine) list" where
  "gridPairs t NumPulses Iterations Reps Dims =
     (if NumPulses = 1 then []
      else [(mkLoop (CHR ''S'') (10 + tBaseline t) (ucast NumPulses),
             mkLoop (CHR ''E'') (10 + tBaseline t + tISI t) (ucast NumPulses))])
     @ (if Iterations > 1
        then [(mkLoop (CHR ''S'') 10 (ucast Iterations),
               mkLoop (CHR ''E'') (10 + tEpisodePeriod t) (ucast Iterations))]
        else [])
     @ [(mkLoop (CHR ''S'') 10 (word_of_int (X Dims)),
         mkLoop (CHR ''E'') (10 + tEpisodePeriod t) (word_of_int (X Dims))),
        (mkLoop (CHR ''S'') 10 (word_of_int (Y Dims)),
         mkLoop (CHR ''E'') (10 + word_of_int (X Dims) * tEpisodePeriod t) (word_of_int (Y Dims))),
        (mkLoop (CHR ''S'') 0 (ucast Reps),
         mkLoop (CHR ''E'') (10 + word_of_int (X Dims * Y Dims) * tEpisodePeriod t + 50)
           (ucast Reps))]"

section \<open>Basic facts\<close>

lemma appendMove_True: "snd (appendMove True p ch cy v) = p @ [mkMove ch cy v]"
  by (simp add: appendMove_def reassignPointers_def calloc_CmdLine_def mkMove_def)

lemma appendRel_True: "snd (appendRel True p cy ch v) = p @ [mkRel cy ch v]"
  by (simp add: appendRel_def reassignPointers_def calloc_CmdLine_def mkRel_def)

lemma appendTrigOut_True: "snd (appendTrigOut True p cy tr) = p @ [mkTrigOut cy tr]"
  by (simp add: appendTrigOut_def reassignPointers_def calloc_CmdLine_def mkTrigOut_def TRIG_def)

lemma appendTrigIn_RISING: "snd (appendTrigIn True p cy RISING) = p @ [mkTrigIn cy (CHR ''U'')]"
  by (simp add: appendTrigIn_def reassignPointers_def calloc_CmdLine_def mkTrigIn_def TRIG_def
      RISING_def Let_def)

lemma appendLoop_START: "snd (appendLoop True p START cy n) = p @ [mkLoop (CHR ''S'') cy n]"
  by (simp add: appendLoop_def reassignPointers_def calloc_CmdLine_def mkLoop_def LOOP_def
      START_def Let_def)

lemma appendLoop_END: "snd (appendLoop True p END cy n) = p @ [mkLoop (CHR ''E'') cy n]"
  by (simp add: appendLoop_def reassignPointers_def calloc_CmdLine_def mkLoop_def LOOP_def
      END_def Let_def)

lemmas append_simps =
  appendMove_True appendRel_True appendTrigOut_True appendTrigIn_RISING appendLoop_START
  appendLoop_END

lemma triggerSwitch_eq: "triggerSwitch Trig t p = p @ trigCmds Trig t"
  by (cases Trig)
    (simp_all add: triggerSwitch_def trigCmds_def append_simps TH_DL_def TL_DL_def TRIG_LEN_def)

lemma c_trunc_of_int: "c_trunc (real_of_int k) = k"
  by (simp add: c_trunc_def)

lemma convertCoord_0:
  "convertCoord p s c 0 =
     \<lparr>gX = - (s * (word_of_int (X p) - word_of_int (X c))),
      gY = - (s * (word_of_int (Y p) - word_of_int (Y c)))\<rparr>"
proof -
  have a: "- (real_of_int (sint s) * (real_of_int u - real_of_int v))
      = real_of_int (- (sint s * (u - v)))" for u v
    by (simp del: of_int_sint)
  have r: "Re (complex_of_int (sint s) * cis 0) = real_of_int (sint s)"
    by (simp del: of_int_sint)
  have w: "(word_of_int (- (sint s * (u - v))) :: i64)
      = - (s * (word_of_int u - word_of_int v))" for u v
    by simp
  have m: "Re (complex_of_real t * (Complex a1 b1 - Complex a2 b2)) = t * (a1 - a2)"
    "Im (complex_of_real t * (Complex a1 b1 - Complex a2 b2)) = t * (b1 - b2)" for t a1 b1 a2 b2
    by simp_all
  show ?thesis
    unfolding convertCoord_def Let_def r m mult_minus1 a c_trunc_of_int w ..
qed

lemma buildSpot_prot_eq:
  "buildSpot_prot Baseline TimeOn NumPulses ISI EpisodePeriod Reps Pos ScaleFactor CenterOffset Trig =
     (let t = spotTimes Baseline TimeOn NumPulses ISI EpisodePeriod;
          g = convertCoord Pos ScaleFactor CenterOffset 0
      in [mkMove 4 0 (gX g), mkMove 3 0 (gY g), mkLoop (CHR ''S'') 0 (ucast Reps)]
         @ trigCmds Trig 0
         @ (if NumPulses = 1
            then [mkTrigOut (tBaseline t) 4, mkTrigOut (tBaseline t + tTimeOn t) 0]
            else [mkLoop (CHR ''S'') (tBaseline t) (ucast NumPulses),
                  mkTrigOut (tBaseline t) 4, mkTrigOut (tBaseline t + tTimeOn t) 0,
                  mkLoop (CHR ''E'') (tBaseline t + tISI t) (ucast NumPulses)])
         @ [mkLoop (CHR ''E'') (tEpisodePeriod t * ucast Reps + 50) (ucast Reps)])"
  by (simp add: buildSpot_prot_def Let_def append_simps triggerSwitch_eq createProtocol_def
      ch_X_def ch_Y_def TL_DH_def TL_DL_def PROT_PERIOD_def)

lemma c_round_of_int: "c_round (real_of_int k) = k"
  unfolding c_round_def by simp linarith

text \<open>Rounding to a double: integers below \<open>2^53\<close> are doubles.\<close>

lemma rne_of_int [simp]: "rne (real_of_int m) = m"
  by (simp add: rne_def)

lemma rne_bounds: "\<lfloor>y\<rfloor> \<le> rne y \<and> rne y \<le> \<lceil>y\<rceil>"
proof (cases "y = real_of_int \<lfloor>y\<rfloor>")
  case True
  then have "rne y = \<lfloor>y\<rfloor>" by (metis rne_of_int)
  then show ?thesis by (simp add: le_ceiling_iff) linarith
next
  case False
  then have "\<lceil>y\<rceil> = \<lfloor>y\<rfloor> + 1" by linarith
  then show ?thesis unfolding rne_def Let_def by simp
qed

lemma rne_abs_le: "\<bar>y\<bar> \<le> real_of_int n \<Longrightarrow> \<bar>rne y\<bar> \<le> n"
  using rne_bounds [of y] by (simp add: abs_le_iff) linarith

lemma pow2_neg: "pow2 (- int k) = 1 / 2 ^ k"
  by (simp add: pow2_def)

lemma powr_52: "(2::real) powr real_of_int (52 - int k) = 2 ^ 52 / 2 ^ k"
proof -
  have "(2::real) powr real_of_int (52 - int k) = 2 powr (52 - real k)" by simp
  also have "\<dots> = 2 powr 52 / 2 powr real k" by (rule powr_diff)
  also have "\<dots> = 2 ^ 52 / 2 ^ k" by (simp add: powr_realpow)
  finally show ?thesis .
qed

lemma powr_53: "(2::real) powr real_of_int (52 - int k + 1) = 2 ^ 53 / 2 ^ k"
proof -
  have "(2::real) powr real_of_int (52 - int k + 1) = 2 powr (53 - real k)" by simp
  also have "\<dots> = 2 powr 53 / 2 powr real k" by (rule powr_diff)
  also have "\<dots> = 2 ^ 53 / 2 ^ k" by (simp add: powr_realpow)
  finally show ?thesis .
qed

text \<open>
  The double nearest to \<open>r\<close>, for \<open>r\<close> below \<open>2^53\<close> in magnitude and not subnormal: with
  \<open>k\<close> such that \<open>r * 2^k\<close> has 53 bits before the point, it is \<open>r * 2^k\<close> rounded to an
  integer, over \<open>2^k\<close>.
\<close>

lemma to_double_scaled:
  assumes lo: "2 ^ 52 \<le> \<bar>r\<bar> * 2 ^ k" and hi: "\<bar>r\<bar> * 2 ^ k < 2 ^ 53" and k: "k \<le> 1074"
  shows "to_double r = Finite (real_of_int (rne (r * 2 ^ k)) / 2 ^ k)"
proof -
  have r0: "r \<noteq> 0" using lo by auto
  have k0: "(0::real) < 2 ^ k" by simp
  have a: "2 ^ 52 / 2 ^ k \<le> \<bar>r\<bar>" using lo k0 by (simp add: pos_divide_le_eq)
  have b: "\<bar>r\<bar> < 2 ^ 53 / 2 ^ k" using hi k0 by (simp add: pos_less_divide_eq)
  have "2 powr real_of_int (52 - int k) \<le> \<bar>r\<bar> \<and> \<bar>r\<bar> < 2 powr real_of_int (52 - int k + 1)"
    unfolding powr_52 powr_53 using a b by simp
  then have e: "\<lfloor>log 2 \<bar>r\<bar>\<rfloor> = 52 - int k"
    using r0 by (subst floor_log_eq_powr_iff) simp_all
  have m: "max (52 - int k) (- 1022) = 52 - int k" using k by simp
  have n: "\<bar>r * 2 ^ k\<bar> \<le> real_of_int (2 ^ 53)" using hi by (simp add: abs_mult)
  have "\<bar>rne (r * 2 ^ k)\<bar> \<le> 2 ^ 53" by (rule rne_abs_le [OF n])
  then have "real_of_int \<bar>rne (r * 2 ^ k)\<bar> \<le> real_of_int (2 ^ 53)"
    by (rule of_int_le_iff [THEN iffD2])
  then have v: "\<bar>real_of_int (rne (r * 2 ^ k))\<bar> \<le> 2 ^ 53" by simp
  have "1 \<le> (2::real) ^ k" by simp
  then have "\<bar>real_of_int (rne (r * 2 ^ k))\<bar> / 2 ^ k \<le> \<bar>real_of_int (rne (r * 2 ^ k))\<bar> / 1"
    by (intro divide_left_mono) simp_all
  then have w: "\<bar>real_of_int (rne (r * 2 ^ k)) / 2 ^ k\<bar> \<le> 2 ^ 53" using v by simp
  have "(2::real) ^ 53 \<le> DBL_MAX" by (simp add: DBL_MAX_def)
  then have "\<not> DBL_MAX < real_of_int (rne (r * 2 ^ k)) / 2 ^ k"
    "\<not> real_of_int (rne (r * 2 ^ k)) / 2 ^ k < - DBL_MAX"
    using w by linarith+
  then show ?thesis
    using r0 by (simp add: to_double_def e m pow2_neg Let_def)
qed

lemma to_double_0 [simp]: "to_double 0 = Finite 0"
  by (simp add: to_double_def)

lemma to_double_of_int:
  assumes "\<bar>m\<bar> < 2 ^ 53"
  shows "to_double (real_of_int m) = Finite (real_of_int m)"
proof (cases "m = 0")
  case True
  then show ?thesis by simp
next
  case False
  define e where "e = \<lfloor>log 2 \<bar>real_of_int m\<bar>\<rfloor>"
  have "1 \<le> \<bar>m\<bar>" using False by simp
  then have "real_of_int 1 \<le> real_of_int \<bar>m\<bar>" by (rule of_int_le_iff [THEN iffD2])
  then have m1: "1 \<le> \<bar>real_of_int m\<bar>" by simp
  have "real_of_int \<bar>m\<bar> < real_of_int (2 ^ 53)" using assms by (rule of_int_less_iff [THEN iffD2])
  then have m2: "\<bar>real_of_int m\<bar> < 2 ^ 53" by simp
  have e0: "0 \<le> e" unfolding e_def using m1 by (simp add: zero_le_log_cancel_iff)
  have "log 2 \<bar>real_of_int m\<bar> < 53"
    using m1 m2 by (subst log_less_iff) (simp_all add: powr_realpow)
  then have e1: "e \<le> 52" unfolding e_def by linarith
  define k where "k = nat (52 - e)"
  have ek: "e = 52 - int k" using e1 by (simp add: k_def)
  have k: "k \<le> 1074" using e0 by (simp add: k_def)
  have k0: "(0::real) < 2 ^ k" by simp
  have "2 powr real_of_int (52 - int k) \<le> \<bar>real_of_int m\<bar>
      \<and> \<bar>real_of_int m\<bar> < 2 powr real_of_int (52 - int k + 1)"
    using floor_log_eq_powr_iff [of "\<bar>real_of_int m\<bar>" 2 e] m1 by (simp add: e_def [symmetric] ek)
  then have "2 ^ 52 / 2 ^ k \<le> \<bar>real_of_int m\<bar>" "\<bar>real_of_int m\<bar> < 2 ^ 53 / 2 ^ k"
    unfolding powr_52 powr_53 by simp_all
  then have lo: "2 ^ 52 \<le> \<bar>real_of_int m\<bar> * 2 ^ k" and hi: "\<bar>real_of_int m\<bar> * 2 ^ k < 2 ^ 53"
    using k0 by (simp_all add: pos_divide_le_eq pos_less_divide_eq)
  have "real_of_int m * 2 ^ k = real_of_int (m * 2 ^ k)" by simp
  then have "rne (real_of_int m * 2 ^ k) = m * 2 ^ k" by (simp only: rne_of_int)
  then show ?thesis
    using to_double_scaled [OF lo hi k] by simp
qed

lemma to_double_numeral [simp]:
  "(numeral n :: int) < 2 ^ 53 \<Longrightarrow> to_double (numeral n) = Finite (numeral n)"
  using to_double_of_int [of "numeral n"] by simp

lemma to_double_neg_numeral [simp]:
  "(numeral n :: int) < 2 ^ 53 \<Longrightarrow> to_double (- numeral n) = Finite (- numeral n)"
  using to_double_of_int [of "- numeral n"] by simp

lemma to_double_1 [simp]: "to_double 1 = Finite 1"
  using to_double_of_int [of 1] by simp

lemma d_of_int_exact: "\<bar>k\<bar> < 2 ^ 53 \<Longrightarrow> d_of_int k = Finite (real_of_int k)"
  by (simp add: d_of_int_def to_double_of_int)

text \<open>
  \<open>rotateCoord\<close> where its arithmetic is exact: the center itself, at every angle of which
  the cosine and the sine are finite, and every point at an angle with the cosine 1 and
  the sine 0.
\<close>

lemma rotateCoord_center:
  assumes "c_cos lm RotAngle = Finite cv" and "c_sin lm RotAngle = Finite sv"
  shows "rotateCoord lm c c RotAngle = \<lparr>X = 0, Y = 0\<rparr>"
  using assms
  by (simp add: rotateCoord_def Let_def d_of_int_def dsub_def c_round_def c_trunc_def)

lemma rotateCoord_exact:
  assumes "c_cos lm RotAngle = Finite 1" and "c_sin lm RotAngle = Finite 0"
    and x: "- (2 ^ 31) \<le> X p - X c" "X p - X c < 2 ^ 31"
    and y: "- (2 ^ 31) \<le> Y p - Y c" "Y p - Y c < 2 ^ 31"
  shows "rotateCoord lm p c RotAngle = \<lparr>X = X p - X c, Y = Y p - Y c\<rparr>"
proof -
  have bx: "\<bar>X p - X c\<bar> < 2 ^ 53" using x by (simp add: abs_less_iff)
  have by': "\<bar>Y p - Y c\<bar> < 2 ^ 53" using y by (simp add: abs_less_iff)
  have dx: "d_of_int (X p - X c) = Finite (real_of_int (X p - X c))"
    by (rule d_of_int_exact [OF bx])
  have dy: "d_of_int (Y p - Y c) = Finite (real_of_int (Y p - Y c))"
    by (rule d_of_int_exact [OF by'])
  have tx: "to_double (real_of_int (X p - X c)) = Finite (real_of_int (X p - X c))"
    by (rule to_double_of_int [OF bx])
  have ty: "to_double (real_of_int (Y p - Y c)) = Finite (real_of_int (Y p - Y c))"
    by (rule to_double_of_int [OF by'])
  show ?thesis
    unfolding rotateCoord_def Let_def Coord.simps dx dy assms(1) assms(2)
    using x y
    by (simp add: dsub_def tx ty c_round_of_int c_trunc_of_int del: of_int_diff)
qed

lemma scanPairs_length: "length (scanPairs ts n x y) = n"
  by (induction ts n x y rule: scanPairs.induct) auto

lemma scanPairs_nth:
  "i < n \<Longrightarrow> i < length es \<Longrightarrow>
   scanPairs (concat (map (\<lambda>(x, y). [x, y]) es) @ r) n x0 y0 ! i = es ! i"
proof (induction es arbitrary: n i x0 y0)
  case Nil
  then show ?case by simp
next
  case (Cons e es)
  obtain a b where e: "e = (a, b)" by (cases e)
  obtain m where n: "n = Suc m" using Cons.prems(1) by (cases n) auto
  show ?case
  proof (cases i)
    case 0
    then show ?thesis by (simp add: e n)
  next
    case (Suc j)
    then show ?thesis using Cons.prems Cons.IH [of j m a b] by (simp add: e n)
  qed
qed

text \<open>
  On a pattern file of the format of the specification, a line of the number of points and
  the two dimensions followed by a line for each point, the first pass of \<open>getPattern\<close>
  reads the two dimensions and pass \<open>i + 1\<close> reads the line of point \<open>i\<close>.
\<close>

lemma getPattern_reads_format:
  assumes "i < n" and "i < Suc (length es)"
  shows "getPattern_reads (nPoints # xDims # yDims # concat (map (\<lambda>(x, y). [x, y]) es) @ r) n ! i
    = ((xDims, yDims) # es) ! i"
  using scanPairs_nth [of i n "(xDims, yDims) # es" r 0 0] assms
  by (simp add: getPattern_reads_def)

lemma ms_le_cycles:
  fixes ISI TimeOn :: u32
  assumes "unat ISI * 100 < 2 ^ 32"
  shows "TimeOn * CYCLES_PER_MS \<le> (if ISI < TimeOn then TimeOn else ISI) * CYCLES_PER_MS"
proof (cases "ISI < TimeOn")
  case True
  then show ?thesis by simp
next
  case False
  then have le: "unat TimeOn \<le> unat ISI"
    by (simp add: word_le_nat_alt not_less)
  have a: "unat (ISI * 100) = unat ISI * 100"
    using assms by (simp add: unat_word_ariths)
  have "unat TimeOn * 100 < 2 ^ 32"
    using le assms by simp
  then have b: "unat (TimeOn * 100) = unat TimeOn * 100"
    by (simp add: unat_word_ariths)
  show ?thesis
    using False le a b by (simp add: CYCLES_PER_MS_def word_le_nat_alt)
qed

lemma digit_not_NUL: "d < 10 \<Longrightarrow> digit d \<noteq> NUL"
proof -
  assume "d < 10"
  then have "d \<in> {0, 1, 2, 3, 4, 5, 6, 7, 8, 9}" by auto
  then show ?thesis by (auto simp: digit_def NUL_def)
qed

lemma dec_no_NUL: "NUL \<notin> set (dec n)"
proof (induction n rule: dec.induct)
  case (1 n)
  show ?case
  proof (cases "n < 10")
    case True
    then show ?thesis using digit_not_NUL [of n] by (subst dec.simps) auto
  next
    case False
    have "n mod 10 < 10" by simp
    then have "digit (n mod 10) \<noteq> NUL" by (rule digit_not_NUL)
    then show ?thesis using False 1 by (subst dec.simps) auto
  qed
qed

lemma sdec_no_NUL: "NUL \<notin> set (sdec i)"
  using dec_no_NUL by (auto simp: sdec_def NUL_def)

lemma sprintf_no_NUL:
  "DSPCmd c \<noteq> NUL \<Longrightarrow> ScanCmd c \<noteq> NUL \<Longrightarrow> NUL \<notin> set (sprintf_FORMAT c)"
  using dec_no_NUL [of "unat (Cycle c)"] sdec_no_NUL [of "Channel c"] sdec_no_NUL [of "sint (Value c)"]
  by (auto simp: sprintf_FORMAT_def NUL_def)

lemma c_str_id: "NUL \<notin> set buf \<Longrightarrow> c_str buf = buf"
  by (simp add: c_str_def takeWhile_eq_all_conv) auto

lemma foldl_strcat:
  "NUL \<notin> set buf \<Longrightarrow> \<forall>c \<in> set p. DSPCmd c \<noteq> NUL \<and> ScanCmd c \<noteq> NUL \<Longrightarrow>
   foldl (\<lambda>StrProtocol pLoop. strcat StrProtocol (sprintf_FORMAT pLoop)) buf p
     = buf @ concat (map sprintf_FORMAT p)
   \<and> NUL \<notin> set (buf @ concat (map sprintf_FORMAT p))"
proof (induction p arbitrary: buf)
  case Nil
  then show ?case by simp
next
  case (Cons c p)
  have l: "NUL \<notin> set (sprintf_FORMAT c)" using Cons.prems(2) by (simp add: sprintf_no_NUL)
  have s: "strcat buf (sprintf_FORMAT c) = buf @ sprintf_FORMAT c"
    using Cons.prems(1) l by (simp add: strcat_def c_str_id)
  have n: "NUL \<notin> set (buf @ sprintf_FORMAT c)" using Cons.prems(1) l by simp
  show ?case using Cons.IH [OF n] Cons.prems(2) by (simp add: s)
qed

lemma ProtToString_wf:
  assumes "\<forall>c \<in> set p. DSPCmd c \<noteq> NUL \<and> ScanCmd c \<noteq> NUL"
  shows "ProtToString True p = Some ([CHR ''C'', CHR 0x0A] @ concat (map sprintf_FORMAT p))"
proof -
  have b: "NUL \<notin> set [CHR ''C'', CHR 0x0A]" by (simp add: NUL_def)
  show ?thesis using foldl_strcat [OF b assms] by (simp add: ProtToString_def c_str_id del: set_append set_concat)
qed

lemmas mk_defs = mkMove_def mkRel_def mkLoop_def mkTrigOut_def mkTrigIn_def

lemma ScanCmd_mk [simp]:
  "ScanCmd (mkMove ch cy v) = CHR ''V''"
  "ScanCmd (mkRel cy ch v) = CHR ''R''"
  "ScanCmd (mkLoop se cy n) = se"
  "ScanCmd (mkTrigOut cy tr) = CHR ''V''"
  "ScanCmd (mkTrigIn cy ud) = ud"
  by (simp_all add: mk_defs)

lemma loopScan_append:
  "loopScan stk (xs @ ys) =
     (case loopScan stk xs of
        None \<Rightarrow> None
      | Some (stk', ps) \<Rightarrow> map_option (\<lambda>(r, qs). (r, ps @ qs)) (loopScan stk' ys))"
proof (induction xs arbitrary: stk)
  case Nil
  show ?case by (cases "loopScan stk ys") auto
next
  case (Cons c xs)
  show ?case
  proof (cases "ScanCmd c = START")
    case True
    then show ?thesis using Cons.IH [of "c # stk"] by simp
  next
    case nS: False
    show ?thesis
    proof (cases "ScanCmd c = END")
      case False
      then show ?thesis using nS Cons.IH [of stk] by simp
    next
      case True
      show ?thesis
      proof (cases stk)
        case Nil
        then show ?thesis using nS True by simp
      next
        case (Cons s stk')
        then show ?thesis using nS True Cons.IH [of stk']
          by (auto simp: option.map_comp comp_def split_def split: option.splits)
      qed
    qed
  qed
qed

lemma loopScan_trigCmds [simp]: "loopScan stk (trigCmds Trig t @ ys) = loopScan stk ys"
  by (cases Trig) (simp_all add: trigCmds_def START_def END_def)

lemma loopScan_counts:
  "loopScan stk p = Some (r, ps) \<Longrightarrow>
   length stk + length (filter (\<lambda>c. ScanCmd c = START) p)
     = length r + length (filter (\<lambda>c. ScanCmd c = END) p)"
proof (induction p arbitrary: stk r ps)
  case Nil
  then show ?case by simp
next
  case (Cons c p)
  then show ?case
    by (fastforce simp: START_def END_def split: if_splits list.splits)
qed

lemma loopsMatched_iff: "loopsMatched p \<longleftrightarrow> (\<exists>ps. loopScan [] p = Some ([], ps))"
proof
  assume "loopsMatched p"
  then show "\<exists>ps. loopScan [] p = Some ([], ps)"
    by (auto simp: loopsMatched_def loopPairs_def split: option.splits list.splits)
next
  assume "\<exists>ps. loopScan [] p = Some ([], ps)"
  then obtain ps where s: "loopScan [] p = Some ([], ps)" by blast
  from loopScan_counts [OF s] s show "loopsMatched p"
    by (simp add: loopsMatched_def loopPairs_def)
qed

text \<open>In every pair of the scan the start command precedes the end command.\<close>

lemma loopScan_start_before_end:
  "loopScan stk p = Some (r, ps) \<Longrightarrow> (s, e) \<in> set ps \<Longrightarrow>
     (s \<in> set stk \<and> e \<in> set p)
     \<or> (\<exists>i j. i < j \<and> j < length p \<and> p ! i = s \<and> p ! j = e)"
proof (induction p arbitrary: stk r ps)
  case Nil
  then show ?case by simp
next
  case (Cons c cs)
  show ?case
  proof (cases "ScanCmd c = START")
    case True
    then have "loopScan (c # stk) cs = Some (r, ps)" using Cons.prems(1) by simp
    from Cons.IH [OF this Cons.prems(2)]
    consider "s = c" "e \<in> set cs" | "s \<in> set stk" "e \<in> set cs"
      | i j where "i < j" "j < length cs" "cs ! i = s" "cs ! j = e"
      by auto
    then show ?thesis
    proof cases
      case 1
      then obtain j where "j < length cs" "cs ! j = e" by (auto simp: in_set_conv_nth)
      then have "0 < Suc j \<and> Suc j < length (c # cs) \<and> (c # cs) ! 0 = s \<and> (c # cs) ! Suc j = e"
        using 1 by simp
      then show ?thesis by blast
    next
      case 2
      then show ?thesis by simp
    next
      case 3
      then have "Suc i < Suc j \<and> Suc j < length (c # cs) \<and> (c # cs) ! Suc i = s \<and> (c # cs) ! Suc j = e"
        by simp
      then show ?thesis by blast
    qed
  next
    case nS: False
    show ?thesis
    proof (cases "ScanCmd c = END")
      case True
      then obtain s0 stk' ps' where stk: "stk = s0 # stk'"
        and rec: "loopScan stk' cs = Some (r, ps')" and ps: "ps = (s0, c) # ps'"
        using Cons.prems(1) nS by (auto split: list.splits)
      show ?thesis
      proof (cases "(s, e) = (s0, c)")
        case True
        then show ?thesis using stk by simp
      next
        case False
        then have "(s, e) \<in> set ps'" using Cons.prems(2) ps by auto
        from Cons.IH [OF rec this]
        consider "s \<in> set stk'" "e \<in> set cs"
          | i j where "i < j" "j < length cs" "cs ! i = s" "cs ! j = e"
          by auto
        then show ?thesis
        proof cases
          case 1
          then show ?thesis using stk by simp
        next
          case 2
          then have "Suc i < Suc j \<and> Suc j < length (c # cs) \<and> (c # cs) ! Suc i = s
              \<and> (c # cs) ! Suc j = e"
            by simp
          then show ?thesis by blast
        qed
      qed
    next
      case False
      then have "loopScan stk cs = Some (r, ps)" using Cons.prems(1) nS by simp
      from Cons.IH [OF this Cons.prems(2)]
      consider "s \<in> set stk" "e \<in> set cs"
        | i j where "i < j" "j < length cs" "cs ! i = s" "cs ! j = e"
        by auto
      then show ?thesis
      proof cases
        case 1
        then show ?thesis by simp
      next
        case 2
        then have "Suc i < Suc j \<and> Suc j < length (c # cs) \<and> (c # cs) ! Suc i = s
            \<and> (c # cs) ! Suc j = e"
          by simp
        then show ?thesis by blast
      qed
    qed
  qed
qed

lemma loopScan_pair_chars:
  "loopScan stk p = Some (r, ps) \<Longrightarrow> (s, e) \<in> set ps \<Longrightarrow>
     (s \<in> set stk \<or> ScanCmd s = START) \<and> ScanCmd e = END"
proof (induction p arbitrary: stk r ps)
  case Nil
  then show ?case by simp
next
  case (Cons c cs)
  show ?case
  proof (cases "ScanCmd c = START")
    case True
    then have "loopScan (c # stk) cs = Some (r, ps)" using Cons.prems(1) by simp
    from Cons.IH [OF this Cons.prems(2)] True show ?thesis by auto
  next
    case nS: False
    show ?thesis
    proof (cases "ScanCmd c = END")
      case True
      then obtain s0 stk' ps' where stk: "stk = s0 # stk'"
        and rec: "loopScan stk' cs = Some (r, ps')" and ps: "ps = (s0, c) # ps'"
        using Cons.prems(1) nS by (auto split: list.splits)
      show ?thesis
      proof (cases "(s, e) = (s0, c)")
        case True
        then show ?thesis using stk \<open>ScanCmd c = END\<close> by simp
      next
        case False
        then have "(s, e) \<in> set ps'" using Cons.prems(2) ps by auto
        from Cons.IH [OF rec this] show ?thesis using stk by auto
      qed
    next
      case False
      then have "loopScan stk cs = Some (r, ps)" using Cons.prems(1) nS by simp
      from Cons.IH [OF this Cons.prems(2)] show ?thesis .
    qed
  qed
qed

lemma loopPairs_start_before_end:
  assumes "loopPairs p = Some ps" and "(s, e) \<in> set ps"
  shows "\<exists>i j. i < j \<and> j < length p \<and> p ! i = s \<and> p ! j = e
            \<and> ScanCmd s = START \<and> ScanCmd e = END"
proof -
  have l: "loopScan [] p = Some ([], ps)"
    using assms(1) by (auto simp: loopPairs_def split: option.splits list.splits)
  from loopScan_start_before_end [OF l assms(2)] loopScan_pair_chars [OF l assms(2)]
  show ?thesis by auto
qed

lemma loopScan_targetCmds:
  "loopScan stk (targetCmds t NumPulses Iterations Trig g k)
     = Some (stk, targetPairs t NumPulses Iterations k)"
  by (simp add: targetCmds_def targetPairs_def pulseCmds_def Let_def START_def END_def)

lemma loopScan_concat:
  assumes "\<And>k. loopScan stk (f k) = Some (stk, g k)"
  shows "loopScan stk (concat (map f ks)) = Some (stk, concat (map g ks))"
proof (induction ks)
  case Nil
  show ?case by simp
next
  case (Cons k ks)
  show ?case using assms [of k] Cons by (simp add: loopScan_append)
qed

lemma targetEpisode_eq:
  "targetEpisode t NumPulses Iterations Trig g p k = p @ targetCmds t NumPulses Iterations Trig g k"
  by (simp add: targetEpisode_def targetCmds_def pulseCmds_def Let_def append_simps
      triggerSwitch_eq TIME_OFFSET_def ch_X_def ch_Y_def TL_DH_def TL_DL_def)

lemma foldl_append_cmds:
  assumes "\<And>p k. step p k = p @ f k"
  shows "foldl step p ks = p @ concat (map f ks)"
  by (induction ks arbitrary: p) (simp_all add: assms)

lemma rapidTargetPulse_eq: "rapidTargetPulse t g p m = p @ rapidTargetCmds t g m"
  by (simp add: rapidTargetPulse_def rapidTargetCmds_def Let_def append_simps
      TIME_OFFSET_def ch_X_def ch_Y_def TL_DH_def TL_DL_def)

lemma buildTarget_prot_Some:
  assumes "buildTarget_prot lm TargetFile Baseline TimeOn NumPulses ISI Iterations EpisodePeriod Reps
             NumPoints ScaleFactor CenterOffset Trig RotAngle = Some p"
  shows "\<exists>g. p = mkLoop (CHR ''S'') 0 (ucast Reps)
            # concat (map (targetCmds
                (gridTimes Baseline TimeOn NumPulses ISI Iterations EpisodePeriod)
                NumPulses Iterations Trig g) [0..<unat NumPoints])
            @ [mkLoop (CHR ''E'')
                (tEpisodePeriod (gridTimes Baseline TimeOn NumPulses ISI Iterations EpisodePeriod)
                   * ucast NumPoints) (ucast Reps)]"
  using assms
  by (auto simp: buildTarget_prot_def Let_def append_simps createProtocol_def
      foldl_append_cmds [of "targetEpisode t n i tr g" "targetCmds t n i tr g" for t n i tr g, OF targetEpisode_eq]
      split: option.splits)

lemma buildPattern_prot_Some:
  assumes "buildPattern_prot lm PatternFile Baseline TimeOn NumPulses ISI Iterations EpisodePeriod Reps
             StartPos Spacing ScaleFactor CenterOffset Trig RotAngle = Some p"
  shows "\<exists>g n. getNumPoints PatternFile = Some n \<and>
          p = mkLoop (CHR ''S'') 0 (ucast Reps)
            # concat (map (targetCmds
                (gridTimes Baseline TimeOn NumPulses ISI Iterations EpisodePeriod)
                NumPulses Iterations Trig g) [0..<unat (word_of_int n :: u16)])
            @ [mkLoop (CHR ''E'')
                (tEpisodePeriod (gridTimes Baseline TimeOn NumPulses ISI Iterations EpisodePeriod)
                   * ucast (word_of_int n :: u16)) (ucast Reps)]"
  using assms
  by (auto simp: buildPattern_prot_def Let_def append_simps createProtocol_def
      foldl_append_cmds [of "targetEpisode t n i tr g" "targetCmds t n i tr g" for t n i tr g, OF targetEpisode_eq]
      split: option.splits)

lemma buildRapidTarget_prot_Some:
  assumes "buildRapidTarget_prot lm TargetFile Baseline TimeOn ISI EpisodePeriod Reps NumPoints
             ScaleFactor CenterOffset Trig RotAngle = Some p"
  shows "\<exists>g. p = mkLoop (CHR ''S'') 0 (ucast Reps) # trigCmds Trig 10
            @ concat (map (rapidTargetCmds
                (rapidTargetTimes Baseline TimeOn ISI EpisodePeriod NumPoints) g)
                [0..<unat NumPoints])
            @ [mkLoop (CHR ''E'')
                (tEpisodePeriod (rapidTargetTimes Baseline TimeOn ISI EpisodePeriod NumPoints))
                (ucast Reps)]"
  using assms
  by (auto simp: buildRapidTarget_prot_def Let_def append_simps createProtocol_def triggerSwitch_eq
      TIME_OFFSET_def
      foldl_append_cmds [of "rapidTargetPulse t g" "rapidTargetCmds t g" for t g, OF rapidTargetPulse_eq]
      split: option.splits)

lemma buildRapidGrid_prot_eq:
  "buildRapidGrid_prot Baseline TimeOn ISI EpisodePeriod Reps Dims StartPos Spacing ScaleFactor
       CenterOffset Trig RotAngle =
     (let t = rapidGridTimes Baseline TimeOn ISI EpisodePeriod Dims;
          g = convertCoord StartPos ScaleFactor CenterOffset 0;
          sx = word_of_int (- X Spacing) * ScaleFactor;
          sy = word_of_int (- Y Spacing) * ScaleFactor
      in [mkLoop (CHR ''S'') 0 (ucast Reps), mkMove 4 0 (gX g), mkMove 3 0 (gY g)]
         @ trigCmds Trig 10
         @ [mkLoop (CHR ''S'') 10 (word_of_int (Y Dims)),
            mkLoop (CHR ''S'') 10 (word_of_int (X Dims)),
            mkTrigOut (10 + tBaseline t) 4,
            mkTrigOut (10 + tBaseline t + tTimeOn t) 0,
            mkRel (10 + tISI t) 4 (- sx),
            mkLoop (CHR ''E'') (10 + tISI t) (word_of_int (X Dims)),
            mkRel (10 + word_of_int (X Dims) * tISI t) 3 sy,
            mkRel (10 + word_of_int (X Dims) * tISI t) 4 (sx * word_of_int (X Dims)),
            mkLoop (CHR ''E'') (10 + word_of_int (X Dims) * tISI t) (word_of_int (Y Dims)),
            mkLoop (CHR ''E'') (10 + tEpisodePeriod t + 50) (ucast Reps)])"
  by (simp add: buildRapidGrid_prot_def Let_def append_simps triggerSwitch_eq createProtocol_def
      TIME_OFFSET_def PROT_PERIOD_def ch_X_def ch_Y_def TL_DH_def TL_DL_def)

lemma getCentroid_4: "\<exists>c. getCentroid 4 xs = Some c"
  by (simp add: getCentroid_def Let_def)

lemma buildGrid_prot_eq0:
  "buildGrid_prot lm Baseline TimeOn NumPulses ISI Iterations EpisodePeriod Reps Dims StartPos
          Spacing ScaleFactor CenterOffset Trig (Finite 0) =
     Some (gridShape (gridTimes Baseline TimeOn NumPulses ISI Iterations EpisodePeriod)
       NumPulses Iterations Reps Dims Trig (convertCoord StartPos ScaleFactor CenterOffset 0)
       [- (word_of_int (X Spacing) * ScaleFactor), word_of_int (Y Spacing) * ScaleFactor,
        word_of_int (X Spacing) * ScaleFactor * word_of_int (X Dims)])"
  by (simp add: buildGrid_prot_def Let_def append_simps triggerSwitch_eq createProtocol_def
        TIME_OFFSET_def PROT_PERIOD_def pulseCmds_def gridTail_def gridShape_def
        ch_X_def ch_Y_def TL_DH_def TL_DL_def dne_def)

lemma buildGrid_prot_eq1:
  assumes "dne RotAngle (Finite 0)"
  shows "\<exists>g v. length v = 6 \<and>
     buildGrid_prot lm Baseline TimeOn NumPulses ISI Iterations EpisodePeriod Reps Dims StartPos
          Spacing ScaleFactor CenterOffset Trig RotAngle =
     Some (gridShape (gridTimes Baseline TimeOn NumPulses ISI Iterations EpisodePeriod)
       NumPulses Iterations Reps Dims Trig g v)"
proof -
  obtain c where c: "getCentroid 4 [StartPos, \<lparr>X = X StartPos + X Spacing * (X Dims - 1), Y = Y StartPos\<rparr>,
       \<lparr>X = X StartPos + X Spacing * (X Dims - 1), Y = Y StartPos - Y Spacing * (Y Dims - 1)\<rparr>,
       \<lparr>X = X StartPos, Y = Y StartPos - Y Spacing * (Y Dims - 1)\<rparr>] = Some c"
    using getCentroid_4 by blast
  define d where "d = (\<lambda>x. to_int64 (dmul (dround x) (d_of_int (sint ScaleFactor))))"
  define g where "g = convertCoord \<lparr>X = X (rotateCoord lm StartPos c RotAngle) + X c,
      Y = Y (rotateCoord lm StartPos c RotAngle) + Y c\<rparr> ScaleFactor CenterOffset 0"
  define cx where "cx = dmul (d_of_int (X Spacing)) (c_cos lm RotAngle)"
  define sy where "sy = dmul (d_of_int (Y Spacing)) (c_sin lm RotAngle)"
  define sx where "sx = dmul (d_of_int (X Spacing)) (c_sin lm RotAngle)"
  define cy where "cy = dmul (d_of_int (Y Spacing)) (c_cos lm RotAngle)"
  define v where "v = [- d cx, - d sy, - d sx, d cy, d cx * word_of_int (X Dims),
        d sy * word_of_int (X Dims)]"
  have "buildGrid_prot lm Baseline TimeOn NumPulses ISI Iterations EpisodePeriod Reps Dims StartPos
          Spacing ScaleFactor CenterOffset Trig RotAngle =
     Some (gridShape (gridTimes Baseline TimeOn NumPulses ISI Iterations EpisodePeriod)
       NumPulses Iterations Reps Dims Trig g v)"
    using assms c
    by (simp add: buildGrid_prot_def Let_def append_simps triggerSwitch_eq createProtocol_def d_def
        g_def v_def cx_def sy_def sx_def cy_def gridShape_def
        TIME_OFFSET_def PROT_PERIOD_def pulseCmds_def gridTail_def ch_X_def ch_Y_def TL_DH_def TL_DL_def
        del: of_int_sint)
  moreover have "length v = 6" by (simp add: v_def)
  ultimately show ?thesis by blast
qed

lemma loopScan_gridShape:
  "loopScan [] (gridShape t NumPulses Iterations Reps Dims Trig g v)
     = Some ([], gridPairs t NumPulses Iterations Reps Dims)"
  by (simp add: gridShape_def gridTail_def pulseCmds_def gridPairs_def Let_def START_def END_def)

lemma buildGrid_loopScan:
  "\<exists>p. buildGrid_prot lm Baseline TimeOn NumPulses ISI Iterations EpisodePeriod Reps Dims StartPos
          Spacing ScaleFactor CenterOffset Trig RotAngle = Some p
       \<and> loopScan [] p = Some ([], gridPairs
            (gridTimes Baseline TimeOn NumPulses ISI Iterations EpisodePeriod)
            NumPulses Iterations Reps Dims)"
proof (cases "dne RotAngle (Finite 0)")
  case False
  then have "RotAngle = Finite 0" by (simp add: dne_def)
  then show ?thesis by (simp add: buildGrid_prot_eq0 loopScan_gridShape)
next
  case True
  from buildGrid_prot_eq1 [OF True] show ?thesis
    by (metis loopScan_gridShape)
qed

lemma loopScan_spot:
  "loopScan [] (buildSpot_prot Baseline TimeOn NumPulses ISI EpisodePeriod Reps Pos ScaleFactor
       CenterOffset Trig)
     = Some ([],
        (if NumPulses = 1 then []
         else [(mkLoop (CHR ''S'') (tBaseline (spotTimes Baseline TimeOn NumPulses ISI EpisodePeriod))
                  (ucast NumPulses),
                mkLoop (CHR ''E'') (tBaseline (spotTimes Baseline TimeOn NumPulses ISI EpisodePeriod)
                   + tISI (spotTimes Baseline TimeOn NumPulses ISI EpisodePeriod)) (ucast NumPulses))])
        @ [(mkLoop (CHR ''S'') 0 (ucast Reps),
            mkLoop (CHR ''E'')
              (tEpisodePeriod (spotTimes Baseline TimeOn NumPulses ISI EpisodePeriod) * ucast Reps + 50)
              (ucast Reps))])"
  by (simp add: buildSpot_prot_eq Let_def START_def END_def)

lemma loopScan_rapidGrid:
  "loopScan [] (buildRapidGrid_prot Baseline TimeOn ISI EpisodePeriod Reps Dims StartPos Spacing
       ScaleFactor CenterOffset Trig RotAngle)
     = Some ([],
         [(mkLoop (CHR ''S'') 10 (word_of_int (X Dims)),
           mkLoop (CHR ''E'') (10 + tISI (rapidGridTimes Baseline TimeOn ISI EpisodePeriod Dims))
             (word_of_int (X Dims))),
          (mkLoop (CHR ''S'') 10 (word_of_int (Y Dims)),
           mkLoop (CHR ''E'')
             (10 + word_of_int (X Dims) * tISI (rapidGridTimes Baseline TimeOn ISI EpisodePeriod Dims))
             (word_of_int (Y Dims))),
          (mkLoop (CHR ''S'') 0 (ucast Reps),
           mkLoop (CHR ''E'')
             (10 + tEpisodePeriod (rapidGridTimes Baseline TimeOn ISI EpisodePeriod Dims) + 50)
             (ucast Reps))])"
  by (simp add: buildRapidGrid_prot_eq Let_def START_def END_def)

lemma loopScan_rapidTargetCmds:
  "loopScan stk (rapidTargetCmds t g m) = Some (stk, [])"
  by (simp add: rapidTargetCmds_def Let_def START_def END_def)

lemma loopScan_target:
  assumes "buildTarget_prot lm TargetFile Baseline TimeOn NumPulses ISI Iterations EpisodePeriod Reps
             NumPoints ScaleFactor CenterOffset Trig RotAngle = Some p"
  shows "loopScan [] p = Some ([],
           concat (map (targetPairs (gridTimes Baseline TimeOn NumPulses ISI Iterations EpisodePeriod)
                     NumPulses Iterations) [0..<unat NumPoints])
           @ [(mkLoop (CHR ''S'') 0 (ucast Reps),
               mkLoop (CHR ''E'')
                 (tEpisodePeriod (gridTimes Baseline TimeOn NumPulses ISI Iterations EpisodePeriod)
                    * ucast NumPoints) (ucast Reps))])"
proof -
  from buildTarget_prot_Some [OF assms] obtain g where
    p: "p = mkLoop (CHR ''S'') 0 (ucast Reps)
            # concat (map (targetCmds
                (gridTimes Baseline TimeOn NumPulses ISI Iterations EpisodePeriod)
                NumPulses Iterations Trig g) [0..<unat NumPoints])
            @ [mkLoop (CHR ''E'')
                (tEpisodePeriod (gridTimes Baseline TimeOn NumPulses ISI Iterations EpisodePeriod)
                   * ucast NumPoints) (ucast Reps)]" by blast
  show ?thesis
    unfolding p
    by (simp add: START_def loopScan_append loopScan_concat [OF loopScan_targetCmds])
      (simp add: START_def END_def)
qed

lemma loopScan_pattern:
  assumes "buildPattern_prot lm PatternFile Baseline TimeOn NumPulses ISI Iterations EpisodePeriod Reps
             StartPos Spacing ScaleFactor CenterOffset Trig RotAngle = Some p"
  shows "\<exists>n. getNumPoints PatternFile = Some n \<and> loopScan [] p = Some ([],
           concat (map (targetPairs (gridTimes Baseline TimeOn NumPulses ISI Iterations EpisodePeriod)
                     NumPulses Iterations) [0..<unat (word_of_int n :: u16)])
           @ [(mkLoop (CHR ''S'') 0 (ucast Reps),
               mkLoop (CHR ''E'')
                 (tEpisodePeriod (gridTimes Baseline TimeOn NumPulses ISI Iterations EpisodePeriod)
                    * ucast (word_of_int n :: u16)) (ucast Reps))])"
proof -
  from buildPattern_prot_Some [OF assms] obtain g n where
    n: "getNumPoints PatternFile = Some n" and
    p: "p = mkLoop (CHR ''S'') 0 (ucast Reps)
            # concat (map (targetCmds
                (gridTimes Baseline TimeOn NumPulses ISI Iterations EpisodePeriod)
                NumPulses Iterations Trig g) [0..<unat (word_of_int n :: u16)])
            @ [mkLoop (CHR ''E'')
                (tEpisodePeriod (gridTimes Baseline TimeOn NumPulses ISI Iterations EpisodePeriod)
                   * ucast (word_of_int n :: u16)) (ucast Reps)]" by blast
  have "loopScan [] p = Some ([],
           concat (map (targetPairs (gridTimes Baseline TimeOn NumPulses ISI Iterations EpisodePeriod)
                     NumPulses Iterations) [0..<unat (word_of_int n :: u16)])
           @ [(mkLoop (CHR ''S'') 0 (ucast Reps),
               mkLoop (CHR ''E'')
                 (tEpisodePeriod (gridTimes Baseline TimeOn NumPulses ISI Iterations EpisodePeriod)
                    * ucast (word_of_int n :: u16)) (ucast Reps))])"
    unfolding p
    by (simp add: START_def loopScan_append loopScan_concat [OF loopScan_targetCmds])
      (simp add: START_def END_def)
  with n show ?thesis by blast
qed

lemma loopScan_trigCmds_only: "loopScan stk (trigCmds Trig t) = Some (stk, [])"
  using loopScan_trigCmds [of stk Trig t "[]"] by simp

lemma loopScan_rapidTarget:
  assumes "buildRapidTarget_prot lm TargetFile Baseline TimeOn ISI EpisodePeriod Reps NumPoints
             ScaleFactor CenterOffset Trig RotAngle = Some p"
  shows "loopScan [] p = Some ([],
           [(mkLoop (CHR ''S'') 0 (ucast Reps),
             mkLoop (CHR ''E'')
               (tEpisodePeriod (rapidTargetTimes Baseline TimeOn ISI EpisodePeriod NumPoints))
               (ucast Reps))])"
proof -
  from buildRapidTarget_prot_Some [OF assms] obtain g where
    p: "p = mkLoop (CHR ''S'') 0 (ucast Reps) # trigCmds Trig 10
            @ concat (map (rapidTargetCmds
                (rapidTargetTimes Baseline TimeOn ISI EpisodePeriod NumPoints) g)
                [0..<unat NumPoints])
            @ [mkLoop (CHR ''E'')
                (tEpisodePeriod (rapidTargetTimes Baseline TimeOn ISI EpisodePeriod NumPoints))
                (ucast Reps)]" by blast
  show ?thesis
    unfolding p
    by (simp add: START_def loopScan_append loopScan_trigCmds_only
        loopScan_concat [OF loopScan_rapidTargetCmds])
      (simp add: START_def END_def)
qed

lemma loopsMatchedI: "loopScan [] p = Some ([], ps) \<Longrightarrow> loopsMatched p"
  by (auto simp: loopsMatched_iff)

lemma loopPairsI: "loopScan [] p = Some ([], ps) \<Longrightarrow> loopPairs p = Some ps"
  by (simp add: loopPairs_def)

lemma gridTimes_iter:
  "tEpisodePeriod (gridTimes Baseline TimeOn NumPulses ISI Iterations EpisodePeriod)
     = Iterations * tEpisodePeriod (gridTimes Baseline TimeOn NumPulses ISI 1 EpisodePeriod)"
  "tBaseline (gridTimes Baseline TimeOn NumPulses ISI Iterations EpisodePeriod) = Baseline * CYCLES_PER_MS"
  by (simp_all add: gridTimes_def Let_def)

lemma targetPairs_pulse:
  "NumPulses \<noteq> 1 \<Longrightarrow>
   (mkLoop START (TIME_OFFSET + of_nat k * tEpisodePeriod t + tBaseline t) (ucast NumPulses),
    mkLoop END (TIME_OFFSET + of_nat k * tEpisodePeriod t + tBaseline t + ucast NumPulses * tISI t)
      (ucast NumPulses))
   \<in> set (targetPairs t NumPulses Iterations k)"
  by (simp add: targetPairs_def Let_def START_def END_def TIME_OFFSET_def)

lemma targetPairs_iter:
  "Iterations > 1 \<Longrightarrow>
   (mkLoop START (TIME_OFFSET + of_nat k * tEpisodePeriod t) (ucast Iterations),
    mkLoop END (TIME_OFFSET + of_nat k * tEpisodePeriod t + tEpisodePeriod t) (ucast Iterations))
   \<in> set (targetPairs t NumPulses Iterations k)"
  by (simp add: targetPairs_def Let_def START_def END_def TIME_OFFSET_def)

lemma buildGrid_prot_total:
  "\<exists>p. buildGrid_prot lm Baseline TimeOn NumPulses ISI Iterations EpisodePeriod Reps Dims StartPos
          Spacing ScaleFactor CenterOffset Trig RotAngle = Some p"
  using buildGrid_loopScan by blast

lemma galvoCoords_total:
  "\<not> dne RotAngle (Finite 0) \<or> NumPoints \<noteq> 0 \<Longrightarrow>
   \<exists>g. galvoCoords lm NumPoints pCoordArr ScaleFactor CenterOffset RotAngle = Some g"
  by (auto simp: galvoCoords_def getCentroid_def Let_def)

lemma buildTarget_prot_total:
  assumes "\<not> dne RotAngle (Finite 0) \<or> NumPoints \<noteq> 0"
  shows "\<exists>p. buildTarget_prot lm (Some f) Baseline TimeOn NumPulses ISI Iterations EpisodePeriod Reps
          NumPoints ScaleFactor CenterOffset Trig RotAngle = Some p"
  using galvoCoords_total [OF assms]
  by (simp add: buildTarget_prot_def getCoords_def Let_def split: option.splits)

lemma buildRapidTarget_prot_total:
  assumes "\<not> dne RotAngle (Finite 0) \<or> NumPoints \<noteq> 0"
  shows "\<exists>p. buildRapidTarget_prot lm (Some f) Baseline TimeOn ISI EpisodePeriod Reps
          NumPoints ScaleFactor CenterOffset Trig RotAngle = Some p"
  using galvoCoords_total [OF assms]
  by (simp add: buildRapidTarget_prot_def getCoords_def Let_def split: option.splits)

lemma buildPattern_prot_total:
  assumes "\<not> dne RotAngle (Finite 0) \<or> (word_of_int n :: u16) \<noteq> 0"
  shows "\<exists>p. buildPattern_prot lm (Some (n # f)) Baseline TimeOn NumPulses ISI Iterations EpisodePeriod
          Reps StartPos Spacing ScaleFactor CenterOffset Trig RotAngle = Some p"
  using galvoCoords_total [OF assms]
  by (simp add: buildPattern_prot_def getPattern_def getNumPoints_def Let_def split: option.splits)
    

text \<open>The commands of every generator have valid characters.\<close>

lemma validChars_mk [simp]:
  "validChars (mkMove ch cy v)"
  "validChars (mkRel cy ch v)"
  "validChars (mkLoop (CHR ''S'') cy n)"
  "validChars (mkLoop (CHR ''E'') cy n)"
  "validChars (mkTrigOut cy tr)"
  "validChars (mkTrigIn cy (CHR ''U''))"
  by (simp_all add: validChars_def mk_defs NUL_def)

lemma validChars_trigCmds [simp]: "c \<in> set (trigCmds Trig t) \<Longrightarrow> validChars c"
  by (cases Trig) (auto simp: trigCmds_def)

lemma validChars_pulseCmds [simp]: "c \<in> set (pulseCmds n s t e) \<Longrightarrow> validChars c"
  by (auto simp: pulseCmds_def split: if_splits)

lemma validChars_targetCmds: "c \<in> set (targetCmds t n i tr g k) \<Longrightarrow> validChars c"
  by (auto simp: targetCmds_def Let_def split: if_splits)

lemma validChars_rapidTargetCmds: "c \<in> set (rapidTargetCmds t g m) \<Longrightarrow> validChars c"
  by (auto simp: rapidTargetCmds_def Let_def)

lemma validChars_gridShape: "c \<in> set (gridShape t n i r d tr g v) \<Longrightarrow> validChars c"
  by (auto simp: gridShape_def gridTail_def Let_def split: if_splits)

lemma generators_validChars:
  "\<forall>c \<in> set (buildSpot_prot Baseline TimeOn NumPulses ISI EpisodePeriod Reps Pos ScaleFactor
      CenterOffset Trig). validChars c"
  "buildGrid_prot lm Baseline TimeOn NumPulses ISI Iterations EpisodePeriod Reps Dims StartPos
          Spacing ScaleFactor CenterOffset Trig RotAngle = Some p1 \<Longrightarrow> \<forall>c \<in> set p1. validChars c"
  "buildTarget_prot lm TargetFile Baseline TimeOn NumPulses ISI Iterations EpisodePeriod Reps
          NumPoints ScaleFactor CenterOffset Trig RotAngle = Some p2 \<Longrightarrow> \<forall>c \<in> set p2. validChars c"
  "\<forall>c \<in> set (buildRapidGrid_prot Baseline TimeOn ISI EpisodePeriod Reps Dims StartPos Spacing
        ScaleFactor CenterOffset Trig RotAngle). validChars c"
  "buildRapidTarget_prot lm TargetFile Baseline TimeOn ISI EpisodePeriod Reps NumPoints
          ScaleFactor CenterOffset Trig RotAngle = Some p3 \<Longrightarrow> \<forall>c \<in> set p3. validChars c"
  "buildPattern_prot lm PatternFile Baseline TimeOn NumPulses ISI Iterations EpisodePeriod Reps
          StartPos Spacing ScaleFactor CenterOffset Trig RotAngle = Some p4 \<Longrightarrow> \<forall>c \<in> set p4. validChars c"
proof -
  show "\<forall>c \<in> set (buildSpot_prot Baseline TimeOn NumPulses ISI EpisodePeriod Reps Pos ScaleFactor
      CenterOffset Trig). validChars c"
    by (auto simp: buildSpot_prot_eq Let_def split: if_splits)
  show "\<forall>c \<in> set (buildRapidGrid_prot Baseline TimeOn ISI EpisodePeriod Reps Dims StartPos Spacing
        ScaleFactor CenterOffset Trig RotAngle). validChars c"
    by (auto simp: buildRapidGrid_prot_eq Let_def)
  show "\<forall>c \<in> set p1. validChars c"
    if "buildGrid_prot lm Baseline TimeOn NumPulses ISI Iterations EpisodePeriod Reps Dims StartPos
          Spacing ScaleFactor CenterOffset Trig RotAngle = Some p1"
  proof (cases "dne RotAngle (Finite 0)")
    case False
    then have "RotAngle = Finite 0" by (simp add: dne_def)
    then show ?thesis using that validChars_gridShape by (auto simp: buildGrid_prot_eq0)
  next
    case True
    from buildGrid_prot_eq1 [OF True] that show ?thesis
      using validChars_gridShape by (metis option.inject)
  qed
  show "\<forall>c \<in> set p2. validChars c"
    if "buildTarget_prot lm TargetFile Baseline TimeOn NumPulses ISI Iterations EpisodePeriod Reps
          NumPoints ScaleFactor CenterOffset Trig RotAngle = Some p2"
    using buildTarget_prot_Some [OF that] validChars_targetCmds by auto
  show "\<forall>c \<in> set p3. validChars c"
    if "buildRapidTarget_prot lm TargetFile Baseline TimeOn ISI EpisodePeriod Reps NumPoints
          ScaleFactor CenterOffset Trig RotAngle = Some p3"
    using buildRapidTarget_prot_Some [OF that] validChars_rapidTargetCmds by auto
  show "\<forall>c \<in> set p4. validChars c"
    if "buildPattern_prot lm PatternFile Baseline TimeOn NumPulses ISI Iterations EpisodePeriod Reps
          StartPos Spacing ScaleFactor CenterOffset Trig RotAngle = Some p4"
    using buildPattern_prot_Some [OF that] validChars_targetCmds by auto
qed

text \<open>\<open>dec\<close> writes the decimal digits of its argument.\<close>

lemma of_char_digit: "d < 10 \<Longrightarrow> of_char (digit d) = 48 + d"
proof -
  assume "d < 10"
  then have "d \<in> {0, 1, 2, 3, 4, 5, 6, 7, 8, 9}" by auto
  then show ?thesis by (auto simp: digit_def)
qed

lemma dec_value: "foldl (\<lambda>a ch. 10 * a + (of_char ch - 48)) 0 (dec n) = n"
proof (induction n rule: dec.induct)
  case (1 n)
  show ?case
  proof (cases "n < 10")
    case True
    then show ?thesis using of_char_digit [of n] by (subst dec.simps) simp
  next
    case False
    have "of_char (digit (n mod 10)) = 48 + n mod 10"
      by (rule of_char_digit) simp
    then show ?thesis using False 1 by (subst dec.simps) simp
  qed
qed

lemma buildSpot_prot_example:
  "buildSpot_prot 400 200 1 400 2000 1 \<lparr>X = 450, Y = 400\<rparr> 2 \<lparr>X = 716, Y = 206\<rparr> T_NONE
    = [mkMove 4 0 532, mkMove 3 0 (- 388), mkLoop (CHR ''S'') 0 1, mkTrigOut 40000 4,
       mkTrigOut 60000 0, mkLoop (CHR ''E'') 200050 1]"
  by (simp add: buildSpot_prot_eq Let_def convertCoord_0 trigCmds_def spotTimes_def
      CYCLES_PER_MS_def)

text \<open>The loops of \<open>calcScaling\<close>.\<close>

lemma galvoRatios_eq: "galvoRatios pts = concat (map (pairRatioList pts) (indexPairs (length pts)))"
  by (simp add: galvoRatios_def)

lemma padded_update:
  "length rs < M \<Longrightarrow> (padded rs M)[length rs := r] = padded (rs @ [r]) M"
proof -
  assume "length rs < M"
  then obtain k where k: "M - length rs = Suc k" by (cases "M - length rs") auto
  then have "M - Suc (length rs) = k" by simp
  then show ?thesis by (simp add: padded_def k list_update_append)
qed

lemma storeRatio_padded:
  assumes "length rs < M"
  shows "storeRatio g1 g2 p1 p2 (padded rs M, length rs)
    = (padded (rs @ (if dne g1 g2 then [ddiv (fabs (dsub g1 g2)) (fabs (dsub p1 p2))] else [])) M,
       length (rs @ (if dne g1 g2 then [ddiv (fabs (dsub g1 g2)) (fabs (dsub p1 p2))] else [])))"
  using assms by (simp add: storeRatio_def padded_update)

lemma pairRatios_padded:
  assumes "length rs + 2 \<le> M" and "i \<noteq> j"
  shows "pairRatios pts i (padded rs M, length rs) j
    = (padded (rs @ pairRatioList pts (i, j)) M, length (rs @ pairRatioList pts (i, j)))"
proof -
  let ?x = "if dne (galvoX (pts ! i)) (galvoX (pts ! j))
         then [ddiv (fabs (dsub (galvoX (pts ! i)) (galvoX (pts ! j))))
                 (fabs (dsub (pixelX (pts ! i)) (pixelX (pts ! j))))]
         else []"
  have a: "length rs < M" using assms(1) by simp
  have b: "length (rs @ ?x) < M" using assms(1) by simp
  show ?thesis
    unfolding pairRatios_def Let_def
    using assms(2)
    by (simp only: storeRatio_padded [OF a] storeRatio_padded [OF b]
        pairRatioList_def prod.case append_assoc) simp
qed

lemma foldl_pairs_padded:
  assumes "length rs + 2 * length prs \<le> M"
    and "\<forall>(i, j) \<in> set prs. i \<noteq> j"
  shows "foldl (\<lambda>st (i, j). pairRatios pts i st j) (padded rs M, length rs) prs
    = (padded (rs @ concat (map (pairRatioList pts) prs)) M,
       length (rs @ concat (map (pairRatioList pts) prs)))"
  using assms
proof (induction prs arbitrary: rs)
  case Nil
  then show ?case by simp
next
  case (Cons pr prs)
  obtain i j where pr: "pr = (i, j)" by (cases pr)
  have l: "length (pairRatioList pts (i, j)) \<le> 2"
    by (simp add: pairRatioList_def)
  have s: "pairRatios pts i (padded rs M, length rs) j
    = (padded (rs @ pairRatioList pts (i, j)) M, length (rs @ pairRatioList pts (i, j)))"
    using Cons.prems by (intro pairRatios_padded) (auto simp: pr)
  have "length (rs @ pairRatioList pts (i, j)) + 2 * length prs \<le> M"
    using Cons.prems(1) l by simp
  from Cons.IH [OF this] Cons.prems(2) show ?case
    by (simp add: pr s)
qed

lemma nested_foldl:
  "foldl (\<lambda>st i. foldl (f i) st (js i)) st is
    = foldl (\<lambda>st (i, j). f i st j) st (concat (map (\<lambda>i. map (Pair i) (js i)) is))"
  by (induction "is" arbitrary: st) (simp_all add: foldl_map)

lemma sum_list_bound:
  "(\<And>x. x \<in> set xs \<Longrightarrow> f x \<le> (c :: nat)) \<Longrightarrow> sum_list (map f xs) \<le> length xs * c"
  by (induction xs) (auto intro: add_mono)

lemma length_indexPairs: "length (indexPairs n) \<le> n * (n - 1)"
proof -
  have "length (indexPairs n) = sum_list (map (\<lambda>i. n - (i + 1)) [0..<n])"
    by (simp add: indexPairs_def length_concat comp_def)
  also have "\<dots> \<le> length [0..<n] * (n - 1)"
    by (rule sum_list_bound) auto
  finally show ?thesis by simp
qed

lemma indexPairs_lt: "(i, j) \<in> set (indexPairs n) \<Longrightarrow> i < j \<and> j < n"
  by (auto simp: indexPairs_def)

lemma map_nth_from: "a \<le> length xs \<Longrightarrow> map ((!) xs) [a..<length xs] = drop a xs"
proof -
  have "map ((!) xs) [a..<length xs] = map ((!) xs) (drop a [0..<length xs])"
    by (simp add: drop_upt)
  also have "\<dots> = drop a (map ((!) xs) [0..<length xs])"
    by (simp add: drop_map)
  finally show ?thesis by (simp add: map_nth)
qed

lemma foldl_index:
  "a \<le> length xs \<Longrightarrow>
   foldl (\<lambda>s k. g s (xs ! k)) s [a..<length xs] = foldl g s (drop a xs)"
  using map_nth_from [of a xs] foldl_map [of g s "(!) xs" "[a..<length xs]"] by simp

lemma foldl_zeros:
  "foldl (\<lambda>s x. if dne x (Finite 0) then ddiv (dadd s x) (Finite 2) else s) s
     (replicate k (Finite 0)) = s"
  by (induction k) (simp_all add: dne_def)

lemma average_padded:
  assumes "length rs \<le> M" and "0 < M"
  shows "foldl (\<lambda>scalefactor k.
            if dne (padded rs M ! k) (Finite 0)
            then ddiv (dadd scalefactor (padded rs M ! k)) (Finite 2) else scalefactor)
           (padded rs M ! 0) [1..<M]
         = runningAverage rs"
proof -
  have len: "length (padded rs M) = M" using assms(1) by (simp add: padded_def)
  have "foldl (\<lambda>scalefactor k.
            if dne (padded rs M ! k) (Finite 0)
            then ddiv (dadd scalefactor (padded rs M ! k)) (Finite 2) else scalefactor)
           (padded rs M ! 0) [1..<length (padded rs M)]
      = foldl (\<lambda>s x. if dne x (Finite 0) then ddiv (dadd s x) (Finite 2) else s)
          (padded rs M ! 0) (drop 1 (padded rs M))"
    using assms(2) len
    by (intro foldl_index
          [of 1 "padded rs M" "\<lambda>s x. if dne x (Finite 0) then ddiv (dadd s x) (Finite 2) else s"])
       simp
  also have "\<dots> = runningAverage rs"
  proof (cases rs)
    case Nil
    then show ?thesis using assms(2)
      by (simp add: padded_def runningAverage_def foldl_zeros)
  next
    case (Cons r rs')
    then show ?thesis
      by (simp add: padded_def runningAverage_def foldl_zeros)
  qed
  finally show ?thesis by (simp add: len)
qed

lemma Nmax_bounds:
  assumes "2 \<le> n" and "n < 32769"
  shows "2 * n * (n - 1) \<noteq> 0" and "\<not> (2 :: nat) ^ 31 \<le> 2 * n * (n - 1)"
proof -
  show "2 * n * (n - 1) \<noteq> 0" using assms(1) by simp
  have "n * (n - 1) \<le> 32768 * 32767"
    using assms(2) by (intro mult_le_mono) simp_all
  then show "\<not> (2 :: nat) ^ 31 \<le> 2 * n * (n - 1)" by simp
qed

lemma calcScaling_running_average:
  assumes len: "length pts = unat NumPoints"
    and n2: "2 \<le> unat NumPoints" and n3: "unat NumPoints < 32769"
  shows "calcScaling NumPoints pts
    = Some (to_int64 (dround (runningAverage (galvoRatios pts))))"
proof -
  define n where "n = unat NumPoints"
  define M where "M = 2 * n * (n - 1)"
  have M: "M \<noteq> 0" "\<not> (2 :: nat) ^ 31 \<le> M"
    using Nmax_bounds [of n] n2 n3 by (simp_all add: M_def n_def)
  have lenp: "2 * length (indexPairs n) \<le> M"
    using length_indexPairs [of n] by (simp add: M_def)
  have cond: "\<forall>(i, j) \<in> set (indexPairs n). i \<noteq> j"
    using indexPairs_lt [of _ _ n] by fastforce
  have init: "(replicate M (Finite 0), 0 :: nat) = (padded [] M, length ([] :: double list))"
    by (simp add: padded_def)
  have loop: "foldl (\<lambda>st i. foldl (pairRatios pts i) st [i + 1..<n]) (replicate M (Finite 0), 0) [0..<n]
      = (padded (galvoRatios pts) M, length (galvoRatios pts))"
    unfolding nested_foldl init indexPairs_def [symmetric]
    using foldl_pairs_padded [of "[]" "indexPairs n" M pts] lenp cond
    by (simp add: galvoRatios_eq len n_def)
  have lr: "length (galvoRatios pts) \<le> M"
  proof -
    have "length (pairRatioList pts pr) \<le> 2" for pr
      by (cases pr) (simp add: pairRatioList_def)
    then have "sum_list (map (\<lambda>pr. length (pairRatioList pts pr)) (indexPairs n))
        \<le> length (indexPairs n) * 2"
      by (intro sum_list_bound) simp
    then show ?thesis using lenp
      by (simp add: galvoRatios_eq len n_def [symmetric] length_concat comp_def)
  qed
  show ?thesis
    unfolding calcScaling_def Let_def n_def [symmetric] M_def [symmetric]
    using M loop average_padded [OF lr] by simp
qed

lemma calcScaling_example:
  "calcScaling 3 [(Finite 0, Finite 0, Finite 0, Finite 0),
       (Finite 100, Finite 0, Finite 50, Finite 0),
       (Finite 0, Finite 100, Finite 0, Finite 50)] = Some 2"
  by (simp add: calcScaling_def Let_def pairRatios_def storeRatio_def galvoX_def galvoY_def
      pixelX_def pixelY_def upt_rec c_round_def c_trunc_def dne_def dsub_def)

text \<open>
  Two runs in which the rounding of doubles decides the result. For the calibration points
  (12, 12, 3, 6), (9, 10, 1, 0) and (12, 12, 5, 12), the ratios are 3/2, 1/3, 3/4 and 1/6,
  of which the second and the fourth are not doubles; the running average of the rounded
  values, each sum and each half rounded again, is \<open>(2^53 - 1) / 2^54\<close>, below one half, and
  \<open>calcScaling\<close> returns 0. For the point (160275817, 0), the center (0, 0) and the angle 1,
  with the doubles that \<open>cos(1.0)\<close> and \<open>sin(1.0)\<close> are in the GNU C library, the product of
  the X offset and the cosine rounds to 86597393.5 and \<open>rotateCoord\<close> returns 86597394.
\<close>

lemma indexPairs_3: "indexPairs 3 = [(0, 1), (0, 2), (1, 2)]"
  by (simp add: indexPairs_def upt_rec)

lemma calcScaling_rounding_example:
  "calcScaling 3 [(Finite 12, Finite 12, Finite 3, Finite 6),
       (Finite 9, Finite 10, Finite 1, Finite 0),
       (Finite 12, Finite 12, Finite 5, Finite 12)] = Some 0"
proof -
  have d1: "to_double (3 / 2) = Finite (3 / 2)"
    using to_double_scaled [of "3 / 2" 52] by (simp add: rne_def)
  have d2: "to_double (1 / 3) = Finite (6004799503160661 / 18014398509481984)"
    using to_double_scaled [of "1 / 3" 54] by (simp add: rne_def)
  have d3: "to_double (3 / 4) = Finite (3 / 4)"
    using to_double_scaled [of "3 / 4" 53] by (simp add: rne_def)
  have d4: "to_double (1 / 6) = Finite (6004799503160661 / 36028797018963968)"
    using to_double_scaled [of "1 / 6" 55] by (simp add: rne_def)
  have a1: "dadd (Finite (3 / 2)) (Finite (6004799503160661 / 18014398509481984))
      = Finite (8256599316845909 / 4503599627370496)"
    using to_double_scaled [of "3 / 2 + 6004799503160661 / 18014398509481984" 52]
    by (simp add: rne_def)
  have h1: "ddiv (Finite (8256599316845909 / 4503599627370496)) (Finite 2)
      = Finite (8256599316845909 / 9007199254740992)"
    using to_double_scaled [of "8256599316845909 / 4503599627370496 / 2" 53]
    by (simp add: rne_def)
  have a2: "dadd (Finite (8256599316845909 / 9007199254740992)) (Finite (3 / 4))
      = Finite (3752999689475413 / 2251799813685248)"
    using to_double_scaled [of "8256599316845909 / 9007199254740992 + 3 / 4" 52]
    by (simp add: rne_def)
  have h2: "ddiv (Finite (3752999689475413 / 2251799813685248)) (Finite 2)
      = Finite (3752999689475413 / 4503599627370496)"
    using to_double_scaled [of "3752999689475413 / 2251799813685248 / 2" 53]
    by (simp add: rne_def)
  have a3: "dadd (Finite (3752999689475413 / 4503599627370496))
        (Finite (6004799503160661 / 36028797018963968))
      = Finite (9007199254740991 / 9007199254740992)"
    using to_double_scaled
      [of "3752999689475413 / 4503599627370496 + 6004799503160661 / 36028797018963968" 53]
    by (simp add: rne_def)
  have h3: "ddiv (Finite (9007199254740991 / 9007199254740992)) (Finite 2)
      = Finite (9007199254740991 / 18014398509481984)"
    using to_double_scaled [of "9007199254740991 / 9007199254740992 / 2" 54]
    by (simp add: rne_def)
  have gr: "galvoRatios [(Finite 12, Finite 12, Finite 3, Finite 6),
         (Finite 9, Finite 10, Finite 1, Finite 0), (Finite 12, Finite 12, Finite 5, Finite 12)]
      = [Finite (3 / 2), Finite (6004799503160661 / 18014398509481984), Finite (3 / 4),
         Finite (6004799503160661 / 36028797018963968)]"
    using indexPairs_3
    by (simp add: galvoRatios_def pairRatioList_def numeral_3_eq_3 galvoX_def galvoY_def
        pixelX_def pixelY_def dne_def dsub_def d1 d2 d3 d4)
  have ra: "runningAverage [Finite (3 / 2), Finite (6004799503160661 / 18014398509481984),
         Finite (3 / 4), Finite (6004799503160661 / 36028797018963968)]
      = Finite (9007199254740991 / 18014398509481984)"
    by (simp add: runningAverage_def dne_def a1 h1 a2 h2 a3 h3 del: dadd.simps ddiv.simps)
  show ?thesis
    using calcScaling_running_average [of "[(Finite 12, Finite 12, Finite 3, Finite 6),
         (Finite 9, Finite 10, Finite 1, Finite 0), (Finite 12, Finite 12, Finite 5, Finite 12)]" 3]
    by (simp add: gr ra c_round_def c_trunc_def)
qed

lemma rotateCoord_rounding_example:
  assumes "c_cos lm (Finite 1) = Finite (1216652631687587 / 2251799813685248)"
    and "c_sin lm (Finite 1) = Finite (3789648413623927 / 4503599627370496)"
  shows "rotateCoord lm \<lparr>X = 160275817, Y = 0\<rparr> \<lparr>X = 0, Y = 0\<rparr> (Finite 1)
    = \<lparr>X = 86597394, Y = 134867450\<rparr>"
proof -
  have x: "d_of_int 160275817 = Finite 160275817"
    using d_of_int_exact [of 160275817] by simp
  have pc: "to_double (194999994548928095183579 / 2251799813685248) = Finite (173194787 / 2)"
    using to_double_scaled [of "194999994548928095183579 / 2251799813685248" 26]
    by (simp add: rne_def)
  have ps: "to_double (607388995636328830673359 / 4503599627370496)
      = Finite (4525400665673083 / 33554432)"
    using to_double_scaled [of "607388995636328830673359 / 4503599627370496" 25]
    by (simp add: rne_def)
  have rc: "to_double (173194787 / 2) = Finite (173194787 / 2)"
    using to_double_scaled [of "173194787 / 2" 26] by (simp add: rne_def)
  have rs: "to_double (4525400665673083 / 33554432) = Finite (4525400665673083 / 33554432)"
    using to_double_scaled [of "4525400665673083 / 33554432" 25] by (simp add: rne_def)
  show ?thesis
    unfolding rotateCoord_def Let_def Coord.simps assms
    by (simp add: x d_of_int_def dsub_def pc ps rc rs c_round_def c_trunc_def)
qed

lemma libm_rn_0: "c_cos libm_rn (Finite 0) = Finite 1" "c_sin libm_rn (Finite 0) = Finite 0"
  by (simp_all add: libm_rn_def)

lemma rne_abs_le1: "\<bar>real_of_int (rne y)\<bar> \<le> \<bar>y\<bar> + 1"
  using rne_bounds [of y] by linarith

lemma to_double_finite:
  assumes "\<bar>r\<bar> \<le> 1"
  shows "\<exists>v. to_double r = Finite v"
proof (cases "r = 0")
  case True
  then show ?thesis by simp
next
  case False
  define e where "e = max \<lfloor>log 2 \<bar>r\<bar>\<rfloor> (- 1022)"
  define u where "u = pow2 (e - 52)"
  define v where "v = real_of_int (rne (r / u)) * u"
  have "log 2 \<bar>r\<bar> \<le> 0" using assms False by (simp add: log_le_zero_cancel_iff)
  then have "\<lfloor>log 2 \<bar>r\<bar>\<rfloor> \<le> 0" by linarith
  then have e: "e \<le> 0" by (simp add: e_def)
  then have u: "u = 1 / 2 ^ nat (52 - e)" by (simp add: u_def pow2_def)
  have u0: "0 < u" by (simp add: u)
  have "1 \<le> (2::real) ^ nat (52 - e)" by simp
  then have u1: "u \<le> 1" unfolding u by (simp add: divide_le_eq)
  have "\<bar>v\<bar> = \<bar>real_of_int (rne (r / u))\<bar> * u" using u0 by (simp add: v_def abs_mult)
  also have "\<dots> \<le> (\<bar>r / u\<bar> + 1) * u"
    using rne_abs_le1 [of "r / u"] u0 by (intro mult_right_mono) simp_all
  also have "\<dots> = \<bar>r\<bar> + u" using u0 by (simp add: field_simps)
  finally have "\<bar>v\<bar> \<le> 2" using assms u1 by linarith
  moreover have "2 < DBL_MAX" by (simp add: DBL_MAX_def)
  ultimately have "\<not> DBL_MAX < v" "\<not> v < - DBL_MAX" by linarith+
  then show ?thesis
    using False
    by (simp add: to_double_def Let_def e_def [symmetric] u_def [symmetric] v_def [symmetric])
qed

lemma libm_rn_finite:
  "\<exists>cv sv. c_cos libm_rn (Finite x) = Finite cv \<and> c_sin libm_rn (Finite x) = Finite sv"
  using to_double_finite [of "cos x"] to_double_finite [of "sin x"]
  by (simp add: libm_rn_def)

text \<open>
  With one point, the centroid is the point, and the rotation in \<open>galvoCoords\<close> replaces the
  point by what \<open>rotateCoord\<close> returns for the center.
\<close>

lemma galvoCoords_one_point:
  assumes "dne RotAngle (Finite 0)"
  shows "galvoCoords lm 1 [q] ScaleFactor CenterOffset RotAngle
    = Some [convertCoord (rotateCoord lm q q RotAngle) ScaleFactor CenterOffset 0]"
proof -
  have "getCentroid 1 [q] = Some q"
    by (simp add: getCentroid_def c_div_def c_round_of_int sgn_mult_abs)
  then show ?thesis using assms by (simp add: galvoCoords_def)
qed

section \<open>Claims\<close>

text \<open>
  C10. For every cycle and every edge argument, when its node is allocated \<open>appendTrigIn\<close>
  returns 0 and appends exactly one command, on the trigger channel 7 with value 0, whose
  scan character is U for edge 1, D for edge 2 and U for every other edge value.
\<close>

theorem appendTrigIn_one_command:
  "appendTrigIn True p cycle edge =
     (0, p @ [\<lparr>DSPCmd = CHR ''A'',
               ScanCmd = (if edge = 2 then CHR ''D'' else CHR ''U''),
               Cycle = cycle, Channel = 7, Value = 0\<rparr>])"
  by (simp add: appendTrigIn_def reassignPointers_def calloc_CmdLine_def TRIG_def Let_def)

text \<open>
  C1 (as the code has it). For every input with \<open>NumPulses = 1\<close> and no trigger,
  \<open>buildSpot\<close> emits exactly six commands, in this order: the move of X (channel 4) and the
  move of Y (channel 3) at cycle 0, the start of the outer loop, pulse-on at the baseline
  converted to cycles, pulse-off at (baseline + timeOn) converted to cycles, and the end of
  the outer loop. The two moves come before the start of the loop, not after it.
\<close>

theorem buildSpot_single_pulse:
  "buildSpot_prot Baseline TimeOn 1 ISI EpisodePeriod Reps Pos ScaleFactor CenterOffset T_NONE =
     [mkMove ch_X 0 (gX (convertCoord Pos ScaleFactor CenterOffset 0)),
      mkMove ch_Y 0 (gY (convertCoord Pos ScaleFactor CenterOffset 0)),
      mkLoop START 0 (ucast Reps),
      mkTrigOut (Baseline * CYCLES_PER_MS) TL_DH,
      mkTrigOut ((Baseline + TimeOn) * CYCLES_PER_MS) TL_DL,
      mkLoop END
        (tEpisodePeriod (spotTimes Baseline TimeOn 1 ISI EpisodePeriod) * ucast Reps + PROT_PERIOD)
        (ucast Reps)]"
  by (simp add: buildSpot_prot_eq Let_def trigCmds_def ch_X_def ch_Y_def START_def END_def
      TL_DH_def TL_DL_def PROT_PERIOD_def spotTimes_def distrib_right)

text \<open>
  C1 as stated fails: with \<open>NumPulses = 1\<close> and no trigger the first command of \<open>buildSpot\<close>
  is the move of X and the start of the outer loop is the third command.
\<close>

theorem buildSpot_loop_start_first_counterexample:
  "map (\<lambda>c. (ScanCmd c, Channel c))
       (buildSpot_prot 1 1 1 1 1 1 \<lparr>X = 0, Y = 0\<rparr> 1 \<lparr>X = 0, Y = 0\<rparr> T_NONE)
     = [(CHR ''V'', 4), (CHR ''V'', 3), (CHR ''S'', 9), (CHR ''V'', 7), (CHR ''V'', 7), (CHR ''E'', 9)]
   \<and> map (\<lambda>c. (ScanCmd c, Channel c))
        (buildSpot_prot 1 1 1 1 1 1 \<lparr>X = 0, Y = 0\<rparr> 1 \<lparr>X = 0, Y = 0\<rparr> T_NONE)
     \<noteq> [(CHR ''S'', 9), (CHR ''V'', 4), (CHR ''V'', 3), (CHR ''V'', 7), (CHR ''V'', 7), (CHR ''E'', 9)]"
  by (simp add: buildSpot_prot_eq Let_def trigCmds_def mkMove_def mkLoop_def mkTrigOut_def)

text \<open>
  C4 at the parameters of the test program \<open>sctest.c\<close> (baseline 400, pulse width 200, 5
  pulses, ISI 400, episode period 2000, one repetition): the commands of \<open>buildSpot\<close> that
  bear a trigger are at the cycles below. With either trigger mode the first of them is at
  cycle 0, not at \<open>TIME_OFFSET\<close> or later.
\<close>

theorem buildSpot_trigger_cycles:
  "map Cycle (filter trigBearing
      (buildSpot_prot 400 200 5 400 2000 1 Pos ScaleFactor CenterOffset T_OUT))
     = [0, 10, 40000, 60000]
   \<and> map Cycle (filter trigBearing
        (buildSpot_prot 400 200 5 400 2000 1 Pos ScaleFactor CenterOffset T_IN))
     = [0, 40000, 60000]"
  by (simp add: buildSpot_prot_eq Let_def trigCmds_def mkMove_def mkLoop_def mkTrigOut_def
      mkTrigIn_def trigBearing_def TRIG_def spotTimes_def CYCLES_PER_MS_def)

text \<open>
  C6, at the inputs where the arithmetic of doubles is exact. \<open>rotateCoord\<close> subtracts the
  center from the point, rotates the offset, rounds it and returns it: it does not add the
  center back. At every angle of which the C library gives a finite cosine and sine, the
  center itself is returned as (0, 0). At the angle 0, of which every C library gives the
  cosine 1 and the sine 0, a point \<open>p\<close> is returned as \<open>p - c\<close> (for offsets in the range of an
  \<open>int\<close>). \<open>buildTarget\<close>, \<open>buildRapidTarget\<close> and \<open>buildPattern\<close> take what is returned as the
  rotated point: of a single point, which is its own centroid, they convert the pixel
  (0, 0) where the angle is not 0.
\<close>

theorem rotateCoord_center_not_added:
  "(c_cos lm RotAngle = Finite cv \<and> c_sin lm RotAngle = Finite sv \<longrightarrow>
      rotateCoord lm c c RotAngle = \<lparr>X = 0, Y = 0\<rparr>)
   \<and> (c_cos lm (Finite 0) = Finite 1 \<and> c_sin lm (Finite 0) = Finite 0
        \<and> - (2 ^ 31) \<le> X p - X c \<and> X p - X c < 2 ^ 31
        \<and> - (2 ^ 31) \<le> Y p - Y c \<and> Y p - Y c < 2 ^ 31 \<longrightarrow>
      rotateCoord lm p c (Finite 0) = \<lparr>X = X p - X c, Y = Y p - Y c\<rparr>)
   \<and> (c_cos lm RotAngle = Finite cv \<and> c_sin lm RotAngle = Finite sv \<and> dne RotAngle (Finite 0) \<longrightarrow>
      galvoCoords lm 1 [q] ScaleFactor CenterOffset RotAngle
        = Some [convertCoord \<lparr>X = 0, Y = 0\<rparr> ScaleFactor CenterOffset 0])"
proof (intro conjI impI)
  assume "c_cos lm RotAngle = Finite cv \<and> c_sin lm RotAngle = Finite sv"
  then show "rotateCoord lm c c RotAngle = \<lparr>X = 0, Y = 0\<rparr>"
    using rotateCoord_center by blast
next
  assume "c_cos lm (Finite 0) = Finite 1 \<and> c_sin lm (Finite 0) = Finite 0
        \<and> - (2 ^ 31) \<le> X p - X c \<and> X p - X c < 2 ^ 31
        \<and> - (2 ^ 31) \<le> Y p - Y c \<and> Y p - Y c < 2 ^ 31"
  then show "rotateCoord lm p c (Finite 0) = \<lparr>X = X p - X c, Y = Y p - Y c\<rparr>"
    using rotateCoord_exact [of lm "Finite 0" p c] by blast
next
  assume a: "c_cos lm RotAngle = Finite cv \<and> c_sin lm RotAngle = Finite sv \<and> dne RotAngle (Finite 0)"
  then have "rotateCoord lm q q RotAngle = \<lparr>X = 0, Y = 0\<rparr>"
    using rotateCoord_center by blast
  then show "galvoCoords lm 1 [q] ScaleFactor CenterOffset RotAngle
        = Some [convertCoord \<lparr>X = 0, Y = 0\<rparr> ScaleFactor CenterOffset 0]"
    using a galvoCoords_one_point [of RotAngle lm q ScaleFactor CenterOffset] by simp
qed

text \<open>
  The point (5, 5) rotated about the center (1, 1) by the angle 0 is returned as (4, 4),
  and the center (1, 1) as (0, 0). The single target (5, 5), rotated by the angle 1 with a
  correctly rounded cosine and sine, is converted as the pixel (0, 0): with the scale
  factor 2 and the center offset (716, 206) to the galvo position (1432, 412).
\<close>

theorem rotateCoord_center_not_added_witness:
  "rotateCoord libm_rn \<lparr>X = 1, Y = 1\<rparr> \<lparr>X = 1, Y = 1\<rparr> (Finite 0) = \<lparr>X = 0, Y = 0\<rparr>
   \<and> rotateCoord libm_rn \<lparr>X = 5, Y = 5\<rparr> \<lparr>X = 1, Y = 1\<rparr> (Finite 0) = \<lparr>X = 4, Y = 4\<rparr>
   \<and> galvoCoords libm_rn 1 [\<lparr>X = 5, Y = 5\<rparr>] 2 \<lparr>X = 716, Y = 206\<rparr> (Finite 1)
       = Some [\<lparr>gX = 1432, gY = 412\<rparr>]"
proof -
  have a: "rotateCoord libm_rn \<lparr>X = 1, Y = 1\<rparr> \<lparr>X = 1, Y = 1\<rparr> (Finite 0) = \<lparr>X = 0, Y = 0\<rparr>"
    using rotateCoord_center_not_added [where lm = libm_rn and RotAngle = "Finite 0"
        and cv = 1 and sv = 0 and c = "\<lparr>X = 1, Y = 1\<rparr>", THEN conjunct1]
    by (simp add: libm_rn_0)
  have b: "rotateCoord libm_rn \<lparr>X = 5, Y = 5\<rparr> \<lparr>X = 1, Y = 1\<rparr> (Finite 0) = \<lparr>X = 4, Y = 4\<rparr>"
    using rotateCoord_center_not_added [where lm = libm_rn and p = "\<lparr>X = 5, Y = 5\<rparr>"
        and c = "\<lparr>X = 1, Y = 1\<rparr>", THEN conjunct2, THEN conjunct1]
    by (simp add: libm_rn_0)
  obtain cv sv where f: "c_cos libm_rn (Finite 1) = Finite cv" "c_sin libm_rn (Finite 1) = Finite sv"
    using libm_rn_finite [of 1] by blast
  have c: "galvoCoords libm_rn 1 [\<lparr>X = 5, Y = 5\<rparr>] 2 \<lparr>X = 716, Y = 206\<rparr> (Finite 1)
       = Some [\<lparr>gX = 1432, gY = 412\<rparr>]"
    using rotateCoord_center_not_added
      [where lm = libm_rn and RotAngle = "Finite 1" and cv = cv and sv = sv
        and q = "\<lparr>X = 5, Y = 5\<rparr>" and ScaleFactor = 2 and CenterOffset = "\<lparr>X = 716, Y = 206\<rparr>",
        THEN conjunct2, THEN conjunct2]
      f
    by (simp add: dne_def convertCoord_0)
  from a b c show ?thesis by blast
qed

text \<open>
  C8 (as the code has it). When the ISI converts to cycles without overflow of 32 bits
  (\<open>ISI * 100 < 2^32\<close>), the coerced ISI in cycles that each generator uses is at least
  the pulse width in cycles.
\<close>

theorem coerced_ISI_cycles_ge_pulse_width:
  assumes "unat ISI * 100 < 2 ^ 32"
  shows "tTimeOn (spotTimes Baseline TimeOn NumPulses ISI EpisodePeriod)
           \<le> tISI (spotTimes Baseline TimeOn NumPulses ISI EpisodePeriod)
       \<and> tTimeOn (gridTimes Baseline TimeOn NumPulses ISI Iterations EpisodePeriod)
           \<le> tISI (gridTimes Baseline TimeOn NumPulses ISI Iterations EpisodePeriod)
       \<and> tTimeOn (rapidGridTimes Baseline TimeOn ISI EpisodePeriod Dims)
           \<le> tISI (rapidGridTimes Baseline TimeOn ISI EpisodePeriod Dims)
       \<and> tTimeOn (rapidTargetTimes Baseline TimeOn ISI EpisodePeriod NumPoints)
           \<le> tISI (rapidTargetTimes Baseline TimeOn ISI EpisodePeriod NumPoints)"
  using ms_le_cycles [OF assms, of TimeOn]
  by (simp add: spotTimes_def gridTimes_def rapidGridTimes_def rapidTargetTimes_def Let_def)

theorem coerced_ISI_cycles_ge_pulse_width_witness:
  "tTimeOn (spotTimes 400 200 5 400 2000) \<le> tISI (spotTimes 400 200 5 400 2000)
   \<and> tTimeOn (gridTimes 400 200 5 400 10 2000) \<le> tISI (gridTimes 400 200 5 400 10 2000)
   \<and> tTimeOn (rapidGridTimes 400 200 400 2000 \<lparr>X = 5, Y = 5\<rparr>)
       \<le> tISI (rapidGridTimes 400 200 400 2000 \<lparr>X = 5, Y = 5\<rparr>)
   \<and> tTimeOn (rapidTargetTimes 400 200 400 2000 256) \<le> tISI (rapidTargetTimes 400 200 400 2000 256)"
proof -
  have h: "unat (400 :: u32) * 100 < 2 ^ 32" by simp
  show ?thesis
    using coerced_ISI_cycles_ge_pulse_width [where ISI = 400 and Baseline = 400
        and TimeOn = 200 and NumPulses = 5 and EpisodePeriod = 2000 and Iterations = 10
        and Dims = "\<lparr>X = 5, Y = 5\<rparr>" and NumPoints = 256, OF h]
    by simp
qed

text \<open>
  C8 as stated fails: with a pulse width of 1 ms and an ISI of 42949673 ms the coerced ISI
  is the ISI, whose product with 100 wraps around to 4 cycles, below the 100 cycles of the
  pulse width.
\<close>

theorem coerced_ISI_overflow_counterexample:
  "tISI (spotTimes 0 1 1 42949673 0) = 4 \<and> tTimeOn (spotTimes 0 1 1 42949673 0) = 100
   \<and> \<not> tTimeOn (spotTimes 0 1 1 42949673 0) \<le> tISI (spotTimes 0 1 1 42949673 0)"
  by (simp add: spotTimes_def CYCLES_PER_MS_def)

text \<open>
  C9 (as the code has it). For every pair \<open>(gridX, gridY)\<close> of grid indices that a pass of
  the loop of \<open>getPattern\<close> reads, and every start position and spacing for which the
  arithmetic stays in the range of an \<open>int\<close>, the pixel coordinate that the pass stores has
  \<open>X = StartPos.X + (gridX - 1) * Spacing.X\<close> and \<open>Y = StartPos.Y - (gridY - 1) * Spacing.Y\<close>:
  the Y coordinate decreases with the index.
\<close>

theorem getPattern_coordinate:
  assumes "i < unat NumPoints"
    and "getPattern_reads fp (unat NumPoints) ! i = (gridX, gridY)"
    and "patternInRange StartPos Spacing (gridX, gridY)"
  shows "\<exists>CoordArr.
           getPattern (Some fp) NumPoints StartPos Spacing = Some CoordArr
         \<and> length CoordArr = unat NumPoints
         \<and> CoordArr ! i =
             \<lparr>X = X StartPos + (gridX - 1) * X Spacing,
              Y = Y StartPos - (gridY - 1) * Y Spacing\<rparr>
         \<and> in_int (X (CoordArr ! i)) \<and> in_int (Y (CoordArr ! i))"
  using assms
  by (simp add: getPattern_def getPattern_reads_def scanPairs_length patternInRange_def
      split: prod.splits)

theorem getPattern_coordinate_witness:
  "\<exists>CoordArr.
     getPattern (Some [1, 1, 2, 1, 2]) 1 \<lparr>X = 0, Y = 0\<rparr> \<lparr>X = 10, Y = 10\<rparr> = Some CoordArr
     \<and> length CoordArr = 1 \<and> CoordArr ! 0 = \<lparr>X = 0, Y = - 10\<rparr>"
proof -
  have a: "0 < unat (1 :: u16)" by simp
  have b: "getPattern_reads [1, 1, 2, 1, 2] (unat (1 :: u16)) ! 0 = (1, 2)"
    by (simp add: getPattern_reads_def)
  have c: "patternInRange \<lparr>X = 0, Y = 0\<rparr> \<lparr>X = 10, Y = 10\<rparr> (1, 2)"
    by (simp add: patternInRange_def in_int_def INT_MIN_def INT_MAX_def)
  show ?thesis
    using getPattern_coordinate [OF a b c] by auto
qed

text \<open>
  C9 as stated fails on the Y axis: for the pattern file with the lines \<open>1 1 2\<close> and \<open>1 2\<close>,
  start position (0, 0) and spacing (10, 10), the grid index (1, 2) gives the pixel
  coordinate (0, -10), where \<open>startPos + (index - 1) * spacing\<close> is (0, 10).
\<close>

theorem getPattern_Y_counterexample:
  "getPattern (Some [1, 1, 2, 1, 2]) 1 \<lparr>X = 0, Y = 0\<rparr> \<lparr>X = 10, Y = 10\<rparr>
     = Some [\<lparr>X = 0 + (1 - 1) * 10, Y = 0 - (2 - 1) * 10\<rparr>]
   \<and> getPattern (Some [1, 1, 2, 1, 2]) 1 \<lparr>X = 0, Y = 0\<rparr> \<lparr>X = 10, Y = 10\<rparr>
     \<noteq> Some [\<lparr>X = 0 + (1 - 1) * 10, Y = 0 + (2 - 1) * 10\<rparr>]"
  by (simp add: getPattern_def getPattern_reads_def)

text \<open>
  C3 (as the code has it). With \<open>n\<close> the repetition count and \<open>dt\<close> the duration of one
  iteration, the end command of a loop is at the cycle of its start command plus \<open>n * dt\<close>
  (in 32-bit arithmetic) for the pulse-train loop of every point of \<open>buildTarget\<close> and of
  \<open>buildPattern\<close> (\<open>dt\<close> the ISI in cycles) and for the per-spot iteration loop of
  \<open>buildTarget\<close>, \<open>buildPattern\<close> and \<open>buildGrid\<close> (\<open>dt\<close> the coerced episode period in
  cycles). The outer master loop of \<open>buildSpot\<close> ends \<open>PROT_PERIOD\<close> cycles later: at its
  start plus \<open>Reps\<close> times the episode period in cycles plus \<open>PROT_PERIOD\<close>.
\<close>

theorem loop_end_cycles:
  "(\<exists>inner.
      loopPairs (buildSpot_prot Baseline TimeOn NumPulses ISI EpisodePeriod Reps Pos ScaleFactor
                   CenterOffset Trig)
        = Some (inner @
            [(mkLoop START 0 (ucast Reps),
              mkLoop END
                (0 + ucast Reps * tEpisodePeriod (spotTimes Baseline TimeOn NumPulses ISI EpisodePeriod)
                   + PROT_PERIOD)
                (ucast Reps))]))
   \<and> (\<forall>p k. buildTarget_prot lm TargetFile Baseline TimeOn NumPulses ISI Iterations EpisodePeriod Reps
                 NumPoints ScaleFactor CenterOffset Trig RotAngle = Some p \<and> k < unat NumPoints \<longrightarrow>
          (\<exists>ps t dt NextEpisode NextPulse.
              loopPairs p = Some ps
            \<and> t = gridTimes Baseline TimeOn NumPulses ISI Iterations EpisodePeriod
            \<and> dt = tEpisodePeriod (gridTimes Baseline TimeOn NumPulses ISI 1 EpisodePeriod)
            \<and> NextEpisode = TIME_OFFSET + of_nat k * tEpisodePeriod t
            \<and> NextPulse = NextEpisode + tBaseline t
            \<and> (NumPulses \<noteq> 1 \<longrightarrow>
                 (mkLoop START NextPulse (ucast NumPulses),
                  mkLoop END (NextPulse + ucast NumPulses * tISI t) (ucast NumPulses)) \<in> set ps)
            \<and> (Iterations > 1 \<longrightarrow>
                 (mkLoop START NextEpisode (ucast Iterations),
                  mkLoop END (NextEpisode + Iterations * dt) (ucast Iterations)) \<in> set ps)))
   \<and> (\<forall>p n k. buildPattern_prot lm PatternFile Baseline TimeOn NumPulses ISI Iterations EpisodePeriod Reps
                 StartPos Spacing ScaleFactor CenterOffset Trig RotAngle = Some p
               \<and> getNumPoints PatternFile = Some n \<and> k < unat (word_of_int n :: u16) \<longrightarrow>
          (\<exists>ps t dt NextEpisode NextPulse.
              loopPairs p = Some ps
            \<and> t = gridTimes Baseline TimeOn NumPulses ISI Iterations EpisodePeriod
            \<and> dt = tEpisodePeriod (gridTimes Baseline TimeOn NumPulses ISI 1 EpisodePeriod)
            \<and> NextEpisode = TIME_OFFSET + of_nat k * tEpisodePeriod t
            \<and> NextPulse = NextEpisode + tBaseline t
            \<and> (NumPulses \<noteq> 1 \<longrightarrow>
                 (mkLoop START NextPulse (ucast NumPulses),
                  mkLoop END (NextPulse + ucast NumPulses * tISI t) (ucast NumPulses)) \<in> set ps)
            \<and> (Iterations > 1 \<longrightarrow>
                 (mkLoop START NextEpisode (ucast Iterations),
                  mkLoop END (NextEpisode + Iterations * dt) (ucast Iterations)) \<in> set ps)))
   \<and> (\<forall>p. buildGrid_prot lm Baseline TimeOn NumPulses ISI Iterations EpisodePeriod Reps Dims StartPos
               Spacing ScaleFactor CenterOffset Trig RotAngle = Some p \<and> Iterations > 1 \<longrightarrow>
          (\<exists>ps dt.
              loopPairs p = Some ps
            \<and> dt = tEpisodePeriod (gridTimes Baseline TimeOn NumPulses ISI 1 EpisodePeriod)
            \<and> (mkLoop START TIME_OFFSET (ucast Iterations),
                mkLoop END (TIME_OFFSET + Iterations * dt) (ucast Iterations)) \<in> set ps))"
proof (intro conjI allI impI)
  show "\<exists>inner.
      loopPairs (buildSpot_prot Baseline TimeOn NumPulses ISI EpisodePeriod Reps Pos ScaleFactor
                   CenterOffset Trig)
        = Some (inner @
            [(mkLoop START 0 (ucast Reps),
              mkLoop END
                (0 + ucast Reps * tEpisodePeriod (spotTimes Baseline TimeOn NumPulses ISI EpisodePeriod)
                   + PROT_PERIOD)
                (ucast Reps))])"
    using loopPairsI [OF loopScan_spot [of Baseline TimeOn NumPulses ISI EpisodePeriod Reps Pos
          ScaleFactor CenterOffset Trig]]
    by (simp add: START_def END_def PROT_PERIOD_def mult.commute)
next
  fix p k
  assume a: "buildTarget_prot lm TargetFile Baseline TimeOn NumPulses ISI Iterations EpisodePeriod Reps
                 NumPoints ScaleFactor CenterOffset Trig RotAngle = Some p \<and> k < unat NumPoints"
  define t where "t = gridTimes Baseline TimeOn NumPulses ISI Iterations EpisodePeriod"
  define ps where "ps = concat (map (targetPairs t NumPulses Iterations) [0..<unat NumPoints])
           @ [(mkLoop (CHR ''S'') 0 (ucast Reps),
               mkLoop (CHR ''E'') (tEpisodePeriod t * ucast NumPoints) (ucast Reps))]"
  have b: "buildTarget_prot lm TargetFile Baseline TimeOn NumPulses ISI Iterations EpisodePeriod Reps
                 NumPoints ScaleFactor CenterOffset Trig RotAngle = Some p"
    using a by simp
  have lp: "loopPairs p = Some ps"
    using loopPairsI [OF loopScan_target [OF b]] by (simp add: ps_def t_def)
  have k: "set (targetPairs t NumPulses Iterations k) \<subseteq> set ps"
    using a by (auto simp: ps_def)
  have it: "tEpisodePeriod t
      = Iterations * tEpisodePeriod (gridTimes Baseline TimeOn NumPulses ISI 1 EpisodePeriod)"
    unfolding t_def by (rule gridTimes_iter)
  show "\<exists>ps t dt NextEpisode NextPulse.
              loopPairs p = Some ps
            \<and> t = gridTimes Baseline TimeOn NumPulses ISI Iterations EpisodePeriod
            \<and> dt = tEpisodePeriod (gridTimes Baseline TimeOn NumPulses ISI 1 EpisodePeriod)
            \<and> NextEpisode = TIME_OFFSET + of_nat k * tEpisodePeriod t
            \<and> NextPulse = NextEpisode + tBaseline t
            \<and> (NumPulses \<noteq> 1 \<longrightarrow>
                 (mkLoop START NextPulse (ucast NumPulses),
                  mkLoop END (NextPulse + ucast NumPulses * tISI t) (ucast NumPulses)) \<in> set ps)
            \<and> (Iterations > 1 \<longrightarrow>
                 (mkLoop START NextEpisode (ucast Iterations),
                  mkLoop END (NextEpisode + Iterations * dt) (ucast Iterations)) \<in> set ps)"
    using lp k targetPairs_pulse [of NumPulses k t Iterations]
      targetPairs_iter [of Iterations k t NumPulses] it
    unfolding t_def [symmetric]
    by (intro exI [of _ ps] exI [of _ t]) auto
next
  fix p n k
  assume a: "buildPattern_prot lm PatternFile Baseline TimeOn NumPulses ISI Iterations EpisodePeriod Reps
                 StartPos Spacing ScaleFactor CenterOffset Trig RotAngle = Some p
               \<and> getNumPoints PatternFile = Some n \<and> k < unat (word_of_int n :: u16)"
  define t where "t = gridTimes Baseline TimeOn NumPulses ISI Iterations EpisodePeriod"
  define ps where "ps = concat (map (targetPairs t NumPulses Iterations) [0..<unat (word_of_int n :: u16)])
           @ [(mkLoop (CHR ''S'') 0 (ucast Reps),
               mkLoop (CHR ''E'') (tEpisodePeriod t * ucast (word_of_int n :: u16)) (ucast Reps))]"
  have lp: "loopPairs p = Some ps"
    using a loopScan_pattern [of lm PatternFile Baseline TimeOn NumPulses ISI Iterations EpisodePeriod
        Reps StartPos Spacing ScaleFactor CenterOffset Trig RotAngle p]
    by (auto simp: ps_def t_def intro: loopPairsI)
  have k: "set (targetPairs t NumPulses Iterations k) \<subseteq> set ps"
    using a by (auto simp: ps_def)
  have it: "tEpisodePeriod t
      = Iterations * tEpisodePeriod (gridTimes Baseline TimeOn NumPulses ISI 1 EpisodePeriod)"
    unfolding t_def by (rule gridTimes_iter)
  show "\<exists>ps t dt NextEpisode NextPulse.
              loopPairs p = Some ps
            \<and> t = gridTimes Baseline TimeOn NumPulses ISI Iterations EpisodePeriod
            \<and> dt = tEpisodePeriod (gridTimes Baseline TimeOn NumPulses ISI 1 EpisodePeriod)
            \<and> NextEpisode = TIME_OFFSET + of_nat k * tEpisodePeriod t
            \<and> NextPulse = NextEpisode + tBaseline t
            \<and> (NumPulses \<noteq> 1 \<longrightarrow>
                 (mkLoop START NextPulse (ucast NumPulses),
                  mkLoop END (NextPulse + ucast NumPulses * tISI t) (ucast NumPulses)) \<in> set ps)
            \<and> (Iterations > 1 \<longrightarrow>
                 (mkLoop START NextEpisode (ucast Iterations),
                  mkLoop END (NextEpisode + Iterations * dt) (ucast Iterations)) \<in> set ps)"
    using lp k targetPairs_pulse [of NumPulses k t Iterations]
      targetPairs_iter [of Iterations k t NumPulses] it
    unfolding t_def [symmetric]
    by (intro exI [of _ ps] exI [of _ t]) auto
next
  fix p
  assume a: "buildGrid_prot lm Baseline TimeOn NumPulses ISI Iterations EpisodePeriod Reps Dims StartPos
               Spacing ScaleFactor CenterOffset Trig RotAngle = Some p \<and> Iterations > 1"
  define t where "t = gridTimes Baseline TimeOn NumPulses ISI Iterations EpisodePeriod"
  have lp: "loopPairs p = Some (gridPairs t NumPulses Iterations Reps Dims)"
    using a buildGrid_loopScan [of lm Baseline TimeOn NumPulses ISI Iterations EpisodePeriod Reps Dims
        StartPos Spacing ScaleFactor CenterOffset Trig RotAngle]
    by (auto simp: t_def intro: loopPairsI)
  have it: "tEpisodePeriod t
      = Iterations * tEpisodePeriod (gridTimes Baseline TimeOn NumPulses ISI 1 EpisodePeriod)"
    unfolding t_def by (rule gridTimes_iter)
  have "(mkLoop START TIME_OFFSET (ucast Iterations),
         mkLoop END (TIME_OFFSET + tEpisodePeriod t) (ucast Iterations))
        \<in> set (gridPairs t NumPulses Iterations Reps Dims)"
    using a by (simp add: gridPairs_def START_def END_def TIME_OFFSET_def)
  then show "\<exists>ps dt.
              loopPairs p = Some ps
            \<and> dt = tEpisodePeriod (gridTimes Baseline TimeOn NumPulses ISI 1 EpisodePeriod)
            \<and> (mkLoop START TIME_OFFSET (ucast Iterations),
                mkLoop END (TIME_OFFSET + Iterations * dt) (ucast Iterations)) \<in> set ps"
    using lp it by simp
qed


theorem loop_end_cycles_witness:
  "(\<exists>inner.
      loopPairs (buildSpot_prot 400 200 5 400 2000 3 \<lparr>X = 450, Y = 400\<rparr> 2 \<lparr>X = 716, Y = 206\<rparr> T_OUT)
        = Some (inner @ [(mkLoop START 0 3, mkLoop END (0 + 3 * 240000 + 50) 3)]))
   \<and> (\<exists>p ps. buildTarget_prot libm_rn (Some [10, 20, 30, 40]) 400 200 5 400 10 2000 3 2 2
                \<lparr>X = 716, Y = 206\<rparr> T_OUT (Finite 10) = Some p
          \<and> loopPairs p = Some ps
          \<and> (mkLoop START 2440010 5, mkLoop END (2440010 + 5 * 40000) 5) \<in> set ps
          \<and> (mkLoop START 2400010 10, mkLoop END (2400010 + 10 * 240000) 10) \<in> set ps)
   \<and> (\<exists>p ps. buildPattern_prot libm_rn (Some [2, 1, 1, 2, 2]) 400 200 5 400 10 2000 3 \<lparr>X = 40, Y = 320\<rparr>
                \<lparr>X = 50, Y = 50\<rparr> 2 \<lparr>X = 716, Y = 206\<rparr> T_OUT (Finite 10) = Some p
          \<and> loopPairs p = Some ps
          \<and> (mkLoop START 2440010 5, mkLoop END (2440010 + 5 * 40000) 5) \<in> set ps
          \<and> (mkLoop START 2400010 10, mkLoop END (2400010 + 10 * 240000) 10) \<in> set ps)
   \<and> (\<exists>p ps. buildGrid_prot libm_rn 400 200 5 400 10 2000 3 \<lparr>X = 5, Y = 5\<rparr> \<lparr>X = 40, Y = 320\<rparr>
                \<lparr>X = 50, Y = 50\<rparr> 2 \<lparr>X = 716, Y = 206\<rparr> T_OUT (Finite 10) = Some p
          \<and> loopPairs p = Some ps
          \<and> (mkLoop START 10 10, mkLoop END (10 + 10 * 240000) 10) \<in> set ps)"
proof -
  note m = loop_end_cycles [where Baseline = 400 and TimeOn = 200 and NumPulses = 5
      and ISI = 400 and EpisodePeriod = 2000 and Reps = 3 and Pos = "\<lparr>X = 450, Y = 400\<rparr>"
      and ScaleFactor = 2 and CenterOffset = "\<lparr>X = 716, Y = 206\<rparr>" and Trig = T_OUT
      and Iterations = 10 and Dims = "\<lparr>X = 5, Y = 5\<rparr>" and StartPos = "\<lparr>X = 40, Y = 320\<rparr>"
      and Spacing = "\<lparr>X = 50, Y = 50\<rparr>" and RotAngle = "Finite 10" and lm = libm_rn and TargetFile = "Some [10, 20, 30, 40]"
      and NumPoints = 2 and PatternFile = "Some [2, 1, 1, 2, 2]"]
  have ts: "tEpisodePeriod (spotTimes 400 200 5 400 2000) = 240000"
    by (simp add: spotTimes_def CYCLES_PER_MS_def)
  have tg: "tEpisodePeriod (gridTimes 400 200 5 400 10 2000) = 2400000"
    "tEpisodePeriod (gridTimes 400 200 5 400 1 2000) = 240000"
    "tBaseline (gridTimes 400 200 5 400 10 2000) = 40000"
    "tISI (gridTimes 400 200 5 400 10 2000) = 40000"
    by (simp_all add: gridTimes_def CYCLES_PER_MS_def)
  obtain p1 where p1: "buildTarget_prot libm_rn (Some [10, 20, 30, 40]) 400 200 5 400 10 2000 3 2 2
                \<lparr>X = 716, Y = 206\<rparr> T_OUT (Finite 10) = Some p1"
    using buildTarget_prot_total [of "Finite 10" 2 libm_rn "[10, 20, 30, 40]" 400 200 5 400 10 2000 3 2
        "\<lparr>X = 716, Y = 206\<rparr>" T_OUT]
    by auto
  obtain p2 where p2: "buildPattern_prot libm_rn (Some [2, 1, 1, 2, 2]) 400 200 5 400 10 2000 3
        \<lparr>X = 40, Y = 320\<rparr> \<lparr>X = 50, Y = 50\<rparr> 2 \<lparr>X = 716, Y = 206\<rparr> T_OUT (Finite 10) = Some p2"
    using buildPattern_prot_total [of "Finite 10" 2 libm_rn "[1, 1, 2, 2]" 400 200 5 400 10 2000 3
        "\<lparr>X = 40, Y = 320\<rparr>" "\<lparr>X = 50, Y = 50\<rparr>" 2 "\<lparr>X = 716, Y = 206\<rparr>" T_OUT]
    by auto
  obtain p3 where p3: "buildGrid_prot libm_rn 400 200 5 400 10 2000 3 \<lparr>X = 5, Y = 5\<rparr> \<lparr>X = 40, Y = 320\<rparr>
                \<lparr>X = 50, Y = 50\<rparr> 2 \<lparr>X = 716, Y = 206\<rparr> T_OUT (Finite 10) = Some p3"
    using buildGrid_prot_total by blast
  have h1: "buildTarget_prot libm_rn (Some [10, 20, 30, 40]) 400 200 5 400 10 2000 3 2 2
                \<lparr>X = 716, Y = 206\<rparr> T_OUT (Finite 10) = Some p1 \<and> 1 < unat (2 :: u16)"
    using p1 by simp
  have h2: "buildPattern_prot libm_rn (Some [2, 1, 1, 2, 2]) 400 200 5 400 10 2000 3
        \<lparr>X = 40, Y = 320\<rparr> \<lparr>X = 50, Y = 50\<rparr> 2 \<lparr>X = 716, Y = 206\<rparr> T_OUT (Finite 10) = Some p2
      \<and> getNumPoints (Some [2, 1, 1, 2, 2]) = Some 2 \<and> 1 < unat (word_of_int 2 :: u16)"
    using p2 by (simp add: getNumPoints_def)
  have h3: "buildGrid_prot libm_rn 400 200 5 400 10 2000 3 \<lparr>X = 5, Y = 5\<rparr> \<lparr>X = 40, Y = 320\<rparr>
                \<lparr>X = 50, Y = 50\<rparr> 2 \<lparr>X = 716, Y = 206\<rparr> T_OUT (Finite 10) = Some p3 \<and> (1 :: u32) < 10"
    using p3 by simp
  have c0: "\<exists>inner.
      loopPairs (buildSpot_prot 400 200 5 400 2000 3 \<lparr>X = 450, Y = 400\<rparr> 2 \<lparr>X = 716, Y = 206\<rparr> T_OUT)
        = Some (inner @ [(mkLoop START 0 3, mkLoop END (0 + 3 * 240000 + 50) 3)])"
    using m [THEN conjunct1] by (simp add: ts PROT_PERIOD_def)
  have c1: "\<exists>ps. loopPairs p1 = Some ps
          \<and> (mkLoop START 2440010 5, mkLoop END (2440010 + 5 * 40000) 5) \<in> set ps
          \<and> (mkLoop START 2400010 10, mkLoop END (2400010 + 10 * 240000) 10) \<in> set ps"
    using m [THEN conjunct2, THEN conjunct1, THEN spec, THEN spec, THEN mp, OF h1]
    by (auto simp: tg TIME_OFFSET_def)
  have c2: "\<exists>ps. loopPairs p2 = Some ps
          \<and> (mkLoop START 2440010 5, mkLoop END (2440010 + 5 * 40000) 5) \<in> set ps
          \<and> (mkLoop START 2400010 10, mkLoop END (2400010 + 10 * 240000) 10) \<in> set ps"
    using m [THEN conjunct2, THEN conjunct2, THEN conjunct1, THEN spec, THEN spec, THEN spec,
        THEN mp, OF h2]
    by (auto simp: tg TIME_OFFSET_def)
  have c3: "\<exists>ps. loopPairs p3 = Some ps
          \<and> (mkLoop START 10 10, mkLoop END (10 + 10 * 240000) 10) \<in> set ps"
    using m [THEN conjunct2, THEN conjunct2, THEN conjunct2, THEN spec, THEN mp, OF h3]
    by (auto simp: tg TIME_OFFSET_def)
  from c0 c1 c2 c3 p1 p2 p3 show ?thesis by blast
qed

text \<open>
  C3 as stated fails for \<open>buildSpot\<close> with baseline 1, pulse width 1, two pulses, ISI 1,
  episode period 5 and three repetitions: the episode period is 500 cycles and the ISI 100
  cycles; the outer loop starts at cycle 0 and ends at cycle 1550, not at 0 + 3 * 500, and
  the pulse-train loop starts at cycle 100 and ends at cycle 200, not at 100 + 2 * 100.
\<close>

theorem loop_end_counterexample:
  "loopPairs (buildSpot_prot 1 1 2 1 5 3 \<lparr>X = 0, Y = 0\<rparr> 1 \<lparr>X = 0, Y = 0\<rparr> T_NONE)
     = Some [(mkLoop START 100 2, mkLoop END 200 2), (mkLoop START 0 3, mkLoop END 1550 3)]
   \<and> tEpisodePeriod (spotTimes 1 1 2 1 5) = 500
   \<and> tISI (spotTimes 1 1 2 1 5) = 100
   \<and> (1550 :: u32) \<noteq> 0 + 3 * 500
   \<and> (200 :: u32) \<noteq> 100 + 2 * 100"
  using loopPairsI [OF loopScan_spot [of 1 1 2 1 5 3 "\<lparr>X = 0, Y = 0\<rparr>" 1 "\<lparr>X = 0, Y = 0\<rparr>" T_NONE]]
  by (simp add: spotTimes_def CYCLES_PER_MS_def START_def END_def)

text \<open>
  C5. For every generator and every input, the protocol it emits has its loop commands
  matched: read in append order, every end command closes a start command that precedes
  it, no start command is left open, and there are as many start as end commands.
\<close>

theorem generators_loops_matched:
  "loopsMatched (buildSpot_prot Baseline TimeOn NumPulses ISI EpisodePeriod Reps Pos ScaleFactor
      CenterOffset Trig)
   \<and> (\<forall>p. buildGrid_prot lm Baseline TimeOn NumPulses ISI Iterations EpisodePeriod Reps Dims StartPos
          Spacing ScaleFactor CenterOffset Trig RotAngle = Some p \<longrightarrow> loopsMatched p)
   \<and> (\<forall>p. buildTarget_prot lm TargetFile Baseline TimeOn NumPulses ISI Iterations EpisodePeriod Reps
          NumPoints ScaleFactor CenterOffset Trig RotAngle = Some p \<longrightarrow> loopsMatched p)
   \<and> loopsMatched (buildRapidGrid_prot Baseline TimeOn ISI EpisodePeriod Reps Dims StartPos Spacing
        ScaleFactor CenterOffset Trig RotAngle)
   \<and> (\<forall>p. buildRapidTarget_prot lm TargetFile Baseline TimeOn ISI EpisodePeriod Reps NumPoints
          ScaleFactor CenterOffset Trig RotAngle = Some p \<longrightarrow> loopsMatched p)
   \<and> (\<forall>p. buildPattern_prot lm PatternFile Baseline TimeOn NumPulses ISI Iterations EpisodePeriod Reps
          StartPos Spacing ScaleFactor CenterOffset Trig RotAngle = Some p \<longrightarrow> loopsMatched p)"
proof (intro conjI allI impI)
  show "loopsMatched (buildSpot_prot Baseline TimeOn NumPulses ISI EpisodePeriod Reps Pos ScaleFactor
      CenterOffset Trig)"
    by (rule loopsMatchedI [OF loopScan_spot])
next
  fix p
  assume "buildGrid_prot lm Baseline TimeOn NumPulses ISI Iterations EpisodePeriod Reps Dims StartPos
          Spacing ScaleFactor CenterOffset Trig RotAngle = Some p"
  then show "loopsMatched p"
    using buildGrid_loopScan [of lm Baseline TimeOn NumPulses ISI Iterations EpisodePeriod Reps Dims
        StartPos Spacing ScaleFactor CenterOffset Trig RotAngle]
    by (auto intro: loopsMatchedI)
next
  fix p
  assume "buildTarget_prot lm TargetFile Baseline TimeOn NumPulses ISI Iterations EpisodePeriod Reps
          NumPoints ScaleFactor CenterOffset Trig RotAngle = Some p"
  then show "loopsMatched p"
    by (rule loopsMatchedI [OF loopScan_target])
next
  show "loopsMatched (buildRapidGrid_prot Baseline TimeOn ISI EpisodePeriod Reps Dims StartPos Spacing
        ScaleFactor CenterOffset Trig RotAngle)"
    by (rule loopsMatchedI [OF loopScan_rapidGrid])
next
  fix p
  assume "buildRapidTarget_prot lm TargetFile Baseline TimeOn ISI EpisodePeriod Reps NumPoints
          ScaleFactor CenterOffset Trig RotAngle = Some p"
  then show "loopsMatched p"
    by (rule loopsMatchedI [OF loopScan_rapidTarget])
next
  fix p
  assume "buildPattern_prot lm PatternFile Baseline TimeOn NumPulses ISI Iterations EpisodePeriod Reps
          StartPos Spacing ScaleFactor CenterOffset Trig RotAngle = Some p"
  from loopScan_pattern [OF this] show "loopsMatched p"
    by (auto intro: loopsMatchedI)
qed


theorem generators_loops_matched_witness:
  "loopsMatched (buildSpot_prot 400 200 5 400 2000 1 \<lparr>X = 450, Y = 400\<rparr> 2 \<lparr>X = 716, Y = 206\<rparr> T_OUT)
   \<and> (\<exists>p. buildGrid_prot libm_rn 400 200 5 400 10 2000 1 \<lparr>X = 5, Y = 5\<rparr> \<lparr>X = 40, Y = 320\<rparr>
            \<lparr>X = 50, Y = 50\<rparr> 2 \<lparr>X = 716, Y = 206\<rparr> T_OUT (Finite 10) = Some p \<and> loopsMatched p)
   \<and> (\<exists>p. buildTarget_prot libm_rn (Some [10, 20, 30, 40]) 400 200 5 400 10 2000 1 2 2
            \<lparr>X = 716, Y = 206\<rparr> T_OUT (Finite 10) = Some p \<and> loopsMatched p)
   \<and> loopsMatched (buildRapidGrid_prot 400 200 400 2000 1 \<lparr>X = 5, Y = 5\<rparr> \<lparr>X = 40, Y = 320\<rparr>
        \<lparr>X = 50, Y = 50\<rparr> 2 \<lparr>X = 716, Y = 206\<rparr> T_OUT (Finite 10))
   \<and> (\<exists>p. buildRapidTarget_prot libm_rn (Some [10, 20, 30, 40]) 400 200 400 2000 1 2 2
            \<lparr>X = 716, Y = 206\<rparr> T_OUT (Finite 10) = Some p \<and> loopsMatched p)
   \<and> (\<exists>p. buildPattern_prot libm_rn (Some [2, 1, 1, 2, 2]) 400 200 5 400 10 2000 1 \<lparr>X = 40, Y = 320\<rparr>
            \<lparr>X = 50, Y = 50\<rparr> 2 \<lparr>X = 716, Y = 206\<rparr> T_OUT (Finite 10) = Some p \<and> loopsMatched p)"
proof -
  note m = generators_loops_matched [where Baseline = 400 and TimeOn = 200 and NumPulses = 5
      and ISI = 400 and EpisodePeriod = 2000 and Reps = 1 and Pos = "\<lparr>X = 450, Y = 400\<rparr>"
      and ScaleFactor = 2 and CenterOffset = "\<lparr>X = 716, Y = 206\<rparr>" and Trig = T_OUT
      and Iterations = 10 and Dims = "\<lparr>X = 5, Y = 5\<rparr>" and StartPos = "\<lparr>X = 40, Y = 320\<rparr>"
      and Spacing = "\<lparr>X = 50, Y = 50\<rparr>" and RotAngle = "Finite 10" and lm = libm_rn and TargetFile = "Some [10, 20, 30, 40]"
      and NumPoints = 2 and PatternFile = "Some [2, 1, 1, 2, 2]"]
  have g: "\<exists>p. buildGrid_prot libm_rn 400 200 5 400 10 2000 1 \<lparr>X = 5, Y = 5\<rparr> \<lparr>X = 40, Y = 320\<rparr>
            \<lparr>X = 50, Y = 50\<rparr> 2 \<lparr>X = 716, Y = 206\<rparr> T_OUT (Finite 10) = Some p"
    by (rule buildGrid_prot_total)
  have t: "\<exists>p. buildTarget_prot libm_rn (Some [10, 20, 30, 40]) 400 200 5 400 10 2000 1 2 2
            \<lparr>X = 716, Y = 206\<rparr> T_OUT (Finite 10) = Some p"
    by (rule buildTarget_prot_total) simp
  have r: "\<exists>p. buildRapidTarget_prot libm_rn (Some [10, 20, 30, 40]) 400 200 400 2000 1 2 2
            \<lparr>X = 716, Y = 206\<rparr> T_OUT (Finite 10) = Some p"
    by (rule buildRapidTarget_prot_total) simp
  have q: "\<exists>p. buildPattern_prot libm_rn (Some [2, 1, 1, 2, 2]) 400 200 5 400 10 2000 1 \<lparr>X = 40, Y = 320\<rparr>
            \<lparr>X = 50, Y = 50\<rparr> 2 \<lparr>X = 716, Y = 206\<rparr> T_OUT (Finite 10) = Some p"
    by (rule buildPattern_prot_total) simp
  from m g t r q show ?thesis by blast
qed

text \<open>
  C2. For every protocol whose commands have valid characters (as the commands of every
  generator have), \<open>ProtToString\<close> returns the line \<open>C\<close> followed by one line per command
  in append order, each of the form control character, scan character, comma, cycle,
  comma, channel, comma, value, newline, with the numbers in decimal, and nothing after
  the line of the last command. The protocol of one move command at channel 4, cycle 10,
  value 5000 is rendered as the two lines \<open>C\<close> and \<open>AV,10,4,5000\<close>.
\<close>

theorem ProtToString_lines:
  "((\<forall>c \<in> set protocol. validChars c) \<longrightarrow>
      ProtToString True protocol =
        Some (''C'' @ [CHR 0x0A] @
          concat (map (\<lambda>c. [DSPCmd c, ScanCmd c] @ '','' @ dec (unat (Cycle c)) @ '',''
                         @ sdec (Channel c) @ '','' @ sdec (sint (Value c)) @ [CHR 0x0A])
                    protocol)))
   \<and> ProtToString True (snd (appendMove True createProtocol 4 10 5000))
       = Some (''C'' @ [CHR 0x0A] @ ''AV,10,4,5000'' @ [CHR 0x0A])"
proof
  have "sprintf_FORMAT =
      (\<lambda>c. [DSPCmd c, ScanCmd c] @ '','' @ dec (unat (Cycle c)) @ '',''
            @ sdec (Channel c) @ '','' @ sdec (sint (Value c)) @ [CHR 0x0A])"
    by (rule ext) (simp add: sprintf_FORMAT_def)
  then show "(\<forall>c \<in> set protocol. validChars c) \<longrightarrow>
      ProtToString True protocol =
        Some (''C'' @ [CHR 0x0A] @
          concat (map (\<lambda>c. [DSPCmd c, ScanCmd c] @ '','' @ dec (unat (Cycle c)) @ '',''
                         @ sdec (Channel c) @ '','' @ sdec (sint (Value c)) @ [CHR 0x0A])
                    protocol))"
    using ProtToString_wf [of protocol] by (auto simp: validChars_def)
next
  have "\<forall>c \<in> set [mkMove 4 10 5000]. DSPCmd c \<noteq> NUL \<and> ScanCmd c \<noteq> NUL"
    by (simp add: mkMove_def NUL_def)
  from ProtToString_wf [OF this]
  show "ProtToString True (snd (appendMove True createProtocol 4 10 5000))
       = Some (''C'' @ [CHR 0x0A] @ ''AV,10,4,5000'' @ [CHR 0x0A])"
    by (simp add: appendMove_True createProtocol_def sprintf_FORMAT_def mkMove_def sdec_def
        dec.simps digit_def)
qed

text \<open>The string that \<open>buildSpot\<close> returns for one pulse and no trigger.\<close>

theorem ProtToString_lines_witness:
  "buildSpot 400 200 1 400 2000 1 \<lparr>X = 450, Y = 400\<rparr> 2 \<lparr>X = 716, Y = 206\<rparr> T_NONE
     = Some (''C'' @ [CHR 0x0A] @ ''AV,0,4,532'' @ [CHR 0x0A] @ ''AV,0,3,-388'' @ [CHR 0x0A]
         @ ''AS,0,9,1'' @ [CHR 0x0A] @ ''AV,40000,7,4'' @ [CHR 0x0A] @ ''AV,60000,7,0'' @ [CHR 0x0A]
         @ ''AE,200050,9,1'' @ [CHR 0x0A])"
  using ProtToString_lines [of "buildSpot_prot 400 200 1 400 2000 1 \<lparr>X = 450, Y = 400\<rparr> 2
      \<lparr>X = 716, Y = 206\<rparr> T_NONE", THEN conjunct1]
  unfolding buildSpot_def buildSpot_prot_example
  by (simp add: validChars_def mkMove_def mkLoop_def mkTrigOut_def NUL_def sdec_def dec.simps
      digit_def)

text \<open>
  C7 (as the code has it). For calibration points of which no pair is degenerate (2 to
  32768 points), \<open>calcScaling\<close> computes, for every pair of points \<open>i < j\<close> whose X
  (respectively Y) galvo coordinates differ, the ratio of the distance of the galvo
  coordinates to the distance of the pixel coordinates on that axis, folds the ratios in
  that order by the running average seeded with the first ratio (with 0 when there is no
  ratio), and rounds the result to the nearest integer; the arithmetic is that of doubles,
  in which every difference, quotient, sum and half is rounded. The test is on the galvo
  coordinates, not on the pixel coordinates. On the three calibration points
  (0, 0, 0, 0), (100, 0, 50, 0) and (0, 100, 0, 50) it returns 2.
\<close>

theorem calcScaling_galvo_ratios:
  "(length pts = unat NumPoints \<and> 2 \<le> unat NumPoints \<and> unat NumPoints < 32769
      \<and> (\<forall>pr \<in> set (indexPairs (unat NumPoints)). nondegenerate pts pr)
    \<longrightarrow> calcScaling NumPoints pts
          = Some (to_int64 (dround (runningAverage (galvoRatios pts)))))
   \<and> calcScaling 3 [(Finite 0, Finite 0, Finite 0, Finite 0),
         (Finite 100, Finite 0, Finite 50, Finite 0),
         (Finite 0, Finite 100, Finite 0, Finite 50)] = Some 2"
  using calcScaling_running_average [of pts NumPoints] calcScaling_example by blast

theorem calcScaling_galvo_ratios_witness:
  "galvoRatios [(Finite 0, Finite 0, Finite 0, Finite 0),
       (Finite 100, Finite 0, Finite 50, Finite 0),
       (Finite 0, Finite 100, Finite 0, Finite 50)] = [Finite 2, Finite 2, Finite 2, Finite 2]
   \<and> runningAverage [Finite 2, Finite 2, Finite 2, Finite 2] = Finite 2
   \<and> calcScaling 3 [(Finite 0, Finite 0, Finite 0, Finite 0),
         (Finite 100, Finite 0, Finite 50, Finite 0),
         (Finite 0, Finite 100, Finite 0, Finite 50)]
       = Some (to_int64 (dround (runningAverage [Finite 2, Finite 2, Finite 2, Finite 2])))"
proof -
  have g: "galvoRatios [(Finite 0, Finite 0, Finite 0, Finite 0),
         (Finite 100, Finite 0, Finite 50, Finite 0),
         (Finite 0, Finite 100, Finite 0, Finite 50)] = [Finite 2, Finite 2, Finite 2, Finite 2]"
    using indexPairs_3
    by (simp add: galvoRatios_def pairRatioList_def numeral_3_eq_3 galvoX_def galvoY_def
        pixelX_def pixelY_def dne_def dsub_def)
  have h: "length [(Finite 0, Finite 0, Finite 0, Finite 0),
          (Finite 100, Finite 0, Finite 50, Finite 0),
          (Finite 0, Finite 100, Finite 0, Finite 50)] = unat (3 :: u16)
      \<and> 2 \<le> unat (3 :: u16) \<and> unat (3 :: u16) < 32769
      \<and> (\<forall>pr \<in> set (indexPairs (unat (3 :: u16))).
            nondegenerate [(Finite 0, Finite 0, Finite 0, Finite 0),
              (Finite 100, Finite 0, Finite 50, Finite 0),
              (Finite 0, Finite 100, Finite 0, Finite 50)] pr)"
    by (simp add: indexPairs_3 nondegenerate_def galvoX_def galvoY_def pixelX_def pixelY_def
        dne_def)
  have r: "runningAverage [Finite 2, Finite 2, Finite 2, Finite 2] = Finite 2"
    by (simp add: runningAverage_def dne_def)
  from calcScaling_galvo_ratios [THEN conjunct1, THEN mp, OF h] g r show ?thesis
    by simp
qed

text \<open>
  C7 as stated fails. For the points (0, 0, 0, 0) and (0, 100, 10, 50) the X pixel
  coordinates differ and the X galvo coordinates do not: \<open>calcScaling\<close> skips the X axis and
  returns the Y ratio 2, where the ratios taken by pixel coordinates are 0 and 2 with the
  running average 1. For the points (0, 0, 0, 0) and (100, 100, 0, 50) the X galvo
  coordinates differ and the X pixel coordinates do not: \<open>calcScaling\<close> divides by zero,
  the average is infinite and its conversion gives the most negative \<open>int64_t\<close>, where the
  ratios taken by pixel coordinates give 2.
\<close>

theorem calcScaling_pixel_guard_counterexample:
  "calcScaling 2 [(Finite 0, Finite 0, Finite 0, Finite 0),
       (Finite 0, Finite 100, Finite 10, Finite 50)] = Some 2
   \<and> calcScaling_spec [(Finite 0, Finite 0, Finite 0, Finite 0),
       (Finite 0, Finite 100, Finite 10, Finite 50)] = 1
   \<and> calcScaling 2 [(Finite 0, Finite 0, Finite 0, Finite 0),
       (Finite 100, Finite 100, Finite 0, Finite 50)] = Some INT64_MIN
   \<and> calcScaling_spec [(Finite 0, Finite 0, Finite 0, Finite 0),
       (Finite 100, Finite 100, Finite 0, Finite 50)] = 2"
  by (simp add: calcScaling_def calcScaling_spec_def specRatios_def indexPairs_def runningAverage_def
      Let_def pairRatios_def storeRatio_def galvoX_def galvoY_def
      pixelX_def pixelY_def upt_rec c_round_def c_trunc_def dne_def dsub_def)

end
